theory Spec2Isabelle
  imports Main "HOL-Library.Word" "HOL-Library.Signed_Division" "HOL-Library.Monad_Syntax"
begin

unbundle bit_operations_syntax

section \<open>The time-partition (TP) scheduling class of kernel/evl/sched/tp.c\<close>

text \<open>
  A shallow embedding of \<^verbatim>\<open>src/kernel/evl/sched/tp.c\<close>. Conventions:

  \<^item> \<^verbatim>\<open>ktime_t\<close> (signed 64-bit nanoseconds) is a 64-bit word, read as a signed number by
    \<open>sint\<close>: \<^verbatim>\<open>ktime_add\<close> and \<^verbatim>\<open>ktime_sub\<close> wrap around, comparisons are signed. The C \<^verbatim>\<open>int\<close>s
    (window counts and indices, partition numbers, priorities) are HOL integers: the
    arithmetic done on them is on indices of windows of a table and on loop counters below
    a window count.
  \<^item> A pointer is an \<open>option\<close>: \<open>None\<close> is \<^verbatim>\<open>NULL\<close>. Schedule tables live in an explicit
    store (\<open>heap\<close>), since they are shared and reference counted.
  \<^item> A call that does not return normally has the result \<open>None\<close>: the catch-up loop of
    \<^verbatim>\<open>tp_schedule_next\<close> running forever, a dereference of a \<^verbatim>\<open>NULL\<close> or dangling table
    pointer, an array access out of range, a division by zero.
  \<^item> What the file takes from headers that are not part of the sources (configuration
    constants, state bits, the timespec conversions, CPU predicates) is a field of the
    parameter record \<open>tp_env\<close>; the clock readings and the address returned by the
    allocator are arguments of the calls that consume them.
  \<^item> The calls to primitives that the claims order in time (lock, unlock, timer,
    reference counting, notification) are recorded in \<open>trace\<close>, oldest first.
\<close>

subsection \<open>Data\<close>

type_synonym ktime = "64 word"
type_synonym tid = nat
type_synonym addr = nat

datatype errno = EINVAL | EBUSY | ENOMEM

text \<open>\<^verbatim>\<open>struct evl_tp_window\<close> and \<^verbatim>\<open>struct evl_tp_schedule\<close>.\<close>

record evl_tp_window =
  w_offset :: ktime
  w_part :: int

record evl_tp_schedule =
  pwin_nr :: int
  tf_duration :: ktime
  refcount :: int
  pwins :: "evl_tp_window list"

text \<open>The value of \<^verbatim>\<open>tp->tps\<close>: \<^verbatim>\<open>&tp->idle\<close> or \<^verbatim>\<open>&tp->partitions[n]\<close>.\<close>

datatype tp_rq_ref = IdleRq | PartRq int

record evl_timer =
  running :: bool
  date :: ktime

text \<open>\<^verbatim>\<open>struct evl_sched_tp\<close>; a run queue (\<^verbatim>\<open>runnable\<close>) is the list of its threads, head first.\<close>

record evl_sched_tp =
  partitions :: "tid list list"
  idle :: "tid list"
  tps :: "tp_rq_ref option"
  tf_timer :: evl_timer
  gps :: "addr option"
  wnext :: int
  tf_start :: ktime
  threads :: "tid list"

record evl_rq =
  tp :: evl_sched_tp
  curr :: tid
  resched :: bool

datatype sched_class = Class_tp | Class_fifo | Class_other

text \<open>The fields of \<^verbatim>\<open>struct evl_thread\<close> that tp.c reads or writes. \<open>th_tps\<close> is
  \<^verbatim>\<open>thread->tps\<close>, \<^verbatim>\<open>NULL\<close> or the index \<open>n\<close> of \<^verbatim>\<open>&rq->tp.partitions[n]\<close>; \<open>th_rq\<close> is the CPU of
  \<^verbatim>\<open>evl_thread_rq(thread)\<close>.\<close>

record evl_thread =
  state :: "32 word"
  bprio :: int
  cprio :: int
  th_tps :: "int option"
  base_class :: sched_class
  th_rq :: int

text \<open>\<^verbatim>\<open>union evl_sched_param\<close>, member \<^verbatim>\<open>tp\<close>.\<close>

record evl_sched_param =
  tp_prio :: int
  tp_ptid :: int

datatype event =
    Lock int
  | Unlock int
  | TimerStart int ktime
  | TimerStop int
  | GpsStore int "addr option"
  | RefGet addr
  | RefPut addr
  | NotifyOverrun tid int
  | Schedule

record sys =
  rqs :: "int \<Rightarrow> evl_rq"
  thr :: "tid \<Rightarrow> evl_thread"
  heap :: "addr \<Rightarrow> evl_tp_schedule option"
  trace :: "event list"

text \<open>\<^verbatim>\<open>struct __evl_tp_window\<close>, \<^verbatim>\<open>struct evl_tp_ctlparam\<close> and \<^verbatim>\<open>struct evl_tp_ctlinfo\<close> of the
  user interface; \<open>'ts\<close> is \<^verbatim>\<open>struct __evl_timespec\<close>.\<close>

record 'ts evl_u_tp_window =
  offset :: 'ts
  duration :: 'ts
  ptid :: int

datatype evl_tp_ctlop =
  evl_tp_install | evl_tp_uninstall | evl_tp_start | evl_tp_stop | evl_tp_get | evl_tp_other

record 'ts evl_tp_ctlparam =
  op :: evl_tp_ctlop
  nr_windows :: int
  windows :: "'ts evl_u_tp_window list"

record 'ts evl_tp_ctlinfo =
  it_nr_windows :: int
  it_windows :: "'ts evl_u_tp_window list"

text \<open>What tp.c takes from headers outside the sources.\<close>

record 'ts tp_env =
  CONFIG_EVL_SCHED_TP_NR_PART :: int
  EVL_TP_MIN_PRIO :: int
  EVL_TP_MAX_PRIO :: int
  EVL_T_WOSO :: "32 word"
  EVL_T_WEAK :: "32 word"
  EVL_THREAD_BLOCK_BITS :: "32 word"
  EVL_DEBUG_CORE :: bool
  u_timespec_to_ktime :: "'ts \<Rightarrow> ktime"
  ktime_to_u_timespec :: "ktime \<Rightarrow> 'ts"
  evl_tp_infolen :: "int \<Rightarrow> int"
  cpu_present :: "int \<Rightarrow> bool"
  is_threading_cpu :: "int \<Rightarrow> bool"

subsection \<open>Primitives\<close>

definition emit :: "event \<Rightarrow> sys \<Rightarrow> sys" where
  "emit e s = s\<lparr>trace := trace s @ [e]\<rparr>"

definition set_tp :: "int \<Rightarrow> evl_sched_tp \<Rightarrow> sys \<Rightarrow> sys" where
  "set_tp cpu t s = s\<lparr>rqs := (rqs s)(cpu := (rqs s cpu)\<lparr>tp := t\<rparr>)\<rparr>"

definition deref :: "(addr \<Rightarrow> 'a option) \<Rightarrow> addr option \<Rightarrow> 'a option" where
  "deref h p = (case p of None \<Rightarrow> None | Some a \<Rightarrow> h a)"

text \<open>An array element; \<open>None\<close> out of range.\<close>

definition elem :: "'a list \<Rightarrow> int \<Rightarrow> 'a option" where
  "elem xs i = (if 0 \<le> i \<and> nat i < length xs then Some (xs ! nat i) else None)"

text \<open>C's \<^verbatim>\<open>%\<close> on \<^verbatim>\<open>int\<close> (truncating); division by zero does not return.\<close>

definition c_mod :: "int \<Rightarrow> int \<Rightarrow> int option" where
  "c_mod a b = (if b = 0 then None else Some (a smod b))"

text \<open>\<^verbatim>\<open>ktime_add\<close>, \<^verbatim>\<open>ktime_sub\<close> and \<^verbatim>\<open>ktime_compare\<close> of \<^verbatim>\<open>linux/ktime.h\<close>: sum and difference of
  signed 64-bit numbers, which wrap around, and the sign of the signed comparison.\<close>

definition ktime_add :: "ktime \<Rightarrow> ktime \<Rightarrow> ktime" where
  "ktime_add a b = a + b"

definition ktime_sub :: "ktime \<Rightarrow> ktime \<Rightarrow> ktime" where
  "ktime_sub a b = a - b"

definition ktime_compare :: "ktime \<Rightarrow> ktime \<Rightarrow> int" where
  "ktime_compare a b = (if sint a < sint b then - 1 else if sint a = sint b then 0 else 1)"

subsection \<open>The window advance: \<^verbatim>\<open>tp_schedule_next\<close>\<close>

text \<open>The loop \<^verbatim>\<open>for (;;) { now = evl_read_clock(...); if (ktime_compare(now, t) <= 0) break;
  t = ktime_add(tp->tf_start, tp->gps->tf_duration); tp->tf_start = t; tp->wnext = 0; }\<close>.
  \<open>clk n\<close> is the \<open>n\<close>-th reading of the monotonic clock taken by the call. The result is
  the index of the last reading with the final \<open>t\<close>, \<open>tf_start\<close> and \<open>wnext\<close>.\<close>

partial_function (option) tp_catch_up ::
  "(nat \<Rightarrow> ktime) \<Rightarrow> ktime \<Rightarrow> nat \<Rightarrow> ktime \<Rightarrow> ktime \<Rightarrow> int \<Rightarrow> (nat \<times> ktime \<times> ktime \<times> int) option"
where
  "tp_catch_up clk dur n t tfs wn =
     (let now = clk n in
      if ktime_compare now t \<le> 0 then Some (n, t, tfs, wn)
      else tp_catch_up clk dur (n + 1) (ktime_add tfs dur) (ktime_add tfs dur) 0)"

declare tp_catch_up.simps [code]

definition tp_schedule_next :: "(nat \<Rightarrow> ktime) \<Rightarrow> int \<Rightarrow> sys \<Rightarrow> sys option" where
  "tp_schedule_next clk cpu s =
     (let tp0 = tp (rqs s cpu) in
      do {
        g \<leftarrow> deref (heap s) (gps tp0);
        w \<leftarrow> elem (pwins g) (wnext tp0);
        let p_next = w_part w;
        let tp1 = tp0\<lparr>tps := Some (if p_next < 0 then IdleRq else PartRq p_next)\<rparr>;
        wn \<leftarrow> c_mod (wnext tp1 + 1) (pwin_nr g);
        let tp2 = tp1\<lparr>wnext := wn\<rparr>;
        w' \<leftarrow> elem (pwins g) (wnext tp2);
        let t = ktime_add (tf_start tp2) (w_offset w');
        (n, t', tfs', wn') \<leftarrow> tp_catch_up clk (tf_duration g) 0 t (tf_start tp2) (wnext tp2);
        let tp3 = tp2\<lparr>tf_start := tfs', wnext := wn',
                       tf_timer := \<lparr>running = True, date = t'\<rparr>\<rparr>;
        let s1 = emit (TimerStart cpu t') (set_tp cpu tp3 s);
        Some (s1\<lparr>rqs := (rqs s1)(cpu := (rqs s1 cpu)\<lparr>resched := True\<rparr>)\<rparr>)
      })"

subsection \<open>Starting and stopping the schedule\<close>

text \<open>\<^verbatim>\<open>start_tp_schedule\<close>: the first clock reading becomes \<^verbatim>\<open>tf_start\<close>; the call to
  \<^verbatim>\<open>tp_schedule_next\<close> sees the readings that follow.\<close>

definition start_tp_schedule :: "(nat \<Rightarrow> ktime) \<Rightarrow> int \<Rightarrow> sys \<Rightarrow> sys option" where
  "start_tp_schedule clk cpu s =
     (let tp0 = tp (rqs s cpu) in
      if gps tp0 = None then Some s
      else tp_schedule_next (\<lambda>n. clk (n + 1)) cpu
             (set_tp cpu (tp0\<lparr>wnext := 0, tf_start := clk 0\<rparr>) s))"

text \<open>\<^verbatim>\<open>stop_tp_schedule\<close>; \<^verbatim>\<open>evl_stop_timer\<close> leaves the timer not running.\<close>

definition stop_tp_schedule :: "int \<Rightarrow> sys \<Rightarrow> sys" where
  "stop_tp_schedule cpu s =
     (let tp0 = tp (rqs s cpu) in
      if gps tp0 \<noteq> None
      then emit (TimerStop cpu) (set_tp cpu (tp0\<lparr>tf_timer := (tf_timer tp0)\<lparr>running := False\<rparr>\<rparr>) s)
      else s)"

subsection \<open>The frame timer handler: \<^verbatim>\<open>tp_tick_handler\<close>\<close>

definition tp_tick_handler :: "'ts tp_env \<Rightarrow> (nat \<Rightarrow> ktime) \<Rightarrow> int \<Rightarrow> sys \<Rightarrow> sys option" where
  "tp_tick_handler env clk cpu s =
     (let c = curr (rqs s cpu);
          s1 = emit (Lock cpu) s;
          tp0 = tp (rqs s1 cpu)
      in do {
        g \<leftarrow> deref (heap s1) (gps tp0);
        let overrun_frame =
          (if state (thr s1 c) AND (EVL_T_WOSO env OR EVL_THREAD_BLOCK_BITS env) = EVL_T_WOSO env
           then (if wnext tp0 - 1 < 0 then pwin_nr g - 1 else wnext tp0 - 1)
           else (- 1));
        let tp1 = (if wnext tp0 + 1 = pwin_nr g
                   then tp0\<lparr>tf_start := ktime_add (tf_start tp0) (tf_duration g)\<rparr> else tp0);
        s2 \<leftarrow> tp_schedule_next clk cpu (set_tp cpu tp1 s1);
        let s3 = emit (Unlock cpu) s2;
        Some (if overrun_frame \<ge> 0 then emit (NotifyOverrun c overrun_frame) s3 else s3)
      })"

subsection \<open>The class operations on threads and run queues\<close>

text \<open>\<^verbatim>\<open>tp_init\<close>: empty queues, no table, no attached thread; the timer is created stopped.\<close>

definition tp_init :: "'ts tp_env \<Rightarrow> int \<Rightarrow> sys \<Rightarrow> sys" where
  "tp_init env cpu s =
     set_tp cpu ((tp (rqs s cpu))\<lparr>
        partitions := replicate (nat (CONFIG_EVL_SCHED_TP_NR_PART env)) [],
        tps := None, gps := None, threads := [], idle := [],
        tf_timer := (tf_timer (tp (rqs s cpu)))\<lparr>running := False\<rparr>\<rparr>) s"

text \<open>\<^verbatim>\<open>tp_trackprio\<close>. The \<^verbatim>\<open>EVL_WARN_ON\<close> only reports; \<open>tp_trackprio_warn\<close> is its condition,
  with \<^verbatim>\<open>thread->tps - evl_thread_rq(thread)->tp.partitions\<close> the index held in \<open>th_tps\<close>.\<close>

definition tp_trackprio_warn :: "evl_thread \<Rightarrow> evl_sched_param option \<Rightarrow> bool" where
  "tp_trackprio_warn thread p =
     (case p of None \<Rightarrow> False
      | Some q \<Rightarrow> base_class thread = Class_tp \<and> th_tps thread \<noteq> Some (tp_ptid q))"

definition tp_trackprio :: "evl_thread \<Rightarrow> evl_sched_param option \<Rightarrow> evl_thread" where
  "tp_trackprio thread p =
     (case p of Some q \<Rightarrow> thread\<lparr>cprio := tp_prio q\<rparr>
      | None \<Rightarrow> thread\<lparr>cprio := bprio thread\<rparr>)"

definition tp_ceilprio :: "'ts tp_env \<Rightarrow> evl_thread \<Rightarrow> int \<Rightarrow> evl_thread" where
  "tp_ceilprio env thread prio =
     thread\<lparr>cprio := (if prio > EVL_TP_MAX_PRIO env then EVL_TP_MAX_PRIO env else prio)\<rparr>"

definition tp_getparam :: "evl_thread \<Rightarrow> (int \<times> int option)" where
  "tp_getparam thread = (cprio thread, th_tps thread)"

text \<open>\<^verbatim>\<open>tp_chkparam\<close>: \<open>Inr 0\<close> is the return value 0.\<close>

definition tp_chkparam :: "'ts tp_env \<Rightarrow> sys \<Rightarrow> tid \<Rightarrow> evl_sched_param \<Rightarrow> errno + int" where
  "tp_chkparam env s thread p =
     (let tp0 = tp (rqs s (th_rq (thr s thread))) in
      if gps tp0 = None \<or>
         tp_prio p < EVL_TP_MIN_PRIO env \<or>
         tp_prio p > EVL_TP_MAX_PRIO env \<or>
         tp_ptid p < 0 \<or>
         tp_ptid p \<ge> CONFIG_EVL_SCHED_TP_NR_PART env
      then Inl EINVAL else Inr 0)"

text \<open>\<^verbatim>\<open>tp_declare\<close> links the thread at the tail of \<^verbatim>\<open>rq->tp.threads\<close>; \<^verbatim>\<open>tp_forget\<close> unlinks it
  from the list it is linked in and clears \<^verbatim>\<open>thread->tps\<close>.\<close>

definition tp_declare :: "tid \<Rightarrow> evl_sched_param \<Rightarrow> sys \<Rightarrow> (errno + int) \<times> sys" where
  "tp_declare thread p s =
     (let cpu = th_rq (thr s thread); tp0 = tp (rqs s cpu)
      in (Inr 0, set_tp cpu (tp0\<lparr>threads := threads tp0 @ [thread]\<rparr>) s))"

definition tp_forget :: "tid \<Rightarrow> sys \<Rightarrow> sys" where
  "tp_forget thread s =
     s\<lparr>rqs := (\<lambda>cpu. (rqs s cpu)\<lparr>tp := (tp (rqs s cpu))\<lparr>threads := removeAll thread (threads (tp (rqs s cpu)))\<rparr>\<rparr>),
       thr := (thr s)(thread := (thr s thread)\<lparr>th_tps := None\<rparr>)\<rparr>"




subsection \<open>Schedule tables: allocation, reference counting, swap\<close>

text \<open>\<^verbatim>\<open>evl_alloc\<close> and \<^verbatim>\<open>evl_free\<close> belong to the memory allocator, outside the sources. The
  address that \<^verbatim>\<open>evl_alloc\<close> returns is an argument of \<open>tp_control\<close> (\<open>None\<close> when it fails);
  the block it designates is in the store from then on, its content not yet written.
  \<^verbatim>\<open>evl_free\<close> removes the block.\<close>

definition evl_alloc_at :: "addr \<Rightarrow> sys \<Rightarrow> sys" where
  "evl_alloc_at a s =
     s\<lparr>heap := (heap s)(a \<mapsto> \<lparr>pwin_nr = 0, tf_duration = 0, refcount = 0, pwins = []\<rparr>)\<rparr>"

definition evl_free :: "addr option \<Rightarrow> sys \<Rightarrow> sys" where
  "evl_free p s = (case p of None \<Rightarrow> s | Some a \<Rightarrow> s\<lparr>heap := (heap s)(a := None)\<rparr>)"

text \<open>\<^verbatim>\<open>set_tp_schedule\<close>: \<open>Inl EBUSY\<close> is \<^verbatim>\<open>ERR_PTR(-EBUSY)\<close>, \<open>Inr p\<close> the pointer returned.
  \<^verbatim>\<open>EVL_WARN_ON(CORE, c)\<close> is false, and \<open>c\<close> not evaluated, unless the core debug option is
  set.\<close>

definition set_tp_schedule ::
  "'ts tp_env \<Rightarrow> int \<Rightarrow> addr option \<Rightarrow> sys \<Rightarrow> ((errno + addr option) \<times> sys) option" where
  "set_tp_schedule env cpu new s =
     do {
       warn \<leftarrow> (if \<not> EVL_DEBUG_CORE env then Some False
                else case new of None \<Rightarrow> Some False
                  | Some a \<Rightarrow> do {
                      g \<leftarrow> heap s a;
                      if pwin_nr g \<le> 0 then Some True
                      else do { w \<leftarrow> elem (pwins g) 0; Some (w_offset w \<noteq> 0) }
                    });
       if warn then Some (Inr (gps (tp (rqs s cpu))), s)
       else
         let s1 = emit (Lock cpu) s in
         if threads (tp (rqs s1 cpu)) \<noteq> [] then Some (Inl EBUSY, emit (Unlock cpu) s1)
         else
           let s2 = stop_tp_schedule cpu s1;
               old_gps = gps (tp (rqs s2 cpu));
               s3 = emit (GpsStore cpu new) (set_tp cpu ((tp (rqs s2 cpu))\<lparr>gps := new\<rparr>) s2)
           in Some (Inr old_gps, emit (Unlock cpu) s3)
     }"

definition get_tp_schedule :: "int \<Rightarrow> sys \<Rightarrow> (addr option \<times> sys) option" where
  "get_tp_schedule cpu s =
     (case gps (tp (rqs s cpu)) of None \<Rightarrow> Some (None, s)
      | Some a \<Rightarrow> do {
          g \<leftarrow> heap s a;
          Some (Some a, emit (RefGet a) (s\<lparr>heap := (heap s)(a \<mapsto> g\<lparr>refcount := refcount g + 1\<rparr>)\<rparr>))
        })"

definition put_tp_schedule :: "addr \<Rightarrow> sys \<Rightarrow> sys option" where
  "put_tp_schedule a s =
     do {
       g \<leftarrow> heap s a;
       let s1 = emit (RefPut a) (s\<lparr>heap := (heap s)(a \<mapsto> g\<lparr>refcount := refcount g - 1\<rparr>)\<rparr>);
       Some (if refcount g - 1 = 0 then evl_free (Some a) s1 else s1)
     }"

subsection \<open>The control operation: \<^verbatim>\<open>tp_control\<close>\<close>

text \<open>The validation loop of the label \<^verbatim>\<open>install_schedule\<close>. \<open>ws\<close> holds the windows written to
  \<^verbatim>\<open>gps->pwins\<close> so far. \<open>Inl EINVAL\<close> is \<^verbatim>\<open>goto fail\<close> (with \<^verbatim>\<open>ret\<close> still \<^verbatim>\<open>-EINVAL\<close>); \<open>Inr\<close> holds
  \<open>n\<close>, \<open>next_offset\<close> and the windows at the exit of the loop.\<close>

function tp_install_loop ::
  "'ts tp_env \<Rightarrow> 'ts evl_tp_ctlparam \<Rightarrow> int \<Rightarrow> ktime \<Rightarrow> evl_tp_window list \<Rightarrow>
     (errno + int \<times> ktime \<times> evl_tp_window list) option" where
  "tp_install_loop env pt n next_offset ws =
     (if n < nr_windows pt then
        do {
          p \<leftarrow> elem (windows pt) n;
          let offset' = u_timespec_to_ktime env (offset p);
          if offset' \<noteq> next_offset then Some (Inl EINVAL)
          else
            let duration' = u_timespec_to_ktime env (duration p) in
            if sint duration' \<le> 0 then Some (Inl EINVAL)
            else if ptid p < - 1 \<or> ptid p \<ge> CONFIG_EVL_SCHED_TP_NR_PART env then Some (Inl EINVAL)
            else tp_install_loop env pt (n + 1) (ktime_add next_offset duration')
                   (ws @ [\<lparr>w_offset = next_offset, w_part = ptid p\<rparr>])
        }
      else Some (Inr (n, next_offset, ws)))"
  by pat_completeness auto
termination
  by (relation "measure (\<lambda>(env, pt, n, next_offset, ws). nat (nr_windows pt - n))") auto

declare tp_install_loop.simps [simp del]

text \<open>A write through a pointer into the caller's window array.\<close>

definition upd :: "'a list \<Rightarrow> int \<Rightarrow> ('a \<Rightarrow> 'a) \<Rightarrow> 'a list option" where
  "upd xs i f = (if 0 \<le> i \<and> nat i < length xs then Some (xs[nat i := f (xs ! nat i)]) else None)"

text \<open>The copy loop of \<^verbatim>\<open>evl_tp_get\<close>. \<open>p\<close>, \<open>pp\<close> are the positions of the pointers of these
  names in \<^verbatim>\<open>it->windows\<close>, \<open>w\<close>, \<open>pw\<close> in \<^verbatim>\<open>gps->pwins\<close>. The result holds the array written and
  the final \<open>pp\<close> and \<open>pw\<close>.\<close>

function tp_get_loop ::
  "'ts tp_env \<Rightarrow> evl_tp_schedule \<Rightarrow> int \<Rightarrow> int \<Rightarrow> int \<Rightarrow> int \<Rightarrow> int \<Rightarrow> int \<Rightarrow>
     'ts evl_u_tp_window list \<Rightarrow> ('ts evl_u_tp_window list \<times> int \<times> int) option" where
  "tp_get_loop env g nr n p pp w pw out =
     (if n < nr then
        do {
          wv \<leftarrow> elem (pwins g) w;
          out1 \<leftarrow> upd out p (\<lambda>e. e\<lparr>offset := ktime_to_u_timespec env (w_offset wv)\<rparr>);
          pwv \<leftarrow> elem (pwins g) pw;
          out2 \<leftarrow> upd out1 pp
                   (\<lambda>e. e\<lparr>duration := ktime_to_u_timespec env (ktime_sub (w_offset wv) (w_offset pwv))\<rparr>);
          out3 \<leftarrow> upd out2 p (\<lambda>e. e\<lparr>ptid := w_part wv\<rparr>);
          tp_get_loop env g nr (n + 1) (p + 1) p (w + 1) w out3
        }
      else Some (out, pp, pw))"
  by pat_completeness auto
termination
  by (relation "measure (\<lambda>(env, g, nr, n, p, pp, w, pw, out). nat (nr - n))") auto

declare tp_get_loop.simps [simp del]

text \<open>The labels \<^verbatim>\<open>switch_schedule\<close> (with \<^verbatim>\<open>fail\<close> and \<^verbatim>\<open>done\<close> behind it) and \<^verbatim>\<open>install_schedule\<close>,
  and the code after the \<^verbatim>\<open>switch\<close> for \<^verbatim>\<open>evl_tp_get\<close>. A result is the return value (\<open>Inl e\<close> for
  \<^verbatim>\<open>-e\<close>), the caller's \<^verbatim>\<open>infp\<close> block and the state.\<close>

definition tp_switch_schedule ::
  "'ts tp_env \<Rightarrow> int \<Rightarrow> addr option \<Rightarrow> 'ts evl_tp_ctlinfo option \<Rightarrow> sys \<Rightarrow>
     ((errno + int) \<times> 'ts evl_tp_ctlinfo option \<times> sys) option" where
  "tp_switch_schedule env cpu new infp s =
     do {
       (ogps, s1) \<leftarrow> set_tp_schedule env cpu new s;
       case ogps of
         Inl e \<Rightarrow> Some (Inl e, infp, evl_free new s1)
       | Inr old \<Rightarrow> do {
           s2 \<leftarrow> (case old of None \<Rightarrow> Some s1 | Some a \<Rightarrow> put_tp_schedule a s1);
           Some (Inr 0, infp, emit Schedule s2)
         }
     }"

definition tp_install_schedule ::
  "'ts tp_env \<Rightarrow> addr option \<Rightarrow> int \<Rightarrow> 'ts evl_tp_ctlparam \<Rightarrow> 'ts evl_tp_ctlinfo option \<Rightarrow> sys \<Rightarrow>
     ((errno + int) \<times> 'ts evl_tp_ctlinfo option \<times> sys) option" where
  "tp_install_schedule env alloc cpu pt infp s =
     (case alloc of None \<Rightarrow> Some (Inl ENOMEM, infp, s)
      | Some a \<Rightarrow> do {
          let s1 = evl_alloc_at a s;
          r \<leftarrow> tp_install_loop env pt 0 0 [];
          case r of
            Inl e \<Rightarrow> Some (Inl e, infp, evl_free (Some a) s1)
          | Inr (n, next_offset, ws) \<Rightarrow>
              tp_switch_schedule env cpu (Some a) infp
                (s1\<lparr>heap := (heap s1)(a \<mapsto>
                   \<lparr>pwin_nr = n, tf_duration = next_offset, refcount = 1, pwins = ws\<rparr>)\<rparr>)
        })"

definition tp_get ::
  "'ts tp_env \<Rightarrow> int \<Rightarrow> 'ts evl_tp_ctlparam \<Rightarrow> 'ts evl_tp_ctlinfo option \<Rightarrow> sys \<Rightarrow>
     ((errno + int) \<times> 'ts evl_tp_ctlinfo option \<times> sys) option" where
  "tp_get env cpu pt infp s =
     do {
       (p, s1) \<leftarrow> get_tp_schedule cpu (emit (Lock cpu) s);
       let s2 = emit (Unlock cpu) s1;
       case p of
         None \<Rightarrow> Some (Inr 0, infp, emit Schedule s2)
       | Some a \<Rightarrow>
           (case infp of
              None \<Rightarrow> do { s3 \<leftarrow> put_tp_schedule a s2; Some (Inl EINVAL, infp, s3) }
            | Some it \<Rightarrow> do {
                g \<leftarrow> heap s2 a;
                let nr = min (nr_windows pt) (pwin_nr g);
                let it1 = it\<lparr>it_nr_windows := pwin_nr g\<rparr>;
                (out, pp, pw) \<leftarrow> tp_get_loop env g nr 0 0 0 0 0 (it_windows it1);
                pwv \<leftarrow> elem (pwins g) pw;
                out' \<leftarrow> upd out pp
                   (\<lambda>e. e\<lparr>duration := ktime_to_u_timespec env (ktime_sub (tf_duration g) (w_offset pwv))\<rparr>);
                s3 \<leftarrow> put_tp_schedule a s2;
                Some (Inr (evl_tp_infolen env nr), Some (it1\<lparr>it_windows := out'\<rparr>), s3)
              })
     }"

definition tp_control ::
  "'ts tp_env \<Rightarrow> (nat \<Rightarrow> ktime) \<Rightarrow> addr option \<Rightarrow> int \<Rightarrow> 'ts evl_tp_ctlparam \<Rightarrow>
     'ts evl_tp_ctlinfo option \<Rightarrow> sys \<Rightarrow> ((errno + int) \<times> 'ts evl_tp_ctlinfo option \<times> sys) option" where
  "tp_control env clk alloc cpu pt infp s =
     (if cpu < 0 \<or> \<not> cpu_present env cpu \<or> \<not> is_threading_cpu env cpu
      then Some (Inl EINVAL, infp, s)
      else case op pt of
        evl_tp_install \<Rightarrow>
          if nr_windows pt > 0 then tp_install_schedule env alloc cpu pt infp s
          else tp_switch_schedule env cpu None infp s
      | evl_tp_uninstall \<Rightarrow> tp_switch_schedule env cpu None infp s
      | evl_tp_start \<Rightarrow> do {
          s1 \<leftarrow> start_tp_schedule clk cpu (emit (Lock cpu) s);
          Some (Inr 0, infp, emit Schedule (emit (Unlock cpu) s1))
        }
      | evl_tp_stop \<Rightarrow>
          Some (Inr 0, infp, emit Schedule (emit (Unlock cpu) (stop_tp_schedule cpu (emit (Lock cpu) s))))
      | evl_tp_get \<Rightarrow> tp_get env cpu pt infp s
      | evl_tp_other \<Rightarrow> Some (Inl EINVAL, infp, s))"

subsection \<open>Tables, window lists, runs\<close>

text \<open>What the code guarantees of a table it has built: at least one window, as many as
  \<^verbatim>\<open>pwin_nr\<close> says, the first at offset 0, every partition number in range or \<open>-1\<close> (the idle
  window).\<close>

definition tp_schedule_ok :: "'ts tp_env \<Rightarrow> evl_tp_schedule \<Rightarrow> bool" where
  "tp_schedule_ok env g \<longleftrightarrow>
     pwin_nr g = int (length (pwins g)) \<and> pwins g \<noteq> [] \<and>
     w_offset (hd (pwins g)) = 0 \<and>
     list_all (\<lambda>w. - 1 \<le> w_part w \<and> w_part w < CONFIG_EVL_SCHED_TP_NR_PART env) (pwins g)"

text \<open>A table is installed on a CPU: the pointer \<^verbatim>\<open>tp->gps\<close> designates such a table of the
  store, and \<^verbatim>\<open>tp->wnext\<close> is the index of one of its windows.\<close>

definition tp_installed :: "'ts tp_env \<Rightarrow> sys \<Rightarrow> int \<Rightarrow> addr \<Rightarrow> evl_tp_schedule \<Rightarrow> bool" where
  "tp_installed env s cpu a g \<longleftrightarrow>
     gps (tp (rqs s cpu)) = Some a \<and> heap s a = Some g \<and> tp_schedule_ok env g \<and>
     0 \<le> wnext (tp (rqs s cpu)) \<and> wnext (tp (rqs s cpu)) < pwin_nr g"

text \<open>The conditions that the loop of \<^verbatim>\<open>install_schedule\<close> tests on a window list: each offset
  is the sum of the durations of the windows before it, the sum being the 64-bit one of
  \<^verbatim>\<open>ktime_add\<close>; each duration is positive; each partition is in range or \<open>-1\<close>.\<close>

definition tp_windows_valid :: "'ts tp_env \<Rightarrow> 'ts evl_u_tp_window list \<Rightarrow> bool" where
  "tp_windows_valid env ws \<longleftrightarrow>
     (\<forall>i \<in> {0..<length ws}.
        u_timespec_to_ktime env (offset (ws ! i)) =
          sum_list (map (\<lambda>p. u_timespec_to_ktime env (duration p)) (take i ws)) \<and>
        0 < sint (u_timespec_to_ktime env (duration (ws ! i))) \<and>
        (ptid (ws ! i) = - 1 \<or>
         0 \<le> ptid (ws ! i) \<and> ptid (ws ! i) < CONFIG_EVL_SCHED_TP_NR_PART env))"

text \<open>The conditions on the window list of an install request in the words of the
  specification, about the numbers of nanoseconds that offsets and durations denote: each
  offset is the sum of the durations of the windows before it (so the first offset is 0 and
  the offsets increase), each duration is positive, each partition is in range or \<open>-1\<close>.
  \<open>tp_frame_sum\<close> is the sum of all durations.\<close>

definition tp_windows_contiguous :: "'ts tp_env \<Rightarrow> 'ts evl_u_tp_window list \<Rightarrow> bool" where
  "tp_windows_contiguous env ws \<longleftrightarrow>
     (\<forall>i \<in> {0..<length ws}.
        sint (u_timespec_to_ktime env (offset (ws ! i))) =
          sum_list (map (\<lambda>p. sint (u_timespec_to_ktime env (duration p))) (take i ws)) \<and>
        0 < sint (u_timespec_to_ktime env (duration (ws ! i))) \<and>
        (ptid (ws ! i) = - 1 \<or>
         0 \<le> ptid (ws ! i) \<and> ptid (ws ! i) < CONFIG_EVL_SCHED_TP_NR_PART env))"

definition tp_frame_sum :: "'ts tp_env \<Rightarrow> 'ts evl_u_tp_window list \<Rightarrow> int" where
  "tp_frame_sum env ws = sum_list (map (\<lambda>p. sint (u_timespec_to_ktime env (duration p))) ws)"

text \<open>The table that the loop builds from a window list that it accepts: window \<open>i\<close> starts at
  the 64-bit sum of the durations before it.\<close>

definition tp_table_of :: "'ts tp_env \<Rightarrow> 'ts evl_u_tp_window list \<Rightarrow> evl_tp_schedule" where
  "tp_table_of env ws =
     \<lparr>pwin_nr = int (length ws),
      tf_duration = sum_list (map (\<lambda>p. u_timespec_to_ktime env (duration p)) ws),
      refcount = 1,
      pwins = map (\<lambda>i. \<lparr>w_offset = sum_list (map (\<lambda>p. u_timespec_to_ktime env (duration p)) (take i ws)),
                        w_part = ptid (ws ! i)\<rparr>) [0..<length ws]\<rparr>"

text \<open>The run queue that a window activates, and the state in which \<^verbatim>\<open>tp_schedule_next\<close> leaves
  a CPU: run queue \<open>r\<close> active, next window \<open>wn\<close>, frame start \<open>tfs\<close>, the timer programmed for
  \<open>t\<close>, a rescheduling requested.\<close>

definition tp_window_rq :: "evl_tp_window \<Rightarrow> tp_rq_ref" where
  "tp_window_rq w = (if w_part w = - 1 then IdleRq else PartRq (w_part w))"

definition tp_programmed :: "int \<Rightarrow> tp_rq_ref \<Rightarrow> int \<Rightarrow> ktime \<Rightarrow> ktime \<Rightarrow> sys \<Rightarrow> sys" where
  "tp_programmed cpu r wn tfs t s =
     s\<lparr>rqs := (rqs s)(cpu := (rqs s cpu)\<lparr>
          tp := (tp (rqs s cpu))\<lparr>tps := Some r, tf_start := tfs, wnext := wn,
                  tf_timer := \<lparr>running = True, date = t\<rparr>\<rparr>,
          resched := True\<rparr>),
       trace := trace s @ [TimerStart cpu t]\<rparr>"

text \<open>The date that pass \<open>j\<close> of the catch-up loop compares with its clock reading, for a loop
  entered with the date \<open>t\<close>, the frame start \<open>tfs\<close> and the frame duration \<open>dur\<close>: \<open>t\<close> at the
  first pass, then the frame start moved \<open>j\<close> frames forward. The loop is left at pass \<open>k\<close>
  when \<open>k\<close> is the first pass whose reading is not later than its date.\<close>

definition tp_pass_date :: "ktime \<Rightarrow> ktime \<Rightarrow> ktime \<Rightarrow> nat \<Rightarrow> ktime" where
  "tp_pass_date t tfs dur j = (if j = 0 then t else tfs + of_nat j * dur)"

definition tp_left_at :: "(nat \<Rightarrow> ktime) \<Rightarrow> ktime \<Rightarrow> ktime \<Rightarrow> ktime \<Rightarrow> nat \<Rightarrow> bool" where
  "tp_left_at clk t tfs dur k \<longleftrightarrow>
     (\<forall>j \<in> {0..<k}. sint (tp_pass_date t tfs dur j) < sint (clk j)) \<and>
     sint (clk k) \<le> sint (tp_pass_date t tfs dur k)"

text \<open>A clock that reads \<open>t\<close> at every reading of a call.\<close>

definition clock_at :: "ktime \<Rightarrow> nat \<Rightarrow> ktime" where
  "clock_at t n = t"



subsection \<open>A concrete configuration\<close>

text \<open>An instance of the parameters for the scenarios: four partitions, a timespec as the
  pair of its seconds and nanoseconds, the overrun flag and the blocking bits as two
  disjoint masks. The conversion of a timespec is that of \<^verbatim>\<open>ktime_set\<close>: \<^verbatim>\<open>KTIME_MAX\<close> from
  \<^verbatim>\<open>KTIME_SEC_MAX\<close> seconds on, else the 64-bit value of \<^verbatim>\<open>secs * NSEC_PER_SEC + nsecs\<close>; the
  conversion back rounds the seconds down.\<close>

definition example_env :: "(int \<times> int) tp_env" where
  "example_env =
     \<lparr>CONFIG_EVL_SCHED_TP_NR_PART = 4,
      EVL_TP_MIN_PRIO = 1,
      EVL_TP_MAX_PRIO = 50,
      EVL_T_WOSO = 0x400000,
      EVL_T_WEAK = 0x2000,
      EVL_THREAD_BLOCK_BITS = 0x5AF,
      EVL_DEBUG_CORE = True,
      u_timespec_to_ktime =
        (\<lambda>ts. if 9223372036 \<le> fst ts then 9223372036854775807
              else word_of_int (fst ts * 1000000000 + snd ts)),
      ktime_to_u_timespec = (\<lambda>t. (sint t div 1000000000, sint t mod 1000000000)),
      evl_tp_infolen = (\<lambda>n. 4 + n * 36),
      cpu_present = (\<lambda>cpu. cpu < 4),
      is_threading_cpu = (\<lambda>cpu. True)\<rparr>"

definition boot_rq :: evl_rq where
  "boot_rq =
     \<lparr>tp = \<lparr>partitions = [[], [], [], []], idle = [], tps = None,
            tf_timer = \<lparr>running = False, date = 0\<rparr>, gps = None, wnext = 0, tf_start = 0,
            threads = []\<rparr>,
      curr = 0, resched = False\<rparr>"

definition boot_thread :: evl_thread where
  "boot_thread =
     \<lparr>state = 0, bprio = 0, cprio = 0, th_tps = None, base_class = Class_other, th_rq = 0\<rparr>"

definition boot_sys :: sys where
  "boot_sys = \<lparr>rqs = (\<lambda>cpu. boot_rq), thr = (\<lambda>t. boot_thread), heap = Map.empty, trace = []\<rparr>"

text \<open>A window of the user interface with times in milliseconds.\<close>

definition win_ms :: "int \<Rightarrow> int \<Rightarrow> int \<Rightarrow> (int \<times> int) evl_u_tp_window" where
  "win_ms off dur part =
     \<lparr>offset = (0, off * 1000000), duration = (0, dur * 1000000), ptid = part\<rparr>"

text \<open>The schedule \<^verbatim>\<open>[(0,10ms,P0), (10ms,5ms,Idle), (15ms,10ms,P1)]\<close> and the request that
  installs it.\<close>

definition three_windows :: "(int \<times> int) evl_u_tp_window list" where
  "three_windows = [win_ms 0 10 0, win_ms 10 5 (- 1), win_ms 15 10 1]"

definition install_three :: "(int \<times> int) evl_tp_ctlparam" where
  "install_three = \<lparr>op = evl_tp_install, nr_windows = 3, windows = three_windows\<rparr>"

text \<open>The state of the booted system once that request has been served on CPU 0, the
  allocator having returned the address 0.\<close>

definition three_installed :: sys where
  "three_installed =
     (case tp_control example_env (clock_at 0) (Some 0) 0 install_three None boot_sys of
        Some (r, i, s) \<Rightarrow> s | None \<Rightarrow> boot_sys)"

definition three_table :: evl_tp_schedule where
  "three_table = tp_table_of example_env three_windows"

text \<open>The date for which the frame timer of a CPU is programmed.\<close>

definition timer_date :: "int \<Rightarrow> sys \<Rightarrow> ktime" where
  "timer_date cpu s = date (tf_timer (tp (rqs s cpu)))"




text \<open>Two requests with a malformed window list: \<^verbatim>\<open>[(0,10ms,P0), (5ms,10ms,P1)]\<close>, whose second
  offset is not the end of the first window, and a single window for a partition number
  equal to the number of partitions.\<close>

definition install_gap :: "(int \<times> int) evl_tp_ctlparam" where
  "install_gap = \<lparr>op = evl_tp_install, nr_windows = 2, windows = [win_ms 0 10 0, win_ms 5 10 1]\<rparr>"

definition install_part4 :: "(int \<times> int) evl_tp_ctlparam" where
  "install_part4 = \<lparr>op = evl_tp_install, nr_windows = 1, windows = [win_ms 0 10 4]\<rparr>"

text \<open>The request reaches the label \<^verbatim>\<open>switch_schedule\<close> with the table pointer \<open>new\<close>: it is an
  uninstall request, an install request for no window, or an install request for a list of
  windows that passes the tests of the validation loop (\<open>tp_windows_valid\<close>) and for which the
  allocator returned the unused address \<open>a\<close>.\<close>

definition tp_switch_request ::
  "'ts tp_env \<Rightarrow> sys \<Rightarrow> addr option \<Rightarrow> 'ts evl_tp_ctlparam \<Rightarrow> addr option \<Rightarrow> bool" where
  "tp_switch_request env s alloc pt new \<longleftrightarrow>
     op pt = evl_tp_uninstall \<and> new = None \<or>
     op pt = evl_tp_install \<and> nr_windows pt \<le> 0 \<and> new = None \<or>
     op pt = evl_tp_install \<and> 0 < nr_windows pt \<and> nr_windows pt = int (length (windows pt)) \<and>
       tp_windows_valid env (windows pt) \<and> alloc \<noteq> None \<and> new = alloc \<and>
       deref (heap s) alloc = None"

text \<open>The CPU number passes the test at the head of \<^verbatim>\<open>tp_control\<close>.\<close>

definition tp_cpu_ok :: "'ts tp_env \<Rightarrow> int \<Rightarrow> bool" where
  "tp_cpu_ok env cpu \<longleftrightarrow> 0 \<le> cpu \<and> cpu_present env cpu \<and> is_threading_cpu env cpu"

text \<open>The table pointer of a CPU, when not \<^verbatim>\<open>NULL\<close>, designates a table of the store.\<close>

definition tp_gps_live :: "sys \<Rightarrow> int \<Rightarrow> bool" where
  "tp_gps_live s cpu \<longleftrightarrow>
     (case gps (tp (rqs s cpu)) of None \<Rightarrow> True | Some b \<Rightarrow> heap s b \<noteq> None)"

text \<open>The store once the table at \<open>a\<close> of such an install request has been written.\<close>

definition tp_built :: "'ts tp_env \<Rightarrow> 'ts evl_tp_ctlparam \<Rightarrow> addr option \<Rightarrow> sys \<Rightarrow> sys" where
  "tp_built env pt new s =
     (case new of None \<Rightarrow> s
      | Some a \<Rightarrow> s\<lparr>heap := (heap s)(a \<mapsto> tp_table_of env (windows pt))\<rparr>)"

text \<open>The return value, the state and the trace of a call of \<open>tp_control\<close>.\<close>

definition ctl_ret :: "((errno + int) \<times> 'i \<times> sys) option \<Rightarrow> (errno + int) option" where
  "ctl_ret r = map_option fst r"

definition ctl_sys :: "((errno + int) \<times> 'i \<times> sys) option \<Rightarrow> sys" where
  "ctl_sys r = (case r of Some (e, i, s) \<Rightarrow> s | None \<Rightarrow> boot_sys)"

definition ctl_info :: "((errno + int) \<times> 'i \<times> sys) option \<Rightarrow> 'i option" where
  "ctl_info r = map_option (\<lambda>x. fst (snd x)) r"

text \<open>Thread 5 declared under the TP class on CPU 0 of the system with the three-window
  table, and the uninstall request.\<close>

definition attached_sys :: sys where
  "attached_sys = snd (tp_declare 5 \<lparr>tp_prio = 10, tp_ptid = 0\<rparr> three_installed)"

definition uninstall_req :: "(int \<times> int) evl_tp_ctlparam" where
  "uninstall_req = \<lparr>op = evl_tp_uninstall, nr_windows = 0, windows = []\<rparr>"

text \<open>An install request for no window.\<close>

definition install_none :: "(int \<times> int) evl_tp_ctlparam" where
  "install_none = \<lparr>op = evl_tp_install, nr_windows = 0, windows = []\<rparr>"



text \<open>The caller's window array once the first \<open>n\<close> windows of a table have been copied out:
  entry \<open>i < n\<close> holds the offset and the partition of window \<open>i\<close>, and as duration the
  distance to the next offset, or to the end of the frame for entry \<open>n - 1\<close>; the entries
  from \<open>n\<close> on are those of the array.\<close>

definition tp_copied ::
  "'ts tp_env \<Rightarrow> evl_tp_schedule \<Rightarrow> nat \<Rightarrow> 'ts evl_u_tp_window list \<Rightarrow> 'ts evl_u_tp_window list" where
  "tp_copied env g n out =
     map (\<lambda>i. if i < n
              then \<lparr>offset = ktime_to_u_timespec env (w_offset (pwins g ! i)),
                    duration = ktime_to_u_timespec env
                      ((if i + 1 < n then w_offset (pwins g ! (i + 1)) else tf_duration g)
                         - w_offset (pwins g ! i)),
                    ptid = w_part (pwins g ! i)\<rparr>
              else out ! i) [0..<length out]"

text \<open>A request for the schedule with room for \<open>n\<close> windows, and a caller's block of five
  windows.\<close>

definition get_req :: "int \<Rightarrow> (int \<times> int) evl_tp_ctlparam" where
  "get_req n = \<lparr>op = evl_tp_get, nr_windows = n, windows = []\<rparr>"

definition five_slots :: "(int \<times> int) evl_tp_ctlinfo" where
  "five_slots = \<lparr>it_nr_windows = 0, it_windows = replicate 5 (win_ms 7 7 7)\<rparr>"

text \<open>The clocks of the scenario of the three-window schedule. \<^verbatim>\<open>start_tp_schedule\<close> reads 0, and
  \<^verbatim>\<open>tp_schedule_next\<close> in it reads one microsecond later. The handler of the \<open>j\<close>-th expiry runs two
  microseconds after the date of that expiry, 10, 15, 25, 35, \<open>\<dots>\<close> ms, and a reading takes a
  microsecond. \<open>three_started\<close> is the system once the schedule has been started.\<close>

definition scenario_start :: "nat \<Rightarrow> ktime" where
  "scenario_start n = word_of_int (int n * 1000)"


definition three_started :: sys where
  "three_started =
     (case start_tp_schedule scenario_start 0 three_installed of Some s \<Rightarrow> s | None \<Rightarrow> boot_sys)"

text \<open>A clock that reads 60 ms at the first reading of a call and advances by a microsecond at
  every reading.\<close>

definition late_clock :: "nat \<Rightarrow> ktime" where
  "late_clock n = word_of_int (60000000 + int n * 1000)"

text \<open>A schedule of one window of \<open>2\<^sup>6\<^sup>2\<close> ns for partition 0, the request that installs it, the
  booted system once the request has been served on CPU 0, and the table.\<close>

definition long_windows :: "(int \<times> int) evl_u_tp_window list" where
  "long_windows = [\<lparr>offset = (0, 0), duration = (4611686018, 427387904), ptid = 0\<rparr>]"

definition install_long :: "(int \<times> int) evl_tp_ctlparam" where
  "install_long = \<lparr>op = evl_tp_install, nr_windows = 1, windows = long_windows\<rparr>"

definition long_installed :: sys where
  "long_installed =
     (case tp_control example_env (clock_at 0) (Some 0) 0 install_long None boot_sys of
        Some (r, i, s) \<Rightarrow> s | None \<Rightarrow> boot_sys)"

definition long_table :: evl_tp_schedule where
  "long_table = tp_table_of example_env long_windows"

text \<open>Two install requests whose durations add up to \<open>2\<^sup>6\<^sup>3\<close> ns or more. The first has two
  windows of \<open>2\<^sup>6\<^sup>2\<close> ns, the second at the offset \<open>2\<^sup>6\<^sup>2\<close> ns: each offset is the sum of the
  durations before it. The second request has a third window in addition, of 1 ms, at the
  offset \<open>-2\<^sup>6\<^sup>3\<close> ns, which is the 64-bit sum of the two durations before it and not their
  sum.\<close>

definition half_frame :: "int \<times> int" where
  "half_frame = (4611686018, 427387904)"

definition install_big :: "(int \<times> int) evl_tp_ctlparam" where
  "install_big =
     \<lparr>op = evl_tp_install, nr_windows = 2,
      windows = [\<lparr>offset = (0, 0), duration = half_frame, ptid = 0\<rparr>,
                 \<lparr>offset = half_frame, duration = half_frame, ptid = 1\<rparr>]\<rparr>"

definition install_wrapped :: "(int \<times> int) evl_tp_ctlparam" where
  "install_wrapped =
     \<lparr>op = evl_tp_install, nr_windows = 3,
      windows = [\<lparr>offset = (0, 0), duration = half_frame, ptid = 0\<rparr>,
                 \<lparr>offset = half_frame, duration = half_frame, ptid = 1\<rparr>,
                 \<lparr>offset = (- 9223372037, 145224192), duration = (0, 1000000), ptid = 2\<rparr>]\<rparr>"

section \<open>Properties\<close>

subsection \<open>Arrays, remainders, time\<close>

lemma elem_Some [simp]: "0 \<le> i \<Longrightarrow> nat i < length xs \<Longrightarrow> elem xs i = Some (xs ! nat i)"
  by (simp add: elem_def)

lemma c_mod_nonneg: "0 \<le> a \<Longrightarrow> 0 < b \<Longrightarrow> c_mod a b = Some (a mod b)"
  by (simp add: c_mod_def smod_int_alt_def sgn_if abs_if)

lemma ktime_compare_le [simp]: "(ktime_compare a b \<le> 0) = (sint a \<le> sint b)"
  by (simp add: ktime_compare_def)

lemma ktime_ops [simp]: "ktime_add a b = a + b" "ktime_sub a b = a - b"
  by (simp_all add: ktime_add_def ktime_sub_def)

lemma sint_add_64:
  fixes a b :: ktime
  shows "- (2 ^ 63) \<le> sint a + sint b \<Longrightarrow> sint a + sint b < 2 ^ 63 \<Longrightarrow> sint (a + b) = sint a + sint b"
  by (simp add: sint_word_add signed_take_bit_int_eq_self)

lemma sint_frames:
  fixes a d :: ktime
  assumes "- (2 ^ 63) \<le> sint a + int m * sint d" "sint a + int m * sint d < 2 ^ 63"
  shows "sint (a + of_nat m * d) = sint a + int m * sint d"
proof -
  have "a + of_nat m * d = word_of_int (sint a + int m * sint d)"
    by simp
  then have "sint (a + of_nat m * d) = signed_take_bit 63 (sint a + int m * sint d)"
    by (simp only: sint_sbintrunc') simp
  with assms show ?thesis by (simp add: signed_take_bit_int_eq_self)
qed

lemma tp_programmed_simps [simp]:
  "heap (tp_programmed cpu r wn tfs t s) = heap s"
  "thr (tp_programmed cpu r wn tfs t s) = thr s"
  "trace (tp_programmed cpu r wn tfs t s) = trace s @ [TimerStart cpu t]"
  "tp (rqs (tp_programmed cpu r wn tfs t s) cpu) =
     (tp (rqs s cpu))\<lparr>tps := Some r, tf_start := tfs, wnext := wn,
        tf_timer := \<lparr>running = True, date = t\<rparr>\<rparr>"
  "curr (rqs (tp_programmed cpu r wn tfs t s) c) = curr (rqs s c)"
  "c \<noteq> cpu \<Longrightarrow> rqs (tp_programmed cpu r wn tfs t s) c = rqs s c"
  by (simp_all add: tp_programmed_def)

lemma emit_simps [simp]:
  "heap (emit e s) = heap s" "thr (emit e s) = thr s" "rqs (emit e s) = rqs s"
  "trace (emit e s) = trace s @ [e]"
  by (simp_all add: emit_def)

lemma set_tp_simps [simp]:
  "heap (set_tp cpu t s) = heap s" "thr (set_tp cpu t s) = thr s"
  "trace (set_tp cpu t s) = trace s"
  "tp (rqs (set_tp cpu t s) cpu) = t"
  "curr (rqs (set_tp cpu t s) c) = curr (rqs s c)"
  "resched (rqs (set_tp cpu t s) c) = resched (rqs s c)"
  "c \<noteq> cpu \<Longrightarrow> rqs (set_tp cpu t s) c = rqs s c"
  by (simp_all add: set_tp_def)

lemma tp_installed_bounds:
  assumes "tp_installed env s cpu a g"
  shows "0 < pwin_nr g" "pwin_nr g = int (length (pwins g))"
    "0 \<le> wnext (tp (rqs s cpu))" "nat (wnext (tp (rqs s cpu))) < length (pwins g)"
    "0 \<le> (wnext (tp (rqs s cpu)) + 1) mod pwin_nr g"
    "nat ((wnext (tp (rqs s cpu)) + 1) mod pwin_nr g) < length (pwins g)"
    "deref (heap s) (gps (tp (rqs s cpu))) = Some g"
proof -
  from assms have ok: "tp_schedule_ok env g" and w: "0 \<le> wnext (tp (rqs s cpu))" "wnext (tp (rqs s cpu)) < pwin_nr g"
    and h: "gps (tp (rqs s cpu)) = Some a" "heap s a = Some g"
    by (simp_all add: tp_installed_def)
  from ok show n: "pwin_nr g = int (length (pwins g))" by (simp add: tp_schedule_ok_def)
  from ok n show p: "0 < pwin_nr g" by (simp add: tp_schedule_ok_def)
  from w show "0 \<le> wnext (tp (rqs s cpu))" by simp
  from w n show "nat (wnext (tp (rqs s cpu))) < length (pwins g)" by linarith
  from p show m: "0 \<le> (wnext (tp (rqs s cpu)) + 1) mod pwin_nr g" by simp
  from p have "(wnext (tp (rqs s cpu)) + 1) mod pwin_nr g < pwin_nr g" by simp
  with m n show "nat ((wnext (tp (rqs s cpu)) + 1) mod pwin_nr g) < length (pwins g)" by linarith
  from h show "deref (heap s) (gps (tp (rqs s cpu))) = Some g" by (simp add: deref_def)
qed

lemma tp_window_rq_eq:
  assumes "tp_schedule_ok env g" "i < length (pwins g)"
  shows "(if w_part (pwins g ! i) < 0 then IdleRq else PartRq (w_part (pwins g ! i))) =
           tp_window_rq (pwins g ! i)"
proof -
  from assms have "- 1 \<le> w_part (pwins g ! i)"
    by (simp add: tp_schedule_ok_def list_all_length)
  then show ?thesis by (auto simp: tp_window_rq_def)
qed

lemma tp_installedI:
  "gps (tp (rqs s cpu)) = Some a \<Longrightarrow> heap s a = Some g \<Longrightarrow> tp_schedule_ok env g \<Longrightarrow>
   0 \<le> wnext (tp (rqs s cpu)) \<Longrightarrow> wnext (tp (rqs s cpu)) < pwin_nr g \<Longrightarrow>
   tp_installed env s cpu a g"
  by (simp add: tp_installed_def)

subsection \<open>The catch-up loop\<close>

text \<open>The loop returns exactly when some pass finds its reading not later than its date, and
  it is left at the first such pass.\<close>

lemma tp_pass_date_shift:
  "tp_pass_date (tfs + dur) (tfs + dur) dur j = tp_pass_date t tfs dur (Suc j)"
  by (simp add: tp_pass_date_def algebra_simps)

lemma tp_left_at_0: "tp_left_at clk t tfs dur 0 \<longleftrightarrow> sint (clk 0) \<le> sint t"
  by (simp add: tp_left_at_def tp_pass_date_def)

lemma tp_left_at_Suc:
  "tp_left_at clk t tfs dur (Suc k) \<longleftrightarrow>
     sint t < sint (clk 0) \<and> tp_left_at (\<lambda>j. clk (Suc j)) (tfs + dur) (tfs + dur) dur k"
proof -
  have a: "(\<forall>j\<in>{0..<Suc k}. P j) \<longleftrightarrow> P 0 \<and> (\<forall>j\<in>{0..<k}. P (Suc j))" for P
    by (auto simp: less_Suc_eq_0_disj)
  show ?thesis
    unfolding tp_left_at_def a tp_pass_date_shift[of tfs dur _ t]
    by (auto simp: tp_pass_date_def)
qed

lemma tp_left_at_unique:
  "tp_left_at clk t tfs dur k \<Longrightarrow> tp_left_at clk t tfs dur k' \<Longrightarrow> k = k'"
proof (rule ccontr)
  assume a: "tp_left_at clk t tfs dur k" "tp_left_at clk t tfs dur k'" and ne: "k \<noteq> k'"
  have *: "False" if "tp_left_at clk t tfs dur i" "tp_left_at clk t tfs dur j" "i < j" for i j
  proof -
    from that(2,3) have "sint (tp_pass_date t tfs dur i) < sint (clk i)"
      by (simp add: tp_left_at_def)
    moreover from that(1) have "sint (clk i) \<le> sint (tp_pass_date t tfs dur i)"
      by (simp add: tp_left_at_def)
    ultimately show False by simp
  qed
  from ne have "k < k' \<or> k' < k" by auto
  with a * show False by blast
qed

lemma tp_left_at_least:
  assumes "sint (clk m) \<le> sint (tp_pass_date t tfs dur m)"
  shows "\<exists>k\<le>m. tp_left_at clk t tfs dur k"
proof -
  define P where "P k \<longleftrightarrow> sint (clk k) \<le> sint (tp_pass_date t tfs dur k)" for k
  from assms have "P m" by (simp add: P_def)
  then have "\<exists>k. P k \<and> (\<forall>j<k. \<not> P j)" using exists_least_iff[of P] by blast
  then obtain k where k: "P k" "\<forall>j<k. \<not> P j" by blast
  from k(2) \<open>P m\<close> have "k \<le> m" by (meson not_le)
  moreover from k have "tp_left_at clk t tfs dur k"
    by (simp add: tp_left_at_def P_def not_le)
  ultimately show ?thesis by blast
qed

lemma tp_catch_up_left:
  assumes "tp_left_at (\<lambda>j. clk (n + j)) t tfs dur k"
  shows "tp_catch_up clk dur n t tfs wn =
           Some (n + k, tp_pass_date t tfs dur k,
                 (if k = 0 then tfs else tfs + of_nat k * dur), (if k = 0 then wn else 0))"
  using assms
proof (induction k arbitrary: n t tfs wn)
  case 0
  then show ?case
    by (subst tp_catch_up.simps) (simp add: tp_left_at_0 tp_pass_date_def)
next
  case (Suc k)
  from Suc.prems have late: "sint t < sint (clk n)"
    and rest: "tp_left_at (\<lambda>j. clk (n + 1 + j)) (tfs + dur) (tfs + dur) dur k"
    by (simp_all add: tp_left_at_Suc)
  from Suc.IH[OF rest, of 0]
  have r: "tp_catch_up clk dur (n + 1) (tfs + dur) (tfs + dur) 0 =
     Some (n + 1 + k, tp_pass_date (tfs + dur) (tfs + dur) dur k,
           (if k = 0 then tfs + dur else tfs + dur + of_nat k * dur), 0)"
    by simp
  show ?case
    using late r
    by (subst tp_catch_up.simps) (simp add: tp_pass_date_def algebra_simps)
qed

lemma tp_catch_up_returns:
  assumes "tp_catch_up clk dur n t tfs wn = Some y"
  shows "\<exists>k. tp_left_at (\<lambda>j. clk (n + j)) t tfs dur k"
  using assms
proof (induction rule: tp_catch_up.raw_induct[rotated 1, consumes 1])
  case (1 tp_catch_up clk dur n t tfs wn y)
  show ?case
  proof (cases "sint (clk n) \<le> sint t")
    case True
    then have "tp_left_at (\<lambda>j. clk (n + j)) t tfs dur 0" by (simp add: tp_left_at_0)
    then show ?thesis ..
  next
    case False
    with 1(2) have "tp_catch_up clk dur (n + 1) (tfs + dur) (tfs + dur) 0 = Some y"
      by (simp add: Let_def)
    from 1(1)[OF this] obtain k where
      "tp_left_at (\<lambda>j. clk (n + 1 + j)) (tfs + dur) (tfs + dur) dur k" ..
    with False have "tp_left_at (\<lambda>j. clk (n + j)) t tfs dur (Suc k)"
      by (simp add: tp_left_at_Suc)
    then show ?thesis ..
  qed
qed

lemma tp_catch_up_never:
  "(\<forall>k. \<not> tp_left_at (\<lambda>j. clk (n + j)) t tfs dur k) \<Longrightarrow> tp_catch_up clk dur n t tfs wn = None"
  using tp_catch_up_returns[of clk dur n t tfs wn] by (cases "tp_catch_up clk dur n t tfs wn") auto

subsection \<open>The window advance and the timer handler\<close>

lemma tp_schedule_next_eq:
  assumes inst: "tp_installed env s cpu a g"
  shows "tp_schedule_next clk cpu s =
    (case tp_catch_up clk (tf_duration g) 0
            (tf_start (tp (rqs s cpu)) +
               w_offset (pwins g ! nat ((wnext (tp (rqs s cpu)) + 1) mod pwin_nr g)))
            (tf_start (tp (rqs s cpu))) ((wnext (tp (rqs s cpu)) + 1) mod pwin_nr g) of
       None \<Rightarrow> None
     | Some (n, t, tfs, wn) \<Rightarrow>
         Some (tp_programmed cpu (tp_window_rq (pwins g ! nat (wnext (tp (rqs s cpu))))) wn tfs t s))"
proof -
  from inst have ok: "tp_schedule_ok env g" by (simp add: tp_installed_def)
  note b = tp_installed_bounds[OF inst]
  show ?thesis
    using b tp_window_rq_eq[OF ok b(4)]
    by (simp add: tp_schedule_next_def c_mod_nonneg emit_def set_tp_def
        Let_def tp_programmed_def split: option.splits)
qed

lemma tp_schedule_next_left:
  assumes inst: "tp_installed env s cpu a g"
    and left: "tp_left_at clk
        (tf_start (tp (rqs s cpu)) +
           w_offset (pwins g ! nat ((wnext (tp (rqs s cpu)) + 1) mod pwin_nr g)))
        (tf_start (tp (rqs s cpu))) (tf_duration g) k"
  shows "tp_schedule_next clk cpu s =
    Some (tp_programmed cpu (tp_window_rq (pwins g ! nat (wnext (tp (rqs s cpu)))))
            (if k = 0 then (wnext (tp (rqs s cpu)) + 1) mod pwin_nr g else 0)
            (if k = 0 then tf_start (tp (rqs s cpu))
             else tf_start (tp (rqs s cpu)) + of_nat k * tf_duration g)
            (tp_pass_date
               (tf_start (tp (rqs s cpu)) +
                  w_offset (pwins g ! nat ((wnext (tp (rqs s cpu)) + 1) mod pwin_nr g)))
               (tf_start (tp (rqs s cpu))) (tf_duration g) k) s)"
proof -
  from left have "tp_left_at (\<lambda>j. clk (0 + j))
        (tf_start (tp (rqs s cpu)) +
           w_offset (pwins g ! nat ((wnext (tp (rqs s cpu)) + 1) mod pwin_nr g)))
        (tf_start (tp (rqs s cpu))) (tf_duration g) k" by simp
  from tp_catch_up_left[OF this] show ?thesis
    unfolding tp_schedule_next_eq[OF inst] by simp
qed

lemma tp_schedule_next_returns:
  assumes inst: "tp_installed env s cpu a g"
    and r: "tp_schedule_next clk cpu s = Some s'"
  shows "\<exists>k. tp_left_at clk
        (tf_start (tp (rqs s cpu)) +
           w_offset (pwins g ! nat ((wnext (tp (rqs s cpu)) + 1) mod pwin_nr g)))
        (tf_start (tp (rqs s cpu))) (tf_duration g) k"
proof -
  from r obtain y where "tp_catch_up clk (tf_duration g) 0
            (tf_start (tp (rqs s cpu)) +
               w_offset (pwins g ! nat ((wnext (tp (rqs s cpu)) + 1) mod pwin_nr g)))
            (tf_start (tp (rqs s cpu))) ((wnext (tp (rqs s cpu)) + 1) mod pwin_nr g) = Some y"
    unfolding tp_schedule_next_eq[OF inst] by (auto split: option.splits)
  from tp_catch_up_returns[OF this] show ?thesis by simp
qed

text \<open>The frame start and the date that \<^verbatim>\<open>tp_tick_handler\<close> hands to the catch-up loop.\<close>

lemma tp_tick_handler_eq:
  assumes inst: "tp_installed env s cpu a g"
  shows "tp_tick_handler env clk cpu s =
    (case tp_schedule_next clk cpu
            (set_tp cpu
               (if wnext (tp (rqs s cpu)) + 1 = pwin_nr g
                then (tp (rqs s cpu))\<lparr>tf_start := tf_start (tp (rqs s cpu)) + tf_duration g\<rparr>
                else tp (rqs s cpu)) (emit (Lock cpu) s)) of
       None \<Rightarrow> None
     | Some s2 \<Rightarrow>
         Some (if state (thr s (curr (rqs s cpu))) AND
                    (EVL_T_WOSO env OR EVL_THREAD_BLOCK_BITS env) = EVL_T_WOSO env
               then emit (NotifyOverrun (curr (rqs s cpu))
                            (if wnext (tp (rqs s cpu)) - 1 < 0 then pwin_nr g - 1
                             else wnext (tp (rqs s cpu)) - 1)) (emit (Unlock cpu) s2)
               else emit (Unlock cpu) s2))"
proof -
  note b = tp_installed_bounds[OF inst]
  have i: "0 \<le> (if wnext (tp (rqs s cpu)) - 1 < 0 then pwin_nr g - 1
                             else wnext (tp (rqs s cpu)) - 1)"
    using b by auto
  show ?thesis
    using b(7) i
    by (auto simp: tp_tick_handler_def Let_def split: option.splits)
qed

lemma tp_tick_handler_left:
  assumes inst: "tp_installed env s cpu a g"
    and left: "tp_left_at clk
        ((if wnext (tp (rqs s cpu)) + 1 = pwin_nr g
          then tf_start (tp (rqs s cpu)) + tf_duration g else tf_start (tp (rqs s cpu))) +
           w_offset (pwins g ! nat ((wnext (tp (rqs s cpu)) + 1) mod pwin_nr g)))
        (if wnext (tp (rqs s cpu)) + 1 = pwin_nr g
          then tf_start (tp (rqs s cpu)) + tf_duration g else tf_start (tp (rqs s cpu)))
        (tf_duration g) k"
  shows "\<exists>s'. tp_tick_handler env clk cpu s = Some s' \<and> heap s' = heap s \<and> thr s' = thr s \<and>
    curr (rqs s' cpu) = curr (rqs s cpu) \<and> (\<forall>c. c \<noteq> cpu \<longrightarrow> rqs s' c = rqs s c) \<and>
    tp (rqs s' cpu) = (tp (rqs s cpu))\<lparr>
       tps := Some (tp_window_rq (pwins g ! nat (wnext (tp (rqs s cpu))))),
       tf_start :=
         (if wnext (tp (rqs s cpu)) + 1 = pwin_nr g
          then tf_start (tp (rqs s cpu)) + tf_duration g else tf_start (tp (rqs s cpu))) +
         of_nat k * tf_duration g,
       wnext := (if k = 0 then (wnext (tp (rqs s cpu)) + 1) mod pwin_nr g else 0),
       tf_timer := \<lparr>running = True,
          date = tp_pass_date
            ((if wnext (tp (rqs s cpu)) + 1 = pwin_nr g
              then tf_start (tp (rqs s cpu)) + tf_duration g else tf_start (tp (rqs s cpu))) +
               w_offset (pwins g ! nat ((wnext (tp (rqs s cpu)) + 1) mod pwin_nr g)))
            (if wnext (tp (rqs s cpu)) + 1 = pwin_nr g
              then tf_start (tp (rqs s cpu)) + tf_duration g else tf_start (tp (rqs s cpu)))
            (tf_duration g) k\<rparr>\<rparr> \<and>
    trace s' = trace s @
      [Lock cpu,
       TimerStart cpu (tp_pass_date
            ((if wnext (tp (rqs s cpu)) + 1 = pwin_nr g
              then tf_start (tp (rqs s cpu)) + tf_duration g else tf_start (tp (rqs s cpu))) +
               w_offset (pwins g ! nat ((wnext (tp (rqs s cpu)) + 1) mod pwin_nr g)))
            (if wnext (tp (rqs s cpu)) + 1 = pwin_nr g
              then tf_start (tp (rqs s cpu)) + tf_duration g else tf_start (tp (rqs s cpu)))
            (tf_duration g) k),
       Unlock cpu] @
      (if state (thr s (curr (rqs s cpu))) AND (EVL_T_WOSO env OR EVL_THREAD_BLOCK_BITS env) =
            EVL_T_WOSO env
       then [NotifyOverrun (curr (rqs s cpu))
               (if wnext (tp (rqs s cpu)) - 1 < 0 then pwin_nr g - 1
                else wnext (tp (rqs s cpu)) - 1)]
       else [])"
proof -
  let ?T = "tp (rqs s cpu)"
  let ?tfs = "if wnext ?T + 1 = pwin_nr g then tf_start ?T + tf_duration g else tf_start ?T"
  let ?tp1 = "if wnext ?T + 1 = pwin_nr g then ?T\<lparr>tf_start := tf_start ?T + tf_duration g\<rparr> else ?T"
  let ?s1 = "set_tp cpu ?tp1 (emit (Lock cpu) s)"
  let ?wn = "(wnext ?T + 1) mod pwin_nr g"
  from inst have inst1: "tp_installed env ?s1 cpu a g"
    by (auto simp: tp_installed_def)
  have w1: "wnext (tp (rqs ?s1 cpu)) = wnext ?T" by simp
  have t1: "tf_start (tp (rqs ?s1 cpu)) = ?tfs" by simp
  from left have left1: "tp_left_at clk
        (tf_start (tp (rqs ?s1 cpu)) +
           w_offset (pwins g ! nat ((wnext (tp (rqs ?s1 cpu)) + 1) mod pwin_nr g)))
        (tf_start (tp (rqs ?s1 cpu))) (tf_duration g) k"
    by (simp only: w1 t1)
  have nx: "tp_schedule_next clk cpu ?s1 =
     Some (tp_programmed cpu (tp_window_rq (pwins g ! nat (wnext ?T)))
             (if k = 0 then ?wn else 0) (if k = 0 then ?tfs else ?tfs + of_nat k * tf_duration g)
             (tp_pass_date (?tfs + w_offset (pwins g ! nat ?wn)) ?tfs (tf_duration g) k) ?s1)"
    using tp_schedule_next_left[OF inst1 left1] by (simp only: w1 t1)
  show ?thesis
    unfolding tp_tick_handler_eq[OF inst] nx
    by (cases "k = 0") (auto)
qed

lemma tp_tick_handler_returns:
  assumes inst: "tp_installed env s cpu a g"
    and r: "tp_tick_handler env clk cpu s = Some s'"
  shows "\<exists>k. tp_left_at clk
        ((if wnext (tp (rqs s cpu)) + 1 = pwin_nr g
          then tf_start (tp (rqs s cpu)) + tf_duration g else tf_start (tp (rqs s cpu))) +
           w_offset (pwins g ! nat ((wnext (tp (rqs s cpu)) + 1) mod pwin_nr g)))
        (if wnext (tp (rqs s cpu)) + 1 = pwin_nr g
          then tf_start (tp (rqs s cpu)) + tf_duration g else tf_start (tp (rqs s cpu)))
        (tf_duration g) k"
proof -
  let ?T = "tp (rqs s cpu)"
  let ?tfs = "if wnext ?T + 1 = pwin_nr g then tf_start ?T + tf_duration g else tf_start ?T"
  let ?tp1 = "if wnext ?T + 1 = pwin_nr g then ?T\<lparr>tf_start := tf_start ?T + tf_duration g\<rparr> else ?T"
  let ?s1 = "set_tp cpu ?tp1 (emit (Lock cpu) s)"
  from inst have inst1: "tp_installed env ?s1 cpu a g"
    by (auto simp: tp_installed_def)
  have w1: "wnext (tp (rqs ?s1 cpu)) = wnext ?T" by simp
  have t1: "tf_start (tp (rqs ?s1 cpu)) = ?tfs" by simp
  from r obtain s2 where "tp_schedule_next clk cpu ?s1 = Some s2"
    unfolding tp_tick_handler_eq[OF inst] by (auto split: option.splits)
  from tp_schedule_next_returns[OF inst1 this] show ?thesis
    by (simp only: w1 t1)
qed





text \<open>Starting the schedule and handling an expiry leave the table installed, the index of
  the next window in range and the timer running.\<close>

lemma tp_schedule_next_installed:
  assumes inst: "tp_installed env s cpu a g"
    and r: "tp_schedule_next clk cpu s = Some s'"
  shows "tp_installed env s' cpu a g \<and> running (tf_timer (tp (rqs s' cpu)))"
proof -
  note b = tp_installed_bounds[OF inst]
  from tp_schedule_next_returns[OF inst r] obtain k where
    k: "tp_left_at clk
        (tf_start (tp (rqs s cpu)) +
           w_offset (pwins g ! nat ((wnext (tp (rqs s cpu)) + 1) mod pwin_nr g)))
        (tf_start (tp (rqs s cpu))) (tf_duration g) k" ..
  from tp_schedule_next_left[OF inst k] r
  have s': "s' = tp_programmed cpu (tp_window_rq (pwins g ! nat (wnext (tp (rqs s cpu)))))
            (if k = 0 then (wnext (tp (rqs s cpu)) + 1) mod pwin_nr g else 0)
            (if k = 0 then tf_start (tp (rqs s cpu))
             else tf_start (tp (rqs s cpu)) + of_nat k * tf_duration g)
            (tp_pass_date
               (tf_start (tp (rqs s cpu)) +
                  w_offset (pwins g ! nat ((wnext (tp (rqs s cpu)) + 1) mod pwin_nr g)))
               (tf_start (tp (rqs s cpu))) (tf_duration g) k) s"
    by simp
  from b(1) have "(wnext (tp (rqs s cpu)) + 1) mod pwin_nr g < pwin_nr g" by simp
  with inst b show ?thesis
    unfolding s' by (simp add: tp_installed_def)
qed

lemma start_tp_schedule_installed:
  assumes g: "gps (tp (rqs s cpu)) = Some a" "heap s a = Some g" "tp_schedule_ok env g"
    and r: "start_tp_schedule clk cpu s = Some s'"
  shows "tp_installed env s' cpu a g \<and> running (tf_timer (tp (rqs s' cpu)))"
proof -
  let ?s1 = "set_tp cpu ((tp (rqs s cpu))\<lparr>wnext := 0, tf_start := clk 0\<rparr>) s"
  from g have "pwin_nr g = int (length (pwins g))" "pwins g \<noteq> []"
    by (simp_all add: tp_schedule_ok_def)
  with g have inst1: "tp_installed env ?s1 cpu a g" by (auto simp: tp_installed_def)
  from r g(1) have "tp_schedule_next (\<lambda>n. clk (n + 1)) cpu ?s1 = Some s'"
    by (simp add: start_tp_schedule_def Let_def)
  from tp_schedule_next_installed[OF inst1 this] show ?thesis .
qed

lemma tp_tick_handler_installed:
  assumes inst: "tp_installed env s cpu a g"
    and r: "tp_tick_handler env clk cpu s = Some s'"
  shows "tp_installed env s' cpu a g \<and> running (tf_timer (tp (rqs s' cpu)))"
proof -
  note b = tp_installed_bounds[OF inst]
  from tp_tick_handler_returns[OF inst r] obtain k where "tp_left_at clk
        ((if wnext (tp (rqs s cpu)) + 1 = pwin_nr g
          then tf_start (tp (rqs s cpu)) + tf_duration g else tf_start (tp (rqs s cpu))) +
           w_offset (pwins g ! nat ((wnext (tp (rqs s cpu)) + 1) mod pwin_nr g)))
        (if wnext (tp (rqs s cpu)) + 1 = pwin_nr g
          then tf_start (tp (rqs s cpu)) + tf_duration g else tf_start (tp (rqs s cpu)))
        (tf_duration g) k" ..
  from tp_tick_handler_left[OF inst this] r obtain
    h: "heap s' = heap s" and T: "tp (rqs s' cpu) = (tp (rqs s cpu))\<lparr>
       tps := Some (tp_window_rq (pwins g ! nat (wnext (tp (rqs s cpu))))),
       tf_start :=
         (if wnext (tp (rqs s cpu)) + 1 = pwin_nr g
          then tf_start (tp (rqs s cpu)) + tf_duration g else tf_start (tp (rqs s cpu))) +
         of_nat k * tf_duration g,
       wnext := (if k = 0 then (wnext (tp (rqs s cpu)) + 1) mod pwin_nr g else 0),
       tf_timer := \<lparr>running = True,
          date = tp_pass_date
            ((if wnext (tp (rqs s cpu)) + 1 = pwin_nr g
              then tf_start (tp (rqs s cpu)) + tf_duration g else tf_start (tp (rqs s cpu))) +
               w_offset (pwins g ! nat ((wnext (tp (rqs s cpu)) + 1) mod pwin_nr g)))
            (if wnext (tp (rqs s cpu)) + 1 = pwin_nr g
              then tf_start (tp (rqs s cpu)) + tf_duration g else tf_start (tp (rqs s cpu)))
            (tf_duration g) k\<rparr>\<rparr>"
    by auto
  from b(1) have "(wnext (tp (rqs s cpu)) + 1) mod pwin_nr g < pwin_nr g" by simp
  with inst b h show ?thesis
    unfolding tp_installed_def T by simp
qed

subsection \<open>The window cycle\<close>

lemma three_installed_gps: "gps (tp (rqs three_installed 0)) = Some 0"
  by code_simp

lemma three_installed_heap: "heap three_installed 0 = Some three_table"
  by code_simp

lemma three_table_ok: "tp_schedule_ok example_env three_table"
  by code_simp

lemma three_table_eval:
  "three_table = \<lparr>pwin_nr = 3, tf_duration = 25000000, refcount = 1,
      pwins = [\<lparr>w_offset = 0, w_part = 0\<rparr>, \<lparr>w_offset = 10000000, w_part = - 1\<rparr>,
         \<lparr>w_offset = 15000000, w_part = 1\<rparr>]\<rparr>"
  by code_simp



subsection \<open>Resynchronisation\<close>

lemma frames_mod4: "(of_nat j :: ktime) * 2 ^ 62 = of_nat (j mod 4) * 2 ^ 62"
proof -
  have z: "(4 :: ktime) * 2 ^ 62 = 0" by simp
  have "j = 4 * (j div 4) + j mod 4" by simp
  then have "(of_nat j :: ktime) = 4 * of_nat (j div 4) + of_nat (j mod 4)"
    by (metis of_nat_add of_nat_mult of_nat_numeral)
  then have "(of_nat j :: ktime) * 2 ^ 62 = of_nat (j div 4) * (4 * 2 ^ 62) + of_nat (j mod 4) * 2 ^ 62"
    by (simp add: algebra_simps)
  then show ?thesis by (simp only: z) simp
qed

lemma long_dates:
  "sint (tp_pass_date 0 0 (4611686018427387904 :: ktime) j) < sint (4611686018427387905 :: ktime)"
proof -
  have "j mod 4 = 0 \<or> j mod 4 = 1 \<or> j mod 4 = 2 \<or> j mod 4 = 3" by auto
  moreover have "tp_pass_date 0 0 (4611686018427387904 :: ktime) j = of_nat (j mod 4) * 2 ^ 62"
    using frames_mod4[of j] by (simp add: tp_pass_date_def)
  ultimately show ?thesis by auto
qed

lemma long_never_left:
  "\<not> tp_left_at (\<lambda>j. 4611686018427387905) 0 0 (4611686018427387904 :: ktime) k"
  using long_dates[of k] by (simp add: tp_left_at_def)

lemma tp_left_at_pos: "sint t < sint (clk 0) \<Longrightarrow> tp_left_at clk t tfs dur k \<Longrightarrow> 0 < k"
  by (cases k) (simp_all add: tp_left_at_0)

lemma tp_left_at_within:
  fixes tfs dur :: ktime
  assumes m: "0 < m" and le: "sint (clk m) \<le> sint tfs + int m * sint dur"
    and lt: "sint tfs + int m * sint dur < 2 ^ 63"
  shows "\<exists>k\<le>m. tp_left_at clk t tfs dur k"
proof -
  have "- (2 ^ 63) \<le> sint (clk m)" using sint_ge[of "clk m"] by simp
  with le have lo: "- (2 ^ 63) \<le> sint tfs + int m * sint dur" by simp
  from m have "sint (tp_pass_date t tfs dur m) = sint tfs + int m * sint dur"
    by (simp add: tp_pass_date_def sint_frames[OF lo lt])
  with le have "sint (clk m) \<le> sint (tp_pass_date t tfs dur m)" by simp
  then show ?thesis by (rule tp_left_at_least)
qed

text \<open>A clock that advances by at most \<open>\<delta>\<close> from one pass to the next is caught up with after
  \<open>m\<close> passes once \<open>m\<close> times the excess of the frame over \<open>\<delta>\<close> covers the delay, as long as
  the frame start moved forward stays below \<open>2\<^sup>6\<^sup>3\<close>.\<close>

lemma tp_left_at_drift:
  fixes tfs dur :: ktime
  assumes adv: "\<forall>j<m. sint (clk (Suc j)) \<le> sint (clk j) + \<delta>"
    and m: "0 < m" "sint (clk 0) - sint tfs \<le> int m * (sint dur - \<delta>)"
    and lt: "sint tfs + int m * sint dur < 2 ^ 63"
  shows "\<exists>k\<le>m. tp_left_at clk t tfs dur k"
proof -
  have "sint (clk j) \<le> sint (clk 0) + int j * \<delta>" if "j \<le> m" for j
    using that
  proof (induction j)
    case 0 then show ?case by simp
  next
    case (Suc j)
    then have "sint (clk (Suc j)) \<le> sint (clk j) + \<delta>" using adv by simp
    with Suc show ?case by (simp add: algebra_simps)
  qed
  then have "sint (clk m) \<le> sint (clk 0) + int m * \<delta>" by simp
  with m(2) have "sint (clk m) \<le> sint tfs + int m * sint dur" by (simp add: algebra_simps)
  from tp_left_at_within[where clk = clk, OF m(1) this lt] show ?thesis .
qed

text \<open>
  \<^bold>\<open>C2\<close> (as amended). Let a table be installed and let the date that \<^verbatim>\<open>tp_schedule_next\<close>
  first computes, \<^verbatim>\<open>tf_start\<close> plus the offset of the next window, be earlier than the first
  clock reading. The loop reads the clock anew at each pass and compares the reading of
  pass \<open>j > 0\<close> with \<^verbatim>\<open>tf_start\<close> moved \<open>j\<close> frames forward, in 64-bit arithmetic.

  \<^item> If \<open>k\<close> is the first pass whose reading is not later than its date, the call returns
    after that pass, and \<open>k > 0\<close>: \<^verbatim>\<open>tf_start\<close> has advanced by \<open>k\<close> whole frames, the next window
    index is 0, the window that was due is active, the timer is programmed for the new
    \<^verbatim>\<open>tf_start\<close>, and this date is not earlier than the last reading taken (it may be equal to
    it).
  \<^item> If there is no such pass the call does not return; a positive \<^verbatim>\<open>tf_duration\<close> does not
    exclude this.
  \<^item> There is such a pass, \<open>m\<close> at the latest, as soon as the reading of a pass \<open>m > 0\<close> is not
    later than the frame start plus \<open>m\<close> frames and this sum is below \<open>2\<^sup>6\<^sup>3\<close>.
\<close>

theorem tp_schedule_next_resync:
  assumes inst: "tp_installed env s cpu a g"
    and late: "sint (tf_start (tp (rqs s cpu)) +
                 w_offset (pwins g ! nat ((wnext (tp (rqs s cpu)) + 1) mod pwin_nr g)))
               < sint (clk 0)"
  shows
   "(\<forall>k. tp_left_at clk
            (tf_start (tp (rqs s cpu)) +
               w_offset (pwins g ! nat ((wnext (tp (rqs s cpu)) + 1) mod pwin_nr g)))
            (tf_start (tp (rqs s cpu))) (tf_duration g) k \<longrightarrow>
       0 < k \<and>
       (\<exists>s'. tp_schedule_next clk cpu s = Some s' \<and>
          tf_start (tp (rqs s' cpu)) = tf_start (tp (rqs s cpu)) + of_nat k * tf_duration g \<and>
          wnext (tp (rqs s' cpu)) = 0 \<and>
          tps (tp (rqs s' cpu)) = Some (tp_window_rq (pwins g ! nat (wnext (tp (rqs s cpu))))) \<and>
          tf_timer (tp (rqs s' cpu)) = \<lparr>running = True, date = tf_start (tp (rqs s' cpu))\<rparr> \<and>
          sint (clk k) \<le> sint (timer_date cpu s'))) \<and>
    ((\<forall>k. \<not> tp_left_at clk
            (tf_start (tp (rqs s cpu)) +
               w_offset (pwins g ! nat ((wnext (tp (rqs s cpu)) + 1) mod pwin_nr g)))
            (tf_start (tp (rqs s cpu))) (tf_duration g) k) \<longrightarrow>
       tp_schedule_next clk cpu s = None) \<and>
    (\<forall>m. 0 < m \<and>
         sint (clk m) \<le> sint (tf_start (tp (rqs s cpu))) + int m * sint (tf_duration g) \<and>
         sint (tf_start (tp (rqs s cpu))) + int m * sint (tf_duration g) < 2 ^ 63 \<longrightarrow>
       (\<exists>k\<le>m. tp_left_at clk
            (tf_start (tp (rqs s cpu)) +
               w_offset (pwins g ! nat ((wnext (tp (rqs s cpu)) + 1) mod pwin_nr g)))
            (tf_start (tp (rqs s cpu))) (tf_duration g) k))"
proof (intro conjI allI impI)
  fix k
  let ?T = "tp (rqs s cpu)"
  let ?t = "tf_start ?T + w_offset (pwins g ! nat ((wnext ?T + 1) mod pwin_nr g))"
  assume left: "tp_left_at clk ?t (tf_start ?T) (tf_duration g) k"
  from tp_left_at_pos[OF late left] show k: "0 < k" .
  let ?s' = "tp_programmed cpu (tp_window_rq (pwins g ! nat (wnext ?T))) 0
               (tf_start ?T + of_nat k * tf_duration g)
               (tf_start ?T + of_nat k * tf_duration g) s"
  have r: "tp_schedule_next clk cpu s = Some ?s'"
    using tp_schedule_next_left[OF inst left] k by (simp add: tp_pass_date_def)
  from left k have "sint (clk k) \<le> sint (tf_start ?T + of_nat k * tf_duration g)"
    by (simp add: tp_left_at_def tp_pass_date_def)
  then have "tp_schedule_next clk cpu s = Some ?s' \<and>
          tf_start (tp (rqs ?s' cpu)) = tf_start ?T + of_nat k * tf_duration g \<and>
          wnext (tp (rqs ?s' cpu)) = 0 \<and>
          tps (tp (rqs ?s' cpu)) = Some (tp_window_rq (pwins g ! nat (wnext ?T))) \<and>
          tf_timer (tp (rqs ?s' cpu)) = \<lparr>running = True, date = tf_start (tp (rqs ?s' cpu))\<rparr> \<and>
          sint (clk k) \<le> sint (timer_date cpu ?s')"
    using r by (simp add: timer_date_def)
  then show "\<exists>s'. tp_schedule_next clk cpu s = Some s' \<and>
          tf_start (tp (rqs s' cpu)) = tf_start ?T + of_nat k * tf_duration g \<and>
          wnext (tp (rqs s' cpu)) = 0 \<and>
          tps (tp (rqs s' cpu)) = Some (tp_window_rq (pwins g ! nat (wnext ?T))) \<and>
          tf_timer (tp (rqs s' cpu)) = \<lparr>running = True, date = tf_start (tp (rqs s' cpu))\<rparr> \<and>
          sint (clk k) \<le> sint (timer_date cpu s')"
    by (rule exI)
next
  let ?T = "tp (rqs s cpu)"
  let ?t = "tf_start ?T + w_offset (pwins g ! nat ((wnext ?T + 1) mod pwin_nr g))"
  assume never: "\<forall>k. \<not> tp_left_at clk ?t (tf_start ?T) (tf_duration g) k"
  show "tp_schedule_next clk cpu s = None"
  proof (cases "tp_schedule_next clk cpu s")
    case None then show ?thesis .
  next
    case (Some s')
    from tp_schedule_next_returns[OF inst Some] never show ?thesis by blast
  qed
next
  fix m
  let ?T = "tp (rqs s cpu)"
  assume "0 < m \<and>
         sint (clk m) \<le> sint (tf_start ?T) + int m * sint (tf_duration g) \<and>
         sint (tf_start ?T) + int m * sint (tf_duration g) < 2 ^ 63"
  then show "\<exists>k\<le>m. tp_left_at clk
            (tf_start ?T + w_offset (pwins g ! nat ((wnext ?T + 1) mod pwin_nr g)))
            (tf_start ?T) (tf_duration g) k"
    by (intro tp_left_at_within) simp_all
qed

lemma long_installed_eval:
  "tp_installed example_env long_installed 0 0 long_table"
  "tf_start (tp (rqs long_installed 0)) = 0" "wnext (tp (rqs long_installed 0)) = 0"
  "long_table = \<lparr>pwin_nr = 1, tf_duration = 2 ^ 62, refcount = 1,
      pwins = [\<lparr>w_offset = 0, w_part = 0\<rparr>]\<rparr>"
  by code_simp+

lemma long_never_returns:
  "tp_schedule_next (clock_at 4611686018427387905) 0 long_installed = None"
proof -
  have "tp_catch_up (clock_at 4611686018427387905) (2 ^ 62) 0 0 0 0 = None"
    by (rule tp_catch_up_never) (simp add: long_never_left clock_at_def)
  then show ?thesis
    unfolding tp_schedule_next_eq[OF long_installed_eval(1)]
    by (simp add: long_installed_eval)
qed

theorem tp_schedule_next_resync_witness:
  "tp_installed example_env three_started 0 0 three_table \<and>
   sint (tf_start (tp (rqs three_started 0)) +
         w_offset (pwins three_table !
           nat ((wnext (tp (rqs three_started 0)) + 1) mod pwin_nr three_table)))
     < sint (late_clock 0) \<and>
   tp_left_at late_clock
     (tf_start (tp (rqs three_started 0)) +
        w_offset (pwins three_table !
          nat ((wnext (tp (rqs three_started 0)) + 1) mod pwin_nr three_table)))
     (tf_start (tp (rqs three_started 0))) (tf_duration three_table) 3 \<and>
   (0 :: nat) < 3 \<and>
   sint (late_clock 3) \<le>
     sint (tf_start (tp (rqs three_started 0))) + int 3 * sint (tf_duration three_table) \<and>
   sint (tf_start (tp (rqs three_started 0))) + int 3 * sint (tf_duration three_table) < 2 ^ 63 \<and>
   (\<exists>s'. tp_schedule_next late_clock 0 three_started = Some s' \<and>
      tf_start (tp (rqs s' 0)) = 75000000 \<and> wnext (tp (rqs s' 0)) = 0 \<and>
      tps (tp (rqs s' 0)) = Some IdleRq \<and>
      tf_timer (tp (rqs s' 0)) = \<lparr>running = True, date = 75000000\<rparr> \<and>
      sint (late_clock 3) \<le> sint (timer_date 0 s')) \<and>
   (\<exists>k\<le>3. tp_left_at late_clock
     (tf_start (tp (rqs three_started 0)) +
        w_offset (pwins three_table !
          nat ((wnext (tp (rqs three_started 0)) + 1) mod pwin_nr three_table)))
     (tf_start (tp (rqs three_started 0))) (tf_duration three_table) k) \<and>
   tp_installed example_env long_installed 0 0 long_table \<and>
   sint (tf_start (tp (rqs long_installed 0)) +
         w_offset (pwins long_table !
           nat ((wnext (tp (rqs long_installed 0)) + 1) mod pwin_nr long_table)))
     < sint (clock_at 4611686018427387905 0) \<and>
   (\<forall>k. \<not> tp_left_at (clock_at 4611686018427387905)
     (tf_start (tp (rqs long_installed 0)) +
        w_offset (pwins long_table !
          nat ((wnext (tp (rqs long_installed 0)) + 1) mod pwin_nr long_table)))
     (tf_start (tp (rqs long_installed 0))) (tf_duration long_table) k) \<and>
   tp_schedule_next (clock_at 4611686018427387905) 0 long_installed = None"
proof -
  have i1: "tp_installed example_env three_started 0 0 three_table" by code_simp
  have l1: "sint (tf_start (tp (rqs three_started 0)) +
         w_offset (pwins three_table !
           nat ((wnext (tp (rqs three_started 0)) + 1) mod pwin_nr three_table)))
     < sint (late_clock 0)" by code_simp
  have w: "wnext (tp (rqs three_started 0)) = 1" "tf_start (tp (rqs three_started 0)) = 0"
    by code_simp+
  have e: "{0..<3::nat} = {0, 1, 2}" by auto
  have k1: "tp_left_at late_clock
     (tf_start (tp (rqs three_started 0)) +
        w_offset (pwins three_table !
          nat ((wnext (tp (rqs three_started 0)) + 1) mod pwin_nr three_table)))
     (tf_start (tp (rqs three_started 0))) (tf_duration three_table) 3"
    unfolding tp_left_at_def e w
    by (simp add: three_table_eval late_clock_def tp_pass_date_def)
  have m1: "(0 :: nat) < 3 \<and>
     sint (late_clock 3) \<le>
       sint (tf_start (tp (rqs three_started 0))) + int 3 * sint (tf_duration three_table) \<and>
     sint (tf_start (tp (rqs three_started 0))) + int 3 * sint (tf_duration three_table) < 2 ^ 63"
    unfolding w by (simp add: three_table_eval late_clock_def)
  note t1 = tp_schedule_next_resync[where clk = late_clock, OF i1 l1]
  from t1 k1 obtain s' where s': "tp_schedule_next late_clock 0 three_started = Some s'"
    "tf_start (tp (rqs s' 0)) = tf_start (tp (rqs three_started 0)) + of_nat 3 * tf_duration three_table"
    "wnext (tp (rqs s' 0)) = 0"
    "tps (tp (rqs s' 0)) =
       Some (tp_window_rq (pwins three_table ! nat (wnext (tp (rqs three_started 0)))))"
    "tf_timer (tp (rqs s' 0)) = \<lparr>running = True, date = tf_start (tp (rqs s' 0))\<rparr>"
    "sint (late_clock 3) \<le> sint (timer_date 0 s')"
    by blast
  have r1: "\<exists>s'. tp_schedule_next late_clock 0 three_started = Some s' \<and>
      tf_start (tp (rqs s' 0)) = 75000000 \<and> wnext (tp (rqs s' 0)) = 0 \<and>
      tps (tp (rqs s' 0)) = Some IdleRq \<and>
      tf_timer (tp (rqs s' 0)) = \<lparr>running = True, date = 75000000\<rparr> \<and>
      sint (late_clock 3) \<le> sint (timer_date 0 s')"
    using s' by (simp add: w three_table_eval tp_window_rq_def)
  from t1 m1 have r2: "\<exists>k\<le>3. tp_left_at late_clock
     (tf_start (tp (rqs three_started 0)) +
        w_offset (pwins three_table !
          nat ((wnext (tp (rqs three_started 0)) + 1) mod pwin_nr three_table)))
     (tf_start (tp (rqs three_started 0))) (tf_duration three_table) k"
    by blast
  have i2: "tp_installed example_env long_installed 0 0 long_table" by code_simp
  have l2: "sint (tf_start (tp (rqs long_installed 0)) +
         w_offset (pwins long_table !
           nat ((wnext (tp (rqs long_installed 0)) + 1) mod pwin_nr long_table)))
     < sint (clock_at 4611686018427387905 0)" by code_simp
  have n2: "\<forall>k. \<not> tp_left_at (clock_at 4611686018427387905)
     (tf_start (tp (rqs long_installed 0)) +
        w_offset (pwins long_table !
          nat ((wnext (tp (rqs long_installed 0)) + 1) mod pwin_nr long_table)))
     (tf_start (tp (rqs long_installed 0))) (tf_duration long_table) k"
  proof -
    have c: "clock_at 4611686018427387905 = (\<lambda>j. 4611686018427387905)"
      by (rule ext) (simp add: clock_at_def)
    show ?thesis using long_never_left by (simp add: long_installed_eval c)
  qed
  from tp_schedule_next_resync[where clk = "clock_at 4611686018427387905", OF i2 l2] n2
  have r3: "tp_schedule_next (clock_at 4611686018427387905) 0 long_installed = None"
    by blast
  from i1 l1 k1 m1 r1 r2 i2 l2 n2 r3 show ?thesis by blast
qed

text \<open>Two departures from the claim as it was stated. The date programmed after a
  resynchronisation can be equal to the clock reading: with the three-window table, frame
  start 0 and the clock at 50 ms, the timer is programmed for 50 ms, the value of the third
  and last reading. And the loop need not terminate although the frame is positive: with
  the table of one window of \<open>2\<^sup>6\<^sup>2\<close> ns, which is valid, frame start 0 and the clock at
  \<open>2\<^sup>6\<^sup>2 + 1\<close> ns, the frame start moved forward wraps around and stays earlier than the
  reading at every pass.\<close>

theorem tp_schedule_next_resync_counterexample:
  "tp_installed example_env three_installed 0 0 three_table \<and>
   sint (tf_start (tp (rqs three_installed 0)) +
      w_offset (pwins three_table ! nat ((wnext (tp (rqs three_installed 0)) + 1) mod pwin_nr three_table)))
     < sint (clock_at 50000000 0) \<and>
   map_option (timer_date 0) (tp_schedule_next (clock_at 50000000) 0 three_installed) =
     Some (clock_at 50000000 2) \<and>
   \<not> sint (clock_at 50000000 2) < sint (50000000 :: ktime) \<and>
   ctl_ret (tp_control example_env (clock_at 0) (Some 0) 0 install_long None boot_sys) =
     Some (Inr 0) \<and>
   tp_windows_contiguous example_env long_windows \<and>
   tp_installed example_env long_installed 0 0 long_table \<and>
   0 < sint (tf_duration long_table) \<and>
   sint (tf_start (tp (rqs long_installed 0)) +
         w_offset (pwins long_table !
           nat ((wnext (tp (rqs long_installed 0)) + 1) mod pwin_nr long_table)))
     < sint (clock_at 4611686018427387905 0) \<and>
   tp_schedule_next (clock_at 4611686018427387905) 0 long_installed = None"
proof -
  have a: "tp_installed example_env three_installed 0 0 three_table \<and>
   sint (tf_start (tp (rqs three_installed 0)) +
      w_offset (pwins three_table ! nat ((wnext (tp (rqs three_installed 0)) + 1) mod pwin_nr three_table)))
     < sint (clock_at 50000000 0) \<and>
   map_option (timer_date 0) (tp_schedule_next (clock_at 50000000) 0 three_installed) =
     Some (clock_at 50000000 2) \<and>
   \<not> sint (clock_at 50000000 2) < sint (50000000 :: ktime)"
    by code_simp
  have b: "ctl_ret (tp_control example_env (clock_at 0) (Some 0) 0 install_long None boot_sys) =
     Some (Inr 0) \<and>
   tp_windows_contiguous example_env long_windows \<and>
   tp_installed example_env long_installed 0 0 long_table \<and>
   0 < sint (tf_duration long_table) \<and>
   sint (tf_start (tp (rqs long_installed 0)) +
         w_offset (pwins long_table !
           nat ((wnext (tp (rqs long_installed 0)) + 1) mod pwin_nr long_table)))
     < sint (clock_at 4611686018427387905 0)"
    by code_simp
  from a b long_never_returns show ?thesis by blast
qed

subsection \<open>Priority tracking\<close>

lemma tp_trackprio_fold:
  "\<exists>c. fold (\<lambda>p th. tp_trackprio th p) ps thread = thread\<lparr>cprio := c\<rparr>"
proof (induction ps arbitrary: thread)
  case Nil
  have "fold (\<lambda>p th. tp_trackprio th p) [] thread = thread\<lparr>cprio := cprio thread\<rparr>" by simp
  then show ?case by (rule exI)
next
  case (Cons p ps)
  obtain c0 where c0: "tp_trackprio thread p = thread\<lparr>cprio := c0\<rparr>"
    by (cases p) (simp_all add: tp_trackprio_def)
  from Cons[of "thread\<lparr>cprio := c0\<rparr>"] obtain c where
    "fold (\<lambda>p th. tp_trackprio th p) ps (thread\<lparr>cprio := c0\<rparr>) = thread\<lparr>cprio := c0\<rparr>\<lparr>cprio := c\<rparr>"
    by blast
  with c0 show ?case by auto
qed

text \<open>
  \<^bold>\<open>C7.\<close> \<^verbatim>\<open>tp_trackprio\<close> with parameters sets the current priority of the thread to the
  priority supplied, without parameters it sets it to the base priority, and it changes
  nothing else. After any sequence of such calls the thread differs from the original one
  in its current priority at most; its partition (\<^verbatim>\<open>thread->tps\<close>) is the one it had.
\<close>

theorem tp_trackprio_only_cprio:
  "tp_trackprio thread (Some q) = thread\<lparr>cprio := tp_prio q\<rparr> \<and>
   tp_trackprio thread None = thread\<lparr>cprio := bprio thread\<rparr> \<and>
   (\<exists>c. fold (\<lambda>p th. tp_trackprio th p) ps thread = thread\<lparr>cprio := c\<rparr>) \<and>
   th_tps (fold (\<lambda>p th. tp_trackprio th p) ps thread) = th_tps thread"
proof -
  from tp_trackprio_fold[of ps thread] obtain c where
    c: "fold (\<lambda>p th. tp_trackprio th p) ps thread = thread\<lparr>cprio := c\<rparr>" by blast
  then have "th_tps (fold (\<lambda>p th. tp_trackprio th p) ps thread) = th_tps thread" by simp
  with c show ?thesis by (auto simp: tp_trackprio_def)
qed

subsection \<open>Parameter check\<close>

text \<open>
  \<^bold>\<open>C10.\<close> \<^verbatim>\<open>tp_chkparam\<close> returns \<^verbatim>\<open>-EINVAL\<close> whenever no table is installed on the CPU of the
  thread, whatever the priority and the partition supplied. It returns 0 exactly when a
  table is installed, the priority lies in \<^verbatim>\<open>[EVL_TP_MIN_PRIO, EVL_TP_MAX_PRIO]\<close> and the
  partition in \<^verbatim>\<open>[0, CONFIG_EVL_SCHED_TP_NR_PART)\<close>.
\<close>

theorem tp_chkparam_needs_table:
  "(gps (tp (rqs s (th_rq (thr s thread)))) = None \<longrightarrow> tp_chkparam env s thread p = Inl EINVAL) \<and>
   (tp_chkparam env s thread p = Inr 0 \<longleftrightarrow>
      gps (tp (rqs s (th_rq (thr s thread)))) \<noteq> None \<and>
      EVL_TP_MIN_PRIO env \<le> tp_prio p \<and> tp_prio p \<le> EVL_TP_MAX_PRIO env \<and>
      0 \<le> tp_ptid p \<and> tp_ptid p < CONFIG_EVL_SCHED_TP_NR_PART env)"
  by (auto simp: tp_chkparam_def Let_def)

theorem tp_chkparam_needs_table_witness:
  "gps (tp (rqs boot_sys (th_rq (thr boot_sys 0)))) = None \<and>
   EVL_TP_MIN_PRIO example_env \<le> tp_prio \<lparr>tp_prio = 10, tp_ptid = 2\<rparr> \<and>
   tp_prio \<lparr>tp_prio = 10, tp_ptid = 2\<rparr> \<le> EVL_TP_MAX_PRIO example_env \<and>
   0 \<le> tp_ptid \<lparr>tp_prio = 10, tp_ptid = 2\<rparr> \<and>
   tp_ptid \<lparr>tp_prio = 10, tp_ptid = 2\<rparr> < CONFIG_EVL_SCHED_TP_NR_PART example_env \<and>
   tp_chkparam example_env boot_sys 0 \<lparr>tp_prio = 10, tp_ptid = 2\<rparr> = Inl EINVAL \<and>
   tp_chkparam example_env three_installed 0 \<lparr>tp_prio = 10, tp_ptid = 2\<rparr> = Inr 0"
proof -
  have h: "gps (tp (rqs boot_sys (th_rq (thr boot_sys 0)))) = None" by code_simp
  have r: "EVL_TP_MIN_PRIO example_env \<le> tp_prio \<lparr>tp_prio = 10, tp_ptid = 2\<rparr> \<and>
   tp_prio \<lparr>tp_prio = 10, tp_ptid = 2\<rparr> \<le> EVL_TP_MAX_PRIO example_env \<and>
   0 \<le> tp_ptid \<lparr>tp_prio = 10, tp_ptid = 2\<rparr> \<and>
   tp_ptid \<lparr>tp_prio = 10, tp_ptid = 2\<rparr> < CONFIG_EVL_SCHED_TP_NR_PART example_env"
    by code_simp
  have i: "gps (tp (rqs three_installed (th_rq (thr three_installed 0)))) \<noteq> None" by code_simp
  from tp_chkparam_needs_table[of boot_sys 0 example_env "\<lparr>tp_prio = 10, tp_ptid = 2\<rparr>"] h
  have a: "tp_chkparam example_env boot_sys 0 \<lparr>tp_prio = 10, tp_ptid = 2\<rparr> = Inl EINVAL" by blast
  from tp_chkparam_needs_table[of three_installed 0 example_env "\<lparr>tp_prio = 10, tp_ptid = 2\<rparr>"] i r
  have b: "tp_chkparam example_env three_installed 0 \<lparr>tp_prio = 10, tp_ptid = 2\<rparr> = Inr 0" by blast
  from h r a b show ?thesis by blast
qed

subsection \<open>Picking a thread\<close>




subsection \<open>Validation of an install request\<close>

lemma tp_windows_valid_iff:
  assumes "0 \<le> CONFIG_EVL_SCHED_TP_NR_PART env"
  shows "tp_windows_valid env ws \<longleftrightarrow> (\<forall>i. 0 \<le> i \<and> i < length ws \<longrightarrow>
        u_timespec_to_ktime env (offset (ws ! i)) =
          sum_list (map (\<lambda>p. u_timespec_to_ktime env (duration p)) (take i ws)) \<and>
        0 < sint (u_timespec_to_ktime env (duration (ws ! i))) \<and>
        - 1 \<le> ptid (ws ! i) \<and> ptid (ws ! i) < CONFIG_EVL_SCHED_TP_NR_PART env)"
proof -
  have "(x = - 1 \<or> 0 \<le> x \<and> x < CONFIG_EVL_SCHED_TP_NR_PART env) \<longleftrightarrow>
        (- 1 \<le> x \<and> x < CONFIG_EVL_SCHED_TP_NR_PART env)" for x :: int
    using assms by auto
  then show ?thesis unfolding tp_windows_valid_def by auto
qed

lemma tp_install_loop_eq:
  assumes len: "nr_windows pt = int (length (windows pt))"
    and n: "n \<le> length (windows pt)"
    and acc: "next_offset = sum_list (map (\<lambda>p. u_timespec_to_ktime env (duration p)) (take n (windows pt)))"
  shows "tp_install_loop env pt (int n) next_offset ws =
     Some (if \<forall>i. n \<le> i \<and> i < length (windows pt) \<longrightarrow>
                u_timespec_to_ktime env (offset (windows pt ! i)) =
                  sum_list (map (\<lambda>p. u_timespec_to_ktime env (duration p)) (take i (windows pt))) \<and>
                0 < sint (u_timespec_to_ktime env (duration (windows pt ! i))) \<and>
                - 1 \<le> ptid (windows pt ! i) \<and> ptid (windows pt ! i) < CONFIG_EVL_SCHED_TP_NR_PART env
           then Inr (int (length (windows pt)),
                     sum_list (map (\<lambda>p. u_timespec_to_ktime env (duration p)) (windows pt)),
                     ws @ map (\<lambda>i. \<lparr>w_offset = sum_list (map (\<lambda>p. u_timespec_to_ktime env (duration p))
                                                  (take i (windows pt))),
                                     w_part = ptid (windows pt ! i)\<rparr>) [n..<length (windows pt)])
           else Inl EINVAL)"
  using n acc
proof (induction "length (windows pt) - n" arbitrary: n next_offset ws)
  case 0
  then have "n = length (windows pt)" by simp
  with 0 len show ?case
    by (subst tp_install_loop.simps) simp
next
  case (Suc d)
  let ?W = "windows pt"
  let ?D = "\<lambda>p. u_timespec_to_ktime env (duration p)"
  let ?ok = "\<lambda>i. u_timespec_to_ktime env (offset (?W ! i)) = sum_list (map ?D (take i ?W)) \<and>
                0 < sint (?D (?W ! i)) \<and> - 1 \<le> ptid (?W ! i) \<and> ptid (?W ! i) < CONFIG_EVL_SCHED_TP_NR_PART env"
  from Suc.hyps(2) have lt: "n < length ?W" by simp
  then have e: "elem ?W (int n) = Some (?W ! n)" by (simp add: elem_def)
  have split: "(\<forall>i. n \<le> i \<and> i < length ?W \<longrightarrow> ?ok i) \<longleftrightarrow> ?ok n \<and> (\<forall>i. Suc n \<le> i \<and> i < length ?W \<longrightarrow> ?ok i)"
    using lt by (metis Suc_leI le_neq_implies_less order_refl Suc_le_lessD less_imp_le_nat)
  show ?case
  proof (cases "?ok n")
    case False
    then have "\<not> (\<forall>i. n \<le> i \<and> i < length ?W \<longrightarrow> ?ok i)" using split by blast
    moreover have "tp_install_loop env pt (int n) next_offset ws = Some (Inl EINVAL)"
      using False lt len e Suc.prems(2)
      by (subst tp_install_loop.simps) (auto simp: Let_def)
    ultimately show ?thesis by simp
  next
    case True
    have d: "d = length ?W - Suc n" using Suc.hyps(2) by simp
    have acc': "next_offset + ?D (?W ! n) = sum_list (map ?D (take (Suc n) ?W))"
      using Suc.prems(2) lt by (simp add: take_Suc_conv_app_nth)
    have sn: "Suc n \<le> length ?W" using lt by simp
    note IH = Suc.hyps(1)[OF d sn acc', of "ws @ [\<lparr>w_offset = next_offset, w_part = ptid (?W ! n)\<rparr>]"]
    have step: "tp_install_loop env pt (int n) next_offset ws =
        tp_install_loop env pt (int (Suc n)) (next_offset + ?D (?W ! n))
          (ws @ [\<lparr>w_offset = next_offset, w_part = ptid (?W ! n)\<rparr>])"
      using True lt len e Suc.prems(2)
      by (subst tp_install_loop.simps) (auto simp: Let_def add.commute)
    have up: "[n..<length ?W] = n # [Suc n..<length ?W]" using lt by (simp add: upt_conv_Cons)
    show ?thesis
      unfolding step IH split up using True Suc.prems(2) by simp
  qed
qed

lemma tp_table_of_ok:
  assumes nr: "0 \<le> CONFIG_EVL_SCHED_TP_NR_PART env"
    and v: "tp_windows_valid env ws" and ne: "ws \<noteq> []"
  shows "tp_schedule_ok env (tp_table_of env ws)"
proof -
  let ?D = "\<lambda>p. u_timespec_to_ktime env (duration p)"
  let ?f = "\<lambda>i. \<lparr>w_offset = sum_list (map ?D (take i ws)), w_part = ptid (ws ! i)\<rparr>"
  from v have rng: "\<forall>i<length ws. - 1 \<le> ptid (ws ! i) \<and> ptid (ws ! i) < CONFIG_EVL_SCHED_TP_NR_PART env"
    unfolding tp_windows_valid_iff[OF nr] by auto
  have pw: "pwins (tp_table_of env ws) = map ?f [0..<length ws]" by (simp add: tp_table_of_def)
  from ne have n0: "0 < length ws" by simp
  have 1: "pwin_nr (tp_table_of env ws) = int (length (pwins (tp_table_of env ws)))"
    by (simp add: tp_table_of_def)
  have 2: "pwins (tp_table_of env ws) \<noteq> []" using ne by (simp add: pw)
  have 3: "w_offset (hd (pwins (tp_table_of env ws))) = 0"
    using n0 by (simp add: pw hd_map upt_conv_Cons)
  have 6: "list_all (\<lambda>w. - 1 \<le> w_part w \<and> w_part w < CONFIG_EVL_SCHED_TP_NR_PART env)
             (pwins (tp_table_of env ws))"
    using rng by (simp add: pw list_all_length)
  from 1 2 3 6 show ?thesis unfolding tp_schedule_ok_def by blast
qed

lemma stop_tp_schedule_simps [simp]:
  "heap (stop_tp_schedule cpu s) = heap s"
  "thr (stop_tp_schedule cpu s) = thr s"
  "trace (stop_tp_schedule cpu s) =
     trace s @ (if gps (tp (rqs s cpu)) = None then [] else [TimerStop cpu])"
  "tp (rqs (stop_tp_schedule cpu s) cpu) =
     (if gps (tp (rqs s cpu)) = None then tp (rqs s cpu)
      else (tp (rqs s cpu))\<lparr>tf_timer := (tf_timer (tp (rqs s cpu)))\<lparr>running := False\<rparr>\<rparr>)"
  "curr (rqs (stop_tp_schedule cpu s) c) = curr (rqs s c)"
  "resched (rqs (stop_tp_schedule cpu s) c) = resched (rqs s c)"
  "c \<noteq> cpu \<Longrightarrow> rqs (stop_tp_schedule cpu s) c = rqs s c"
  by (simp_all add: stop_tp_schedule_def Let_def)

lemma evl_free_simps [simp]:
  "rqs (evl_free p s) = rqs s" "thr (evl_free p s) = thr s" "trace (evl_free p s) = trace s"
  "heap (evl_free None s) = heap s" "heap (evl_free (Some a) s) = (heap s)(a := None)"
  by (simp_all add: evl_free_def split: option.splits)

lemma set_tp_schedule_eq:
  assumes "new = None \<or> (\<exists>a g. new = Some a \<and> heap s a = Some g \<and> 0 < pwin_nr g \<and>
              pwins g \<noteq> [] \<and> w_offset (pwins g ! 0) = 0)"
  shows "set_tp_schedule env cpu new s =
     Some (if threads (tp (rqs s cpu)) \<noteq> [] then (Inl EBUSY, emit (Unlock cpu) (emit (Lock cpu) s))
           else (Inr (gps (tp (rqs s cpu))),
                 emit (Unlock cpu) (emit (GpsStore cpu new)
                   (set_tp cpu ((tp (rqs (stop_tp_schedule cpu (emit (Lock cpu) s)) cpu))\<lparr>gps := new\<rparr>)
                      (stop_tp_schedule cpu (emit (Lock cpu) s))))))"
  using assms
  by (cases "EVL_DEBUG_CORE env") (auto simp: set_tp_schedule_def Let_def elem_def)

lemma put_tp_schedule_eq:
  assumes "heap s b = Some gb"
  shows "\<exists>s'. put_tp_schedule b s = Some s' \<and> rqs s' = rqs s \<and> thr s' = thr s \<and>
     trace s' = trace s @ [RefPut b] \<and>
     heap s' = (if refcount gb = 1 then (heap s)(b := None)
                else (heap s)(b \<mapsto> gb\<lparr>refcount := refcount gb - 1\<rparr>))"
  using assms by (auto simp: put_tp_schedule_def Let_def)

lemma tp_switch_schedule_busy:
  assumes "new = None \<or> (\<exists>a g. new = Some a \<and> heap s a = Some g \<and> 0 < pwin_nr g \<and>
              pwins g \<noteq> [] \<and> w_offset (pwins g ! 0) = 0)"
    and "threads (tp (rqs s cpu)) \<noteq> []"
  shows "tp_switch_schedule env cpu new infp s =
           Some (Inl EBUSY, infp, evl_free new (emit (Unlock cpu) (emit (Lock cpu) s)))"
  using assms(2) by (simp add: tp_switch_schedule_def set_tp_schedule_eq[OF assms(1)])

lemma tp_switch_schedule_free:
  assumes new: "new = None \<or> (\<exists>a g. new = Some a \<and> heap s a = Some g \<and> 0 < pwin_nr g \<and>
              pwins g \<noteq> [] \<and> w_offset (pwins g ! 0) = 0)"
    and live: "\<forall>b. gps (tp (rqs s cpu)) = Some b \<longrightarrow> heap s b \<noteq> None"
    and free: "threads (tp (rqs s cpu)) = []"
  shows "\<exists>s'. tp_switch_schedule env cpu new infp s = Some (Inr 0, infp, s') \<and>
     tp (rqs s' cpu) =
       (if gps (tp (rqs s cpu)) = None then (tp (rqs s cpu))\<lparr>gps := new\<rparr>
        else (tp (rqs s cpu))\<lparr>tf_timer := (tf_timer (tp (rqs s cpu)))\<lparr>running := False\<rparr>, gps := new\<rparr>) \<and>
     curr (rqs s' cpu) = curr (rqs s cpu) \<and> resched (rqs s' cpu) = resched (rqs s cpu) \<and>
     (\<forall>c. c \<noteq> cpu \<longrightarrow> rqs s' c = rqs s c) \<and> thr s' = thr s \<and>
     trace s' = trace s @ [Lock cpu] @ (if gps (tp (rqs s cpu)) = None then [] else [TimerStop cpu]) @
                [GpsStore cpu new, Unlock cpu] @
                (case gps (tp (rqs s cpu)) of None \<Rightarrow> [] | Some b \<Rightarrow> [RefPut b]) @ [Schedule] \<and>
     heap s' = (case gps (tp (rqs s cpu)) of None \<Rightarrow> heap s
                | Some b \<Rightarrow> (if map_option refcount (heap s b) = Some 1 then (heap s)(b := None)
                             else (heap s)(b := map_option (\<lambda>g. g\<lparr>refcount := refcount g - 1\<rparr>) (heap s b))))"
proof (cases "gps (tp (rqs s cpu))")
  case None
  then show ?thesis using free
    by (simp add: tp_switch_schedule_def set_tp_schedule_eq[OF new])
next
  case (Some b)
  with live obtain gb where gb: "heap s b = Some gb" by auto
  let ?s1 = "emit (Unlock cpu) (emit (GpsStore cpu new)
                   (set_tp cpu ((tp (rqs (stop_tp_schedule cpu (emit (Lock cpu) s)) cpu))\<lparr>gps := new\<rparr>)
                      (stop_tp_schedule cpu (emit (Lock cpu) s))))"
  have h1: "heap ?s1 b = Some gb" using gb by simp
  from put_tp_schedule_eq[OF h1] obtain s2 where
    s2: "put_tp_schedule b ?s1 = Some s2" "rqs s2 = rqs ?s1" "thr s2 = thr ?s1"
        "trace s2 = trace ?s1 @ [RefPut b]"
        "heap s2 = (if refcount gb = 1 then (heap ?s1)(b := None)
                else (heap ?s1)(b \<mapsto> gb\<lparr>refcount := refcount gb - 1\<rparr>))"
    by blast
  have "tp_switch_schedule env cpu new infp s = Some (Inr 0, infp, emit Schedule s2)"
    using free Some s2(1) by (simp add: tp_switch_schedule_def set_tp_schedule_eq[OF new])
  then show ?thesis using s2(2-5) Some gb by (auto simp: fun_eq_iff)
qed

lemma tp_install_schedule_eq:
  assumes nr: "0 \<le> CONFIG_EVL_SCHED_TP_NR_PART env"
    and len: "nr_windows pt = int (length (windows pt))"
    and fresh: "heap s a = None"
  shows "tp_install_schedule env (Some a) cpu pt infp s =
     (if tp_windows_valid env (windows pt)
      then tp_switch_schedule env cpu (Some a) infp
             (s\<lparr>heap := (heap s)(a \<mapsto> tp_table_of env (windows pt))\<rparr>)
      else Some (Inl EINVAL, infp, s))"
proof -
  have l: "tp_install_loop env pt 0 0 [] =
     Some (if tp_windows_valid env (windows pt)
           then Inr (int (length (windows pt)),
                     sum_list (map (\<lambda>p. u_timespec_to_ktime env (duration p)) (windows pt)),
                     pwins (tp_table_of env (windows pt)))
           else Inl EINVAL)"
    using tp_install_loop_eq[OF len, of 0 0 env "[]"]
    unfolding tp_windows_valid_iff[OF nr] by (simp add: tp_table_of_def)
  have f: "(heap s)(a := None) = heap s" using fresh by (simp add: fun_upd_idem_iff)
  show ?thesis
    unfolding tp_install_schedule_def l
    by (simp add: evl_alloc_at_def evl_free_def f tp_table_of_def)
qed

subsection \<open>Install and uninstall\<close>

lemma tp_control_switch_request:
  assumes cpu: "tp_cpu_ok env cpu"
    and nr: "0 \<le> CONFIG_EVL_SCHED_TP_NR_PART env"
    and req: "tp_switch_request env s alloc pt new"
  shows "tp_control env clk alloc cpu pt infp s =
           tp_switch_schedule env cpu new infp (tp_built env pt new s)"
proof -
  from cpu have c: "\<not> (cpu < 0 \<or> \<not> cpu_present env cpu \<or> \<not> is_threading_cpu env cpu)"
    by (auto simp: tp_cpu_ok_def)
  from req consider
      (un) "op pt = evl_tp_uninstall" "new = None"
    | (zero) "op pt = evl_tp_install" "nr_windows pt \<le> 0" "new = None"
    | (inst) a where "op pt = evl_tp_install" "0 < nr_windows pt"
        "nr_windows pt = int (length (windows pt))" "tp_windows_valid env (windows pt)"
        "alloc = Some a" "new = Some a" "heap s a = None"
    by (auto simp: tp_switch_request_def deref_def)
  then show ?thesis
  proof cases
    case un then show ?thesis using c by (simp add: tp_control_def tp_built_def)
  next
    case zero then show ?thesis using c by (simp add: tp_control_def tp_built_def)
  next
    case inst
    then show ?thesis using c tp_install_schedule_eq[OF nr inst(3) inst(7), of cpu infp]
      by (simp add: tp_control_def tp_built_def)
  qed
qed

lemma tp_built_new_ok:
  assumes nr: "0 \<le> CONFIG_EVL_SCHED_TP_NR_PART env"
    and req: "tp_switch_request env s alloc pt new"
  shows "new = None \<or> (\<exists>a g. new = Some a \<and> heap (tp_built env pt new s) a = Some g \<and> 0 < pwin_nr g \<and>
              pwins g \<noteq> [] \<and> w_offset (pwins g ! 0) = 0)"
proof (cases new)
  case None then show ?thesis by simp
next
  case (Some a)
  with req have v: "tp_windows_valid env (windows pt)" and l: "0 < nr_windows pt"
      "nr_windows pt = int (length (windows pt))"
    by (auto simp: tp_switch_request_def)
  then have ne: "windows pt \<noteq> []" by auto
  from tp_table_of_ok[OF nr v ne] have ok: "tp_schedule_ok env (tp_table_of env (windows pt))" .
  then have "0 < pwin_nr (tp_table_of env (windows pt))" "pwins (tp_table_of env (windows pt)) \<noteq> []"
    "w_offset (pwins (tp_table_of env (windows pt)) ! 0) = 0"
    by (auto simp: tp_schedule_ok_def hd_conv_nth)
  with Some show ?thesis by (simp add: tp_built_def)
qed

lemma tp_built_simps [simp]:
  "rqs (tp_built env pt new s) = rqs s" "thr (tp_built env pt new s) = thr s"
  "trace (tp_built env pt new s) = trace s"
  "heap (tp_built env pt None s) = heap s"
  "heap (tp_built env pt (Some a) s) = (heap s)(a \<mapsto> tp_table_of env (windows pt))"
  by (simp_all add: tp_built_def split: option.splits)

lemma tp_built_free:
  assumes req: "tp_switch_request env s alloc pt new"
  shows "evl_free new (emit (Unlock cpu) (emit (Lock cpu) (tp_built env pt new s))) =
           emit (Unlock cpu) (emit (Lock cpu) s)"
proof (cases new)
  case None then show ?thesis by (simp add: evl_free_def tp_built_def)
next
  case (Some a)
  with req have "heap s a = None" by (auto simp: tp_switch_request_def deref_def)
  then have "(heap s)(a := None) = heap s" by (simp add: fun_upd_idem_iff)
  with Some show ?thesis by (simp add: evl_free_def tp_built_def emit_def)
qed

lemma tp_control_switch_busy:
  assumes cpu: "tp_cpu_ok env cpu"
    and nr: "0 \<le> CONFIG_EVL_SCHED_TP_NR_PART env"
    and req: "tp_switch_request env s alloc pt new"
    and busy: "threads (tp (rqs s cpu)) \<noteq> []"
  shows "tp_control env clk alloc cpu pt infp s =
           Some (Inl EBUSY, infp, emit (Unlock cpu) (emit (Lock cpu) s))"
proof -
  have b: "threads (tp (rqs (tp_built env pt new s) cpu)) \<noteq> []" using busy by simp
  show ?thesis
    unfolding tp_control_switch_request[OF cpu nr req]
      tp_switch_schedule_busy[OF tp_built_new_ok[OF nr req] b] tp_built_free[OF req] ..
qed

lemma tp_control_switch_free:
  assumes cpu: "tp_cpu_ok env cpu"
    and nr: "0 \<le> CONFIG_EVL_SCHED_TP_NR_PART env"
    and req: "tp_switch_request env s alloc pt new"
    and live: "tp_gps_live s cpu"
    and free: "threads (tp (rqs s cpu)) = []"
  shows "\<exists>s'. tp_control env clk alloc cpu pt infp s = Some (Inr 0, infp, s') \<and>
     tp (rqs s' cpu) =
       (if gps (tp (rqs s cpu)) = None then (tp (rqs s cpu))\<lparr>gps := new\<rparr>
        else (tp (rqs s cpu))\<lparr>tf_timer := (tf_timer (tp (rqs s cpu)))\<lparr>running := False\<rparr>, gps := new\<rparr>) \<and>
     curr (rqs s' cpu) = curr (rqs s cpu) \<and> resched (rqs s' cpu) = resched (rqs s cpu) \<and>
     (\<forall>c. c \<noteq> cpu \<longrightarrow> rqs s' c = rqs s c) \<and> thr s' = thr s \<and>
     trace s' = trace s @ [Lock cpu] @ (if gps (tp (rqs s cpu)) = None then [] else [TimerStop cpu]) @
                [GpsStore cpu new, Unlock cpu] @
                (case gps (tp (rqs s cpu)) of None \<Rightarrow> [] | Some b \<Rightarrow> [RefPut b]) @ [Schedule] \<and>
     (\<forall>b gb. gps (tp (rqs s cpu)) = Some b \<and> heap s b = Some gb \<longrightarrow>
        heap s' b = (if refcount gb = 1 then None else Some (gb\<lparr>refcount := refcount gb - 1\<rparr>))) \<and>
     (\<forall>a. new = Some a \<longrightarrow> heap s' a = Some (tp_table_of env (windows pt))) \<and>
     (\<forall>x. gps (tp (rqs s cpu)) \<noteq> Some x \<and> new \<noteq> Some x \<longrightarrow> heap s' x = heap s x)"
proof -
  let ?s1 = "tp_built env pt new s"
  have fresh: "heap s a = None" if "new = Some a" for a
    using req that by (auto simp: tp_switch_request_def deref_def)
  have live1: "\<forall>b. gps (tp (rqs ?s1 cpu)) = Some b \<longrightarrow> heap ?s1 b \<noteq> None"
    using live by (cases new) (auto simp: tp_gps_live_def split: option.splits)
  have free1: "threads (tp (rqs ?s1 cpu)) = []" using free by simp
  from tp_switch_schedule_free[OF tp_built_new_ok[OF nr req] live1 free1, of env infp]
  obtain s' where
    r: "tp_switch_schedule env cpu new infp ?s1 = Some (Inr 0, infp, s')" and
    t: "tp (rqs s' cpu) =
       (if gps (tp (rqs ?s1 cpu)) = None then (tp (rqs ?s1 cpu))\<lparr>gps := new\<rparr>
        else (tp (rqs ?s1 cpu))\<lparr>tf_timer := (tf_timer (tp (rqs ?s1 cpu)))\<lparr>running := False\<rparr>, gps := new\<rparr>)" and
    o: "curr (rqs s' cpu) = curr (rqs ?s1 cpu)" "resched (rqs s' cpu) = resched (rqs ?s1 cpu)"
       "\<forall>c. c \<noteq> cpu \<longrightarrow> rqs s' c = rqs ?s1 c" "thr s' = thr ?s1" and
    tr: "trace s' = trace ?s1 @ [Lock cpu] @ (if gps (tp (rqs ?s1 cpu)) = None then [] else [TimerStop cpu]) @
                [GpsStore cpu new, Unlock cpu] @
                (case gps (tp (rqs ?s1 cpu)) of None \<Rightarrow> [] | Some b \<Rightarrow> [RefPut b]) @ [Schedule]" and
    h: "heap s' = (case gps (tp (rqs ?s1 cpu)) of None \<Rightarrow> heap ?s1
                | Some b \<Rightarrow> (if map_option refcount (heap ?s1 b) = Some 1 then (heap ?s1)(b := None)
                             else (heap ?s1)(b := map_option (\<lambda>g. g\<lparr>refcount := refcount g - 1\<rparr>) (heap ?s1 b))))"
    by blast
  have h1: "\<forall>b gb. gps (tp (rqs s cpu)) = Some b \<and> heap s b = Some gb \<longrightarrow>
        heap s' b = (if refcount gb = 1 then None else Some (gb\<lparr>refcount := refcount gb - 1\<rparr>))"
    using fresh unfolding h by (cases new) auto
  have h2: "\<forall>a. new = Some a \<longrightarrow> heap s' a = Some (tp_table_of env (windows pt))"
    using fresh live unfolding h by (auto simp: tp_gps_live_def split: option.splits)
  have h3: "\<forall>x. gps (tp (rqs s cpu)) \<noteq> Some x \<and> new \<noteq> Some x \<longrightarrow> heap s' x = heap s x"
    unfolding h by (cases new) (auto split: option.splits)
  show ?thesis
    unfolding tp_control_switch_request[OF cpu nr req]
    using r t o tr h1 h2 h3 by simp
qed

text \<open>
  \<^bold>\<open>C9.\<close> An install request whose window count is zero (or negative) is served exactly as
  the uninstall request with the same arguments. For a valid CPU whose table pointer is
  sound it is never rejected with \<^verbatim>\<open>-EINVAL\<close>: it fails with \<^verbatim>\<open>-EBUSY\<close>, leaving the TP state and
  the store as they were, when a thread is attached; otherwise it returns 0, leaves no
  table installed and drops one reference to the table that was installed.
\<close>

theorem tp_install_empty_is_uninstall:
  assumes "op pt = evl_tp_install" and "nr_windows pt \<le> 0"
  shows "tp_control env clk alloc cpu pt infp s =
           tp_control env clk alloc cpu (pt\<lparr>op := evl_tp_uninstall\<rparr>) infp s \<and>
    (tp_cpu_ok env cpu \<and> tp_gps_live s cpu \<longrightarrow>
      (\<exists>r s'. tp_control env clk alloc cpu pt infp s = Some (r, infp, s') \<and> r \<noteq> Inl EINVAL \<and>
         (threads (tp (rqs s cpu)) \<noteq> [] \<longrightarrow>
            r = Inl EBUSY \<and> tp (rqs s' cpu) = tp (rqs s cpu) \<and> heap s' = heap s) \<and>
         (threads (tp (rqs s cpu)) = [] \<longrightarrow>
            r = Inr 0 \<and> gps (tp (rqs s' cpu)) = None \<and>
            (\<forall>b gb. gps (tp (rqs s cpu)) = Some b \<and> heap s b = Some gb \<longrightarrow>
               heap s' b = (if refcount gb = 1 then None
                            else Some (gb\<lparr>refcount := refcount gb - 1\<rparr>))))))"
proof (intro conjI impI)
  show "tp_control env clk alloc cpu pt infp s =
           tp_control env clk alloc cpu (pt\<lparr>op := evl_tp_uninstall\<rparr>) infp s"
    using assms by (simp add: tp_control_def)
next
  assume a: "tp_cpu_ok env cpu \<and> tp_gps_live s cpu"
  then have c: "\<not> (cpu < 0 \<or> \<not> cpu_present env cpu \<or> \<not> is_threading_cpu env cpu)"
    by (auto simp: tp_cpu_ok_def)
  have e: "tp_control env clk alloc cpu pt infp s = tp_switch_schedule env cpu None infp s"
    using assms c by (simp add: tp_control_def)
  have n: "None = None \<or> (\<exists>a g. None = Some a \<and> heap s a = Some g \<and> 0 < pwin_nr g \<and>
              pwins g \<noteq> [] \<and> w_offset (pwins g ! 0) = 0)" by simp
  show "\<exists>r s'. tp_control env clk alloc cpu pt infp s = Some (r, infp, s') \<and> r \<noteq> Inl EINVAL \<and>
         (threads (tp (rqs s cpu)) \<noteq> [] \<longrightarrow>
            r = Inl EBUSY \<and> tp (rqs s' cpu) = tp (rqs s cpu) \<and> heap s' = heap s) \<and>
         (threads (tp (rqs s cpu)) = [] \<longrightarrow>
            r = Inr 0 \<and> gps (tp (rqs s' cpu)) = None \<and>
            (\<forall>b gb. gps (tp (rqs s cpu)) = Some b \<and> heap s b = Some gb \<longrightarrow>
               heap s' b = (if refcount gb = 1 then None
                            else Some (gb\<lparr>refcount := refcount gb - 1\<rparr>))))"
  proof (cases "threads (tp (rqs s cpu)) = []")
    case False
    from tp_switch_schedule_busy[OF n False, of env infp] show ?thesis
      unfolding e using False by simp
  next
    case True
    from a have live: "\<forall>b. gps (tp (rqs s cpu)) = Some b \<longrightarrow> heap s b \<noteq> None"
      by (auto simp: tp_gps_live_def split: option.splits)
    from tp_switch_schedule_free[OF n live True, of env infp] obtain s' where
      r: "tp_switch_schedule env cpu None infp s = Some (Inr 0, infp, s')" and
      t: "tp (rqs s' cpu) =
       (if gps (tp (rqs s cpu)) = None then (tp (rqs s cpu))\<lparr>gps := None\<rparr>
        else (tp (rqs s cpu))\<lparr>tf_timer := (tf_timer (tp (rqs s cpu)))\<lparr>running := False\<rparr>, gps := None\<rparr>)" and
      h: "heap s' = (case gps (tp (rqs s cpu)) of None \<Rightarrow> heap s
                | Some b \<Rightarrow> (if map_option refcount (heap s b) = Some 1 then (heap s)(b := None)
                             else (heap s)(b := map_option (\<lambda>g. g\<lparr>refcount := refcount g - 1\<rparr>) (heap s b))))"
      by blast
    have "gps (tp (rqs s' cpu)) = None" unfolding t by simp
    moreover have "\<forall>b gb. gps (tp (rqs s cpu)) = Some b \<and> heap s b = Some gb \<longrightarrow>
               heap s' b = (if refcount gb = 1 then None
                            else Some (gb\<lparr>refcount := refcount gb - 1\<rparr>))"
      unfolding h by auto
    ultimately show ?thesis unfolding e using r True by simp
  qed
qed

theorem tp_install_empty_is_uninstall_witness:
  "op install_none = evl_tp_install \<and> nr_windows install_none \<le> 0 \<and>
   tp_cpu_ok example_env 0 \<and> tp_gps_live three_installed 0 \<and>
   threads (tp (rqs three_installed 0)) = [] \<and>
   gps (tp (rqs three_installed 0)) = Some 0 \<and> heap three_installed 0 = Some three_table \<and>
   refcount three_table = 1 \<and>
   tp_control example_env (clock_at 0) None 0 install_none None three_installed =
     tp_control example_env (clock_at 0) None 0 (install_none\<lparr>op := evl_tp_uninstall\<rparr>) None three_installed \<and>
   (\<exists>s'. tp_control example_env (clock_at 0) None 0 install_none None three_installed =
            Some (Inr 0, None, s') \<and>
         gps (tp (rqs s' 0)) = None \<and> heap s' 0 = None)"
proof -
  have h: "op install_none = evl_tp_install" "nr_windows install_none \<le> 0"
    "tp_cpu_ok example_env 0" "tp_gps_live three_installed 0"
    "threads (tp (rqs three_installed 0)) = []"
    "gps (tp (rqs three_installed 0)) = Some 0" "heap three_installed 0 = Some three_table"
    "refcount three_table = 1"
    by code_simp+
  note T = tp_install_empty_is_uninstall[OF h(1,2), of example_env "clock_at 0" None 0 None three_installed]
  from T have eq: "tp_control example_env (clock_at 0) None 0 install_none None three_installed =
     tp_control example_env (clock_at 0) None 0 (install_none\<lparr>op := evl_tp_uninstall\<rparr>) None three_installed"
    by (rule conjunct1)
  from T h(3,4) obtain r s' where
    r: "tp_control example_env (clock_at 0) None 0 install_none None three_installed = Some (r, None, s')"
    and f: "threads (tp (rqs three_installed 0)) = [] \<longrightarrow>
            r = Inr 0 \<and> gps (tp (rqs s' 0)) = None \<and>
            (\<forall>b gb. gps (tp (rqs three_installed 0)) = Some b \<and> heap three_installed b = Some gb \<longrightarrow>
               heap s' b = (if refcount gb = 1 then None
                            else Some (gb\<lparr>refcount := refcount gb - 1\<rparr>)))"
    by blast
  from f h(5) have r0: "r = Inr 0" and g: "gps (tp (rqs s' 0)) = None"
    and d: "\<forall>b gb. gps (tp (rqs three_installed 0)) = Some b \<and> heap three_installed b = Some gb \<longrightarrow>
               heap s' b = (if refcount gb = 1 then None
                            else Some (gb\<lparr>refcount := refcount gb - 1\<rparr>))"
    by blast+
  from d h(6,7,8) have "heap s' 0 = None" by simp
  with r r0 g have "\<exists>s'. tp_control example_env (clock_at 0) None 0 install_none None three_installed =
            Some (Inr 0, None, s') \<and> gps (tp (rqs s' 0)) = None \<and> heap s' 0 = None"
    by blast
  with h eq show ?thesis by blast
qed

subsection \<open>Window lists whose durations do not overflow\<close>

lemma sint_sum_list:
  fixes xs :: "ktime list"
  assumes "\<forall>x \<in> set xs. 0 < sint x" and "sum_list (map sint xs) < 2 ^ 63"
  shows "sint (sum_list xs) = sum_list (map sint xs)"
  using assms
proof (induction xs)
  case Nil then show ?case by simp
next
  case (Cons x xs)
  from Cons.prems have x: "0 < sint x" and p: "\<forall>y \<in> set xs. 0 < sint y" by simp_all
  from p have nn: "0 \<le> sum_list (map sint xs)" by (induction xs) auto
  from Cons.prems(2) x have "sum_list (map sint xs) < 2 ^ 63" by simp
  from Cons.IH[OF p this] have ih: "sint (sum_list xs) = sum_list (map sint xs)" .
  have "sint (x + sum_list xs) = sint x + sint (sum_list xs)"
    using Cons.prems(2) x nn unfolding ih[symmetric]
    by (intro sint_add_64) (simp_all add: ih)
  then show ?case by (simp add: ih)
qed

lemma sum_list_take_le:
  fixes f :: "'a \<Rightarrow> int"
  assumes "\<forall>x \<in> set xs. 0 < f x"
  shows "sum_list (map f (take i xs)) \<le> sum_list (map f xs)"
proof -
  have "sum_list (map f xs) = sum_list (map f (take i xs)) + sum_list (map f (drop i xs))"
    by (metis append_take_drop_id map_append sum_list_append)
  moreover have "0 \<le> sum_list (map f (drop i xs))"
    using assms by (intro sum_list_nonneg) (auto dest: in_set_dropD intro: less_imp_le)
  ultimately show ?thesis by simp
qed

lemma tp_prefix_sum:
  assumes pos: "\<forall>i<length ws. 0 < sint (u_timespec_to_ktime env (duration (ws ! i)))"
    and bound: "tp_frame_sum env ws < 2 ^ 63"
  shows "sint (sum_list (map (\<lambda>p. u_timespec_to_ktime env (duration p)) (take i ws))) =
         sum_list (map (\<lambda>p. sint (u_timespec_to_ktime env (duration p))) (take i ws))"
proof -
  let ?D = "\<lambda>p. u_timespec_to_ktime env (duration p)"
  from pos have p: "\<forall>x \<in> set ws. 0 < sint (?D x)" by (auto simp: in_set_conv_nth)
  then have p': "\<forall>x \<in> set (map ?D (take i ws)). 0 < sint x" by (auto dest: in_set_takeD)
  have "sum_list (map (\<lambda>p. sint (?D p)) (take i ws)) \<le> sum_list (map (\<lambda>p. sint (?D p)) ws)"
    using p by (intro sum_list_take_le) simp
  with bound have "sum_list (map sint (map ?D (take i ws))) < 2 ^ 63"
    by (simp add: tp_frame_sum_def comp_def)
  from sint_sum_list[OF p' this] show ?thesis by (simp add: comp_def)
qed

lemma tp_windows_valid_contiguous:
  assumes bound: "tp_frame_sum env ws < 2 ^ 63"
  shows "tp_windows_valid env ws \<longleftrightarrow> tp_windows_contiguous env ws"
proof (cases "\<forall>i<length ws. 0 < sint (u_timespec_to_ktime env (duration (ws ! i)))")
  case False
  then show ?thesis by (auto simp: tp_windows_valid_def tp_windows_contiguous_def)
next
  case True
  note s = tp_prefix_sum[OF True bound]
  have "(u_timespec_to_ktime env (offset (ws ! i)) =
          sum_list (map (\<lambda>p. u_timespec_to_ktime env (duration p)) (take i ws))) \<longleftrightarrow>
        (sint (u_timespec_to_ktime env (offset (ws ! i))) =
          sum_list (map (\<lambda>p. sint (u_timespec_to_ktime env (duration p))) (take i ws)))" for i
    unfolding s[of i, symmetric] by (auto intro: signed_word_eqI)
  then show ?thesis by (simp add: tp_windows_valid_def tp_windows_contiguous_def)
qed

lemma tp_table_of_sums:
  assumes v: "tp_windows_contiguous env ws" and bound: "tp_frame_sum env ws < 2 ^ 63"
  shows "sint (tf_duration (tp_table_of env ws)) = tp_frame_sum env ws"
    and "i < length ws \<Longrightarrow>
         sint (w_offset (pwins (tp_table_of env ws) ! i)) =
           sum_list (map (\<lambda>p. sint (u_timespec_to_ktime env (duration p))) (take i ws)) \<and>
         w_part (pwins (tp_table_of env ws) ! i) = ptid (ws ! i)"
proof -
  from v have pos: "\<forall>i<length ws. 0 < sint (u_timespec_to_ktime env (duration (ws ! i)))"
    by (simp add: tp_windows_contiguous_def)
  note s = tp_prefix_sum[OF pos bound]
  from s[of "length ws"] show "sint (tf_duration (tp_table_of env ws)) = tp_frame_sum env ws"
    by (simp add: tp_table_of_def tp_frame_sum_def)
  show "sint (w_offset (pwins (tp_table_of env ws) ! i)) =
           sum_list (map (\<lambda>p. sint (u_timespec_to_ktime env (duration p))) (take i ws)) \<and>
         w_part (pwins (tp_table_of env ws) ! i) = ptid (ws ! i)" if "i < length ws"
    using that s[of i] by (simp add: tp_table_of_def)
qed

lemma sum_take_less:
  fixes f :: "'a \<Rightarrow> int"
  assumes pos: "\<forall>i<length xs. 0 < f (xs ! i)" and ij: "i < j" "j \<le> length xs"
  shows "sum_list (map f (take i xs)) < sum_list (map f (take j xs))"
  using ij
proof (induction j)
  case 0 then show ?case by simp
next
  case (Suc j)
  then have jl: "j < length xs" by simp
  with pos have p: "0 < f (xs ! j)" by simp
  have e: "sum_list (map f (take (Suc j) xs)) = sum_list (map f (take j xs)) + f (xs ! j)"
    using jl by (simp add: take_Suc_conv_app_nth)
  show ?case
  proof (cases "i = j")
    case True with e p show ?thesis by simp
  next
    case False
    with Suc have "sum_list (map f (take i xs)) < sum_list (map f (take j xs))" by simp
    with e p show ?thesis by simp
  qed
qed

lemma tp_contiguous_increasing:
  assumes v: "tp_windows_contiguous env ws"
  shows "i < j \<Longrightarrow> j < length ws \<Longrightarrow>
           sint (u_timespec_to_ktime env (offset (ws ! i))) <
           sint (u_timespec_to_ktime env (offset (ws ! j)))"
    and "i < length ws \<Longrightarrow>
           sint (u_timespec_to_ktime env (offset (ws ! i))) < tp_frame_sum env ws"
    and "ws \<noteq> [] \<Longrightarrow> sint (u_timespec_to_ktime env (offset (ws ! 0))) = 0"
proof -
  let ?f = "\<lambda>p. sint (u_timespec_to_ktime env (duration p))"
  from v have pos: "\<forall>i<length ws. 0 < ?f (ws ! i)"
    and off: "\<forall>i<length ws. sint (u_timespec_to_ktime env (offset (ws ! i))) =
                sum_list (map ?f (take i ws))"
    by (simp_all add: tp_windows_contiguous_def)
  show "sint (u_timespec_to_ktime env (offset (ws ! i))) <
           sint (u_timespec_to_ktime env (offset (ws ! j)))" if "i < j" "j < length ws"
    using sum_take_less[OF pos that(1), of ] that off by simp
  show "sint (u_timespec_to_ktime env (offset (ws ! i))) < tp_frame_sum env ws" if "i < length ws"
    using sum_take_less[OF pos that, of ] that off by (simp add: tp_frame_sum_def)
  show "sint (u_timespec_to_ktime env (offset (ws ! 0))) = 0" if "ws \<noteq> []"
    using that off by simp
qed

text \<open>
  \<^bold>\<open>C3\<close> (as amended). Take an install request for at least one window, on a valid CPU, whose
  durations add up to less than \<open>2\<^sup>6\<^sup>3\<close> ns. If the allocator returns no block the request
  returns \<^verbatim>\<open>-ENOMEM\<close> and the state is the one before the call, whatever the list. Let the
  allocator return an unused address. If the window list is not contiguous (the first
  offset is not 0, an offset is not the sum of the durations before it, a duration is not
  positive, or a partition is neither in \<^verbatim>\<open>[0, CONFIG_EVL_SCHED_TP_NR_PART)\<close> nor \<open>-1\<close>), the
  request returns \<^verbatim>\<open>-EINVAL\<close> and the state is the one before the call: nothing of any run
  queue has changed and the candidate table is no longer in the store. If the list is
  contiguous the request is not rejected with \<^verbatim>\<open>-EINVAL\<close>; when no thread is attached the
  table installed has a window per entry of the list, at the sum of the durations before it
  and for its partition, and \<^verbatim>\<open>tf_duration\<close> is the sum of all durations.
\<close>

theorem tp_install_validation:
  assumes cpu: "tp_cpu_ok env cpu"
    and nr: "0 \<le> CONFIG_EVL_SCHED_TP_NR_PART env"
    and req: "op pt = evl_tp_install" "0 < nr_windows pt"
             "nr_windows pt = int (length (windows pt))"
    and bound: "tp_frame_sum env (windows pt) < 2 ^ 63"
    and fresh: "heap s a = None"
    and live: "tp_gps_live s cpu"
  shows "tp_control env clk None cpu pt infp s = Some (Inl ENOMEM, infp, s) \<and>
         (\<not> tp_windows_contiguous env (windows pt) \<longrightarrow>
            tp_control env clk (Some a) cpu pt infp s = Some (Inl EINVAL, infp, s)) \<and>
         (tp_windows_contiguous env (windows pt) \<longrightarrow>
            (\<exists>r s'. tp_control env clk (Some a) cpu pt infp s = Some (r, infp, s') \<and>
               r \<noteq> Inl EINVAL \<and>
               (threads (tp (rqs s cpu)) = [] \<longrightarrow>
                  r = Inr 0 \<and> gps (tp (rqs s' cpu)) = Some a \<and>
                  (\<exists>g. heap s' a = Some g \<and> tp_schedule_ok env g \<and>
                     pwin_nr g = nr_windows pt \<and> refcount g = 1 \<and>
                     sint (tf_duration g) = tp_frame_sum env (windows pt) \<and>
                     (\<forall>i \<in> {0..<length (windows pt)}.
                        sint (w_offset (pwins g ! i)) =
                          sum_list (map (\<lambda>p. sint (u_timespec_to_ktime env (duration p)))
                                      (take i (windows pt))) \<and>
                        w_part (pwins g ! i) = ptid (windows pt ! i))))))"
proof (intro conjI impI)
  from cpu have c: "\<not> (cpu < 0 \<or> \<not> cpu_present env cpu \<or> \<not> is_threading_cpu env cpu)"
    by (auto simp: tp_cpu_ok_def)
  show "tp_control env clk None cpu pt infp s = Some (Inl ENOMEM, infp, s)"
    using c req by (simp add: tp_control_def tp_install_schedule_def)
  note vc = tp_windows_valid_contiguous[OF bound]
  {
    assume inv: "\<not> tp_windows_contiguous env (windows pt)"
    show "tp_control env clk (Some a) cpu pt infp s = Some (Inl EINVAL, infp, s)"
      using c req inv tp_install_schedule_eq[OF nr req(3) fresh, of cpu infp]
      by (simp add: tp_control_def vc)
  }
  {
    assume v: "tp_windows_contiguous env (windows pt)"
    let ?g = "tp_table_of env (windows pt)"
    have rq: "tp_switch_request env s (Some a) pt (Some a)"
      using req v fresh by (simp add: tp_switch_request_def deref_def vc)
    from req have ne: "windows pt \<noteq> []" by auto
    from v have v': "tp_windows_valid env (windows pt)" by (simp add: vc)
    have g: "tp_schedule_ok env ?g \<and> pwin_nr ?g = nr_windows pt \<and> refcount ?g = 1 \<and>
             sint (tf_duration ?g) = tp_frame_sum env (windows pt) \<and>
             (\<forall>i \<in> {0..<length (windows pt)}.
                sint (w_offset (pwins ?g ! i)) =
                  sum_list (map (\<lambda>p. sint (u_timespec_to_ktime env (duration p)))
                              (take i (windows pt))) \<and>
                w_part (pwins ?g ! i) = ptid (windows pt ! i))"
      using tp_table_of_ok[OF nr v' ne] tp_table_of_sums[OF v bound] req
      by (simp add: tp_table_of_def)
    show "\<exists>r s'. tp_control env clk (Some a) cpu pt infp s = Some (r, infp, s') \<and>
               r \<noteq> Inl EINVAL \<and>
               (threads (tp (rqs s cpu)) = [] \<longrightarrow>
                  r = Inr 0 \<and> gps (tp (rqs s' cpu)) = Some a \<and>
                  (\<exists>g. heap s' a = Some g \<and> tp_schedule_ok env g \<and>
                     pwin_nr g = nr_windows pt \<and> refcount g = 1 \<and>
                     sint (tf_duration g) = tp_frame_sum env (windows pt) \<and>
                     (\<forall>i \<in> {0..<length (windows pt)}.
                        sint (w_offset (pwins g ! i)) =
                          sum_list (map (\<lambda>p. sint (u_timespec_to_ktime env (duration p)))
                                      (take i (windows pt))) \<and>
                        w_part (pwins g ! i) = ptid (windows pt ! i))))"
    proof (cases "threads (tp (rqs s cpu)) = []")
      case False
      from tp_control_switch_busy[OF cpu nr rq False] show ?thesis using False by simp
    next
      case True
      from tp_control_switch_free[OF cpu nr rq live True, of clk infp] obtain s' where
        s': "tp_control env clk (Some a) cpu pt infp s = Some (Inr 0, infp, s')"
        "tp (rqs s' cpu) =
         (if gps (tp (rqs s cpu)) = None then (tp (rqs s cpu))\<lparr>gps := Some a\<rparr>
          else (tp (rqs s cpu))\<lparr>tf_timer := (tf_timer (tp (rqs s cpu)))\<lparr>running := False\<rparr>, gps := Some a\<rparr>)"
        "\<forall>x. Some a = Some x \<longrightarrow> heap s' x = Some ?g"
        by blast
      from s'(2) have "gps (tp (rqs s' cpu)) = Some a" by (simp split: if_splits)
      moreover from s'(3) have "heap s' a = Some ?g" by simp
      ultimately show ?thesis using s'(1) g by blast
    qed
  }
qed

theorem tp_install_validation_witness:
  "tp_cpu_ok example_env 0 \<and> 0 \<le> CONFIG_EVL_SCHED_TP_NR_PART example_env \<and>
   heap boot_sys 0 = None \<and> tp_gps_live boot_sys 0 \<and> threads (tp (rqs boot_sys 0)) = [] \<and>
   tp_frame_sum example_env (windows install_gap) < 2 ^ 63 \<and>
   \<not> tp_windows_contiguous example_env (windows install_gap) \<and>
   tp_control example_env (clock_at 0) (Some 0) 0 install_gap None boot_sys =
     Some (Inl EINVAL, None, boot_sys) \<and>
   tp_frame_sum example_env (windows install_part4) < 2 ^ 63 \<and>
   \<not> tp_windows_contiguous example_env (windows install_part4) \<and>
   tp_control example_env (clock_at 0) (Some 0) 0 install_part4 None boot_sys =
     Some (Inl EINVAL, None, boot_sys) \<and>
   tp_frame_sum example_env (windows install_three) < 2 ^ 63 \<and>
   tp_windows_contiguous example_env (windows install_three) \<and>
   tp_control example_env (clock_at 0) None 0 install_three None boot_sys =
     Some (Inl ENOMEM, None, boot_sys) \<and>
   (\<exists>s' g. tp_control example_env (clock_at 0) (Some 0) 0 install_three None boot_sys =
            Some (Inr 0, None, s') \<and>
          gps (tp (rqs s' 0)) = Some 0 \<and> heap s' 0 = Some g \<and> pwin_nr g = 3 \<and>
          sint (tf_duration g) = 25000000 \<and>
          sint (w_offset (pwins g ! 2)) = 15000000 \<and> w_part (pwins g ! 2) = 1)"
proof -
  have h: "tp_cpu_ok example_env 0" "0 \<le> CONFIG_EVL_SCHED_TP_NR_PART example_env"
    "heap boot_sys 0 = None" "tp_gps_live boot_sys 0" "threads (tp (rqs boot_sys 0)) = []"
    by code_simp+
  have g: "op install_gap = evl_tp_install" "0 < nr_windows install_gap"
    "nr_windows install_gap = int (length (windows install_gap))"
    "tp_frame_sum example_env (windows install_gap) < 2 ^ 63"
    "\<not> tp_windows_contiguous example_env (windows install_gap)" by code_simp+
  have p: "op install_part4 = evl_tp_install" "0 < nr_windows install_part4"
    "nr_windows install_part4 = int (length (windows install_part4))"
    "tp_frame_sum example_env (windows install_part4) < 2 ^ 63"
    "\<not> tp_windows_contiguous example_env (windows install_part4)" by code_simp+
  have t: "op install_three = evl_tp_install" "0 < nr_windows install_three"
    "nr_windows install_three = int (length (windows install_three))"
    "tp_frame_sum example_env (windows install_three) < 2 ^ 63"
    "tp_windows_contiguous example_env (windows install_three)" by code_simp+
  have v: "nr_windows install_three = 3" "tp_frame_sum example_env (windows install_three) = 25000000"
    "length (windows install_three) = 3"
    "sum_list (map (\<lambda>p. sint (u_timespec_to_ktime example_env (duration p)))
        (take 2 (windows install_three))) = 15000000"
    "ptid (windows install_three ! 2) = 1"
    by code_simp+
  from tp_install_validation[OF h(1,2) g(1,2,3,4) h(3,4), of "clock_at 0" None] g(5)
  have 1: "tp_control example_env (clock_at 0) (Some 0) 0 install_gap None boot_sys =
     Some (Inl EINVAL, None, boot_sys)" by blast
  from tp_install_validation[OF h(1,2) p(1,2,3,4) h(3,4), of "clock_at 0" None] p(5)
  have 2: "tp_control example_env (clock_at 0) (Some 0) 0 install_part4 None boot_sys =
     Some (Inl EINVAL, None, boot_sys)" by blast
  note T = tp_install_validation[OF h(1,2) t(1,2,3,4) h(3,4), of "clock_at 0" None]
  from T have 3: "tp_control example_env (clock_at 0) None 0 install_three None boot_sys =
     Some (Inl ENOMEM, None, boot_sys)" by blast
  from T t(5) h(5) obtain r s' g where
    r: "tp_control example_env (clock_at 0) (Some 0) 0 install_three None boot_sys = Some (r, None, s')"
    "r = Inr 0" "gps (tp (rqs s' 0)) = Some 0" "heap s' 0 = Some g"
    "pwin_nr g = nr_windows install_three"
    "sint (tf_duration g) = tp_frame_sum example_env (windows install_three)"
    and w: "\<forall>i \<in> {0..<length (windows install_three)}.
                        sint (w_offset (pwins g ! i)) =
                          sum_list (map (\<lambda>p. sint (u_timespec_to_ktime example_env (duration p)))
                                      (take i (windows install_three))) \<and>
                        w_part (pwins g ! i) = ptid (windows install_three ! i)"
    by blast
  from w have "sint (w_offset (pwins g ! 2)) = 15000000 \<and> w_part (pwins g ! 2) = 1"
    unfolding v(3) using v(4,5) by simp
  with r v have 4: "\<exists>s' g. tp_control example_env (clock_at 0) (Some 0) 0 install_three None boot_sys =
            Some (Inr 0, None, s') \<and>
          gps (tp (rqs s' 0)) = Some 0 \<and> heap s' 0 = Some g \<and> pwin_nr g = 3 \<and>
          sint (tf_duration g) = 25000000 \<and>
          sint (w_offset (pwins g ! 2)) = 15000000 \<and> w_part (pwins g ! 2) = 1"
    by auto
  from h g(4,5) p(4,5) t(4,5) 1 2 3 4 show ?thesis by blast
qed

text \<open>Three departures from the claim as it was stated. The list of two windows of \<open>2\<^sup>6\<^sup>2\<close> ns is
  contiguous and is installed, and the \<^verbatim>\<open>tf_duration\<close> of its table is \<open>-2\<^sup>6\<^sup>3\<close>, not the sum
  \<open>2\<^sup>6\<^sup>3\<close> of the durations. The list with a third window at the offset \<open>-2\<^sup>6\<^sup>3\<close> is not
  contiguous and is installed as well, its offsets not increasing. And a list that is not
  contiguous is answered with \<^verbatim>\<open>-ENOMEM\<close>, not \<^verbatim>\<open>-EINVAL\<close>, when the allocator returns no
  block.\<close>

theorem tp_install_validation_counterexample:
  "tp_windows_contiguous example_env (windows install_big) \<and>
   tp_frame_sum example_env (windows install_big) = 2 ^ 63 \<and>
   ctl_ret (tp_control example_env (clock_at 0) (Some 0) 0 install_big None boot_sys) =
     Some (Inr 0) \<and>
   map_option (\<lambda>g. sint (tf_duration g))
     (heap (ctl_sys (tp_control example_env (clock_at 0) (Some 0) 0 install_big None boot_sys)) 0) =
     Some (- (2 ^ 63)) \<and>
   \<not> tp_windows_contiguous example_env (windows install_wrapped) \<and>
   ctl_ret (tp_control example_env (clock_at 0) (Some 0) 0 install_wrapped None boot_sys) =
     Some (Inr 0) \<and>
   map_option (\<lambda>g. map (\<lambda>w. sint (w_offset w)) (pwins g))
     (heap (ctl_sys (tp_control example_env (clock_at 0) (Some 0) 0 install_wrapped None boot_sys)) 0) =
     Some [0, 2 ^ 62, - (2 ^ 63)] \<and>
   \<not> tp_windows_contiguous example_env (windows install_gap) \<and>
   ctl_ret (tp_control example_env (clock_at 0) None 0 install_gap None boot_sys) =
     Some (Inl ENOMEM)"
  by code_simp

subsection \<open>The busy guard\<close>

text \<open>
  \<^bold>\<open>C4\<close> (as amended). Take a request that reaches the swap: an uninstall request, or an
  install request that is for no window or passes validation and allocation; the CPU is
  valid and its table pointer sound. The request fails with \<^verbatim>\<open>-EBUSY\<close> if and only if a thread
  is attached to the TP class on that CPU (\<^verbatim>\<open>rq->tp.threads\<close> is not empty). On that failure
  the run queues, the threads and the store are as before the call (the installed table,
  the timer and the rest of the TP state are untouched, the candidate table is freed); the
  lock was taken and released. When no thread is attached the request returns 0: inside
  one critical section the timer is stopped (if a table was installed) and the table
  pointer is replaced; after the lock has been released one reference to the previous
  table is dropped, which frees it when that was the last reference.
\<close>

theorem tp_switch_busy_guard:
  assumes cpu: "tp_cpu_ok env cpu"
    and nr: "0 \<le> CONFIG_EVL_SCHED_TP_NR_PART env"
    and req: "tp_switch_request env s alloc pt new"
    and live: "tp_gps_live s cpu"
  shows "\<exists>r s'. tp_control env clk alloc cpu pt infp s = Some (r, infp, s') \<and>
     (r = Inl EBUSY \<longleftrightarrow> threads (tp (rqs s cpu)) \<noteq> []) \<and>
     (threads (tp (rqs s cpu)) \<noteq> [] \<longrightarrow>
        rqs s' = rqs s \<and> thr s' = thr s \<and> heap s' = heap s \<and>
        trace s' = trace s @ [Lock cpu, Unlock cpu]) \<and>
     (threads (tp (rqs s cpu)) = [] \<longrightarrow>
        r = Inr 0 \<and>
        tp (rqs s' cpu) =
          (if gps (tp (rqs s cpu)) = None then (tp (rqs s cpu))\<lparr>gps := new\<rparr>
           else (tp (rqs s cpu))\<lparr>tf_timer := (tf_timer (tp (rqs s cpu)))\<lparr>running := False\<rparr>,
                                   gps := new\<rparr>) \<and>
        trace s' = trace s @ [Lock cpu] @
                   (if gps (tp (rqs s cpu)) = None then [] else [TimerStop cpu]) @
                   [GpsStore cpu new, Unlock cpu] @
                   (case gps (tp (rqs s cpu)) of None \<Rightarrow> [] | Some b \<Rightarrow> [RefPut b]) @ [Schedule] \<and>
        (\<forall>b gb. gps (tp (rqs s cpu)) = Some b \<and> heap s b = Some gb \<longrightarrow>
           heap s' b = (if refcount gb = 1 then None
                        else Some (gb\<lparr>refcount := refcount gb - 1\<rparr>))) \<and>
        (\<forall>a. new = Some a \<longrightarrow> heap s' a = Some (tp_table_of env (windows pt))))"
proof (cases "threads (tp (rqs s cpu)) = []")
  case False
  from tp_control_switch_busy[OF cpu nr req False, of clk infp] False
  show ?thesis by simp
next
  case True
  from tp_control_switch_free[OF cpu nr req live True, of clk infp] obtain s' where
    "tp_control env clk alloc cpu pt infp s = Some (Inr 0, infp, s')"
    "tp (rqs s' cpu) =
       (if gps (tp (rqs s cpu)) = None then (tp (rqs s cpu))\<lparr>gps := new\<rparr>
        else (tp (rqs s cpu))\<lparr>tf_timer := (tf_timer (tp (rqs s cpu)))\<lparr>running := False\<rparr>, gps := new\<rparr>)"
    "trace s' = trace s @ [Lock cpu] @ (if gps (tp (rqs s cpu)) = None then [] else [TimerStop cpu]) @
                [GpsStore cpu new, Unlock cpu] @
                (case gps (tp (rqs s cpu)) of None \<Rightarrow> [] | Some b \<Rightarrow> [RefPut b]) @ [Schedule]"
    "\<forall>b gb. gps (tp (rqs s cpu)) = Some b \<and> heap s b = Some gb \<longrightarrow>
        heap s' b = (if refcount gb = 1 then None else Some (gb\<lparr>refcount := refcount gb - 1\<rparr>))"
    "\<forall>a. new = Some a \<longrightarrow> heap s' a = Some (tp_table_of env (windows pt))"
    by blast
  with True show ?thesis by simp
qed

text \<open>Thread 5 attached: uninstalling and installing fail with \<^verbatim>\<open>-EBUSY\<close>; once the thread has
  been forgotten, uninstalling succeeds.\<close>

theorem tp_switch_busy_guard_witness:
  "tp_cpu_ok example_env 0 \<and> 0 \<le> CONFIG_EVL_SCHED_TP_NR_PART example_env \<and>
   tp_switch_request example_env attached_sys None uninstall_req None \<and>
   tp_switch_request example_env attached_sys (Some 1) install_three (Some 1) \<and>
   tp_gps_live attached_sys 0 \<and> threads (tp (rqs attached_sys 0)) = [5] \<and>
   tp_switch_request example_env (tp_forget 5 attached_sys) None uninstall_req None \<and>
   tp_gps_live (tp_forget 5 attached_sys) 0 \<and> threads (tp (rqs (tp_forget 5 attached_sys) 0)) = [] \<and>
   (\<exists>s'. tp_control example_env (clock_at 0) None 0 uninstall_req None attached_sys =
            Some (Inl EBUSY, None, s') \<and> rqs s' = rqs attached_sys \<and> heap s' = heap attached_sys) \<and>
   (\<exists>s'. tp_control example_env (clock_at 0) (Some 1) 0 install_three None attached_sys =
            Some (Inl EBUSY, None, s') \<and> rqs s' = rqs attached_sys \<and> heap s' = heap attached_sys) \<and>
   (\<exists>s'. tp_control example_env (clock_at 0) None 0 uninstall_req None (tp_forget 5 attached_sys) =
            Some (Inr 0, None, s') \<and> gps (tp (rqs s' 0)) = None)"
proof -
  have h: "tp_cpu_ok example_env 0" "0 \<le> CONFIG_EVL_SCHED_TP_NR_PART example_env"
    "tp_switch_request example_env attached_sys None uninstall_req None"
    "tp_switch_request example_env attached_sys (Some 1) install_three (Some 1)"
    "tp_gps_live attached_sys 0" "threads (tp (rqs attached_sys 0)) = [5]"
    "tp_switch_request example_env (tp_forget 5 attached_sys) None uninstall_req None"
    "tp_gps_live (tp_forget 5 attached_sys) 0"
    "threads (tp (rqs (tp_forget 5 attached_sys) 0)) = []"
    by code_simp+
  from tp_switch_busy_guard[OF h(1,2,3,5), of "clock_at 0" None] h(6)
  have 1: "\<exists>s'. tp_control example_env (clock_at 0) None 0 uninstall_req None attached_sys =
            Some (Inl EBUSY, None, s') \<and> rqs s' = rqs attached_sys \<and> heap s' = heap attached_sys"
    by auto
  from tp_switch_busy_guard[OF h(1,2,4,5), of "clock_at 0" None] h(6)
  have 2: "\<exists>s'. tp_control example_env (clock_at 0) (Some 1) 0 install_three None attached_sys =
            Some (Inl EBUSY, None, s') \<and> rqs s' = rqs attached_sys \<and> heap s' = heap attached_sys"
    by auto
  from tp_switch_busy_guard[OF h(1,2,7,8), of "clock_at 0" None] h(9)
  have 3: "\<exists>s'. tp_control example_env (clock_at 0) None 0 uninstall_req None (tp_forget 5 attached_sys) =
            Some (Inr 0, None, s') \<and> gps (tp (rqs s' 0)) = None"
    by auto
  from h 1 2 3 show ?thesis by blast
qed

text \<open>With thread 5 attached, an install request with a malformed window list fails with
  \<^verbatim>\<open>-EINVAL\<close>, not \<^verbatim>\<open>-EBUSY\<close>. When an uninstall request succeeds, the reference to the previous
  table is dropped after the lock has been released.\<close>

theorem tp_switch_busy_guard_counterexample:
  "threads (tp (rqs attached_sys 0)) = [5] \<and>
   ctl_ret (tp_control example_env (clock_at 0) (Some 1) 0 install_gap None attached_sys) =
     Some (Inl EINVAL) \<and>
   threads (tp (rqs three_installed 0)) = [] \<and>
   ctl_ret (tp_control example_env (clock_at 0) None 0 uninstall_req None three_installed) =
     Some (Inr 0) \<and>
   trace (ctl_sys (tp_control example_env (clock_at 0) None 0 uninstall_req None three_installed)) =
     trace three_installed @ [Lock 0, TimerStop 0, GpsStore 0 None, Unlock 0, RefPut 0, Schedule]"
  by code_simp

subsection \<open>Overrun notification\<close>




subsection \<open>Reading the schedule back\<close>

lemma upd_Some [simp]:
  "0 \<le> i \<Longrightarrow> nat i < length xs \<Longrightarrow> upd xs i f = Some (xs[nat i := f (xs ! nat i)])"
  by (simp add: upd_def)

lemma tp_get_loop_from:
  assumes "0 < n" "n \<le> nr" "nr \<le> length (pwins g)" "nr \<le> length out0"
    and "length cur = length out0"
    and "\<forall>i<length out0.
           (i < n \<longrightarrow> offset (cur ! i) = ktime_to_u_timespec env (w_offset (pwins g ! i)) \<and>
                      ptid (cur ! i) = w_part (pwins g ! i) \<and>
                      (i + 1 < n \<longrightarrow> duration (cur ! i) =
                         ktime_to_u_timespec env (w_offset (pwins g ! (i + 1)) - w_offset (pwins g ! i)))) \<and>
           (n \<le> i \<longrightarrow> cur ! i = out0 ! i)"
  shows "\<exists>res. tp_get_loop env g (int nr) (int n) (int n) (int (n - 1)) (int n) (int (n - 1)) cur =
                 Some (res, int (nr - 1), int (nr - 1)) \<and>
           length res = length out0 \<and>
           (\<forall>i<length out0.
             (i < nr \<longrightarrow> offset (res ! i) = ktime_to_u_timespec env (w_offset (pwins g ! i)) \<and>
                      ptid (res ! i) = w_part (pwins g ! i) \<and>
                      (i + 1 < nr \<longrightarrow> duration (res ! i) =
                         ktime_to_u_timespec env (w_offset (pwins g ! (i + 1)) - w_offset (pwins g ! i)))) \<and>
             (nr \<le> i \<longrightarrow> res ! i = out0 ! i))"
  using assms
proof (induction "nr - n" arbitrary: n cur)
  case 0
  then have "n = nr" by simp
  with 0 show ?case by (subst tp_get_loop.simps) simp
next
  case (Suc d)
  let ?k = "ktime_to_u_timespec env"
  let ?W = "pwins g"
  from Suc.hyps(2) have lt: "n < nr" by simp
  with Suc.prems have b: "n < length ?W" "n < length cur" "n - 1 < length ?W" "n - 1 < length cur"
    "n - 1 < n" by simp_all
  let ?o1 = "cur[n := (cur ! n)\<lparr>offset := ?k (w_offset (?W ! n))\<rparr>]"
  let ?o2 = "?o1[n - 1 := (?o1 ! (n - 1))\<lparr>duration := ?k (w_offset (?W ! n) - w_offset (?W ! (n - 1)))\<rparr>]"
  let ?o3 = "?o2[n := (?o2 ! n)\<lparr>ptid := w_part (?W ! n)\<rparr>]"
  have n1: "nat (int n - 1) = n - 1" "0 \<le> int n - 1" using Suc.prems(1) by simp_all
  have step: "tp_get_loop env g (int nr) (int n) (int n) (int (n - 1)) (int n) (int (n - 1)) cur =
      tp_get_loop env g (int nr) (int (Suc n)) (int (Suc n)) (int (Suc n - 1)) (int (Suc n))
        (int (Suc n - 1)) ?o3"
    using lt b Suc.prems(1)
    by (subst tp_get_loop.simps) (simp add: add.commute n1)
  have d: "d = nr - Suc n" using Suc.hyps(2) by simp
  have l3: "length ?o3 = length out0" using Suc.prems(5) by simp
  have inv: "\<forall>i<length out0.
           (i < Suc n \<longrightarrow> offset (?o3 ! i) = ?k (w_offset (?W ! i)) \<and>
                      ptid (?o3 ! i) = w_part (?W ! i) \<and>
                      (i + 1 < Suc n \<longrightarrow> duration (?o3 ! i) =
                         ?k (w_offset (?W ! (i + 1)) - w_offset (?W ! i)))) \<and>
           (Suc n \<le> i \<longrightarrow> ?o3 ! i = out0 ! i)"
  proof (intro allI impI)
    fix i assume i: "i < length out0"
    consider "i = n" | "i = n - 1" "i \<noteq> n" | "i \<noteq> n" "i \<noteq> n - 1" by blast
    then show "(i < Suc n \<longrightarrow> offset (?o3 ! i) = ?k (w_offset (?W ! i)) \<and>
                      ptid (?o3 ! i) = w_part (?W ! i) \<and>
                      (i + 1 < Suc n \<longrightarrow> duration (?o3 ! i) =
                         ?k (w_offset (?W ! (i + 1)) - w_offset (?W ! i)))) \<and>
           (Suc n \<le> i \<longrightarrow> ?o3 ! i = out0 ! i)"
    proof cases
      case 1
      then show ?thesis using b Suc.prems(1) by (simp add: nth_list_update)
    next
      case 2
      with Suc.prems(6) i have "offset (cur ! i) = ?k (w_offset (?W ! i))"
        "ptid (cur ! i) = w_part (?W ! i)" using Suc.prems(1) by auto
      with 2 show ?thesis using b Suc.prems(1) by (simp add: nth_list_update)
    next
      case 3
      then have e: "?o3 ! i = cur ! i" by (simp add: nth_list_update)
      from 3 have "i < n - 1 \<or> Suc n \<le> i" by arith
      then show ?thesis
      proof
        assume "i < n - 1"
        with Suc.prems(6) i show ?thesis unfolding e by auto
      next
        assume "Suc n \<le> i"
        with Suc.prems(6) i show ?thesis unfolding e by auto
      qed
    qed
  qed
  have sn: "0 < Suc n" "Suc n \<le> nr" using lt by simp_all
  from Suc.hyps(1)[OF d sn Suc.prems(3,4) l3 inv] show ?case unfolding step .
qed

lemma tp_get_loop_none:
  "nr \<le> 0 \<Longrightarrow> tp_get_loop env g nr 0 0 0 0 0 out = Some (out, 0, 0)"
  by (subst tp_get_loop.simps) simp

lemma tp_get_loop_full:
  assumes nr: "0 < nr" "nr \<le> length (pwins g)" "nr \<le> length out0"
  shows "\<exists>res. tp_get_loop env g (int nr) 0 0 0 0 0 out0 = Some (res, int (nr - 1), int (nr - 1)) \<and>
           length res = length out0 \<and>
           (\<forall>i<length out0.
             (i < nr \<longrightarrow> offset (res ! i) = ktime_to_u_timespec env (w_offset (pwins g ! i)) \<and>
                      ptid (res ! i) = w_part (pwins g ! i) \<and>
                      (i + 1 < nr \<longrightarrow> duration (res ! i) =
                         ktime_to_u_timespec env (w_offset (pwins g ! (i + 1)) - w_offset (pwins g ! i)))) \<and>
             (nr \<le> i \<longrightarrow> res ! i = out0 ! i))"
proof -
  let ?k = "ktime_to_u_timespec env"
  let ?W = "pwins g"
  let ?o3 = "out0[0 := (out0 ! 0)\<lparr>offset := ?k (w_offset (?W ! 0)), duration := ?k 0,
                                  ptid := w_part (?W ! 0)\<rparr>]"
  from nr have b: "0 < length ?W" "0 < length out0" by auto
  have step: "tp_get_loop env g (int nr) 0 0 0 0 0 out0 =
      tp_get_loop env g (int nr) (int 1) (int 1) (int (1 - 1)) (int 1) (int (1 - 1)) ?o3"
    using nr b by (subst tp_get_loop.simps) simp
  have l: "length ?o3 = length out0" by simp
  have inv: "\<forall>i<length out0.
           (i < 1 \<longrightarrow> offset (?o3 ! i) = ?k (w_offset (?W ! i)) \<and>
                      ptid (?o3 ! i) = w_part (?W ! i) \<and>
                      (i + 1 < 1 \<longrightarrow> duration (?o3 ! i) =
                         ?k (w_offset (?W ! (i + 1)) - w_offset (?W ! i)))) \<and>
           (1 \<le> i \<longrightarrow> ?o3 ! i = out0 ! i)"
    using b by (auto simp: nth_list_update)
  have one: "(0::nat) < 1" "1 \<le> nr" using nr by simp_all
  from tp_get_loop_from[OF one nr(2,3) l inv] show ?thesis unfolding step .
qed

lemma tp_copied_fixup:
  assumes nr: "0 < nr" "nr \<le> length out0" and l: "length res = length out0"
    and f: "\<forall>i<length out0.
             (i < nr \<longrightarrow> offset (res ! i) = ktime_to_u_timespec env (w_offset (pwins g ! i)) \<and>
                      ptid (res ! i) = w_part (pwins g ! i) \<and>
                      (i + 1 < nr \<longrightarrow> duration (res ! i) =
                         ktime_to_u_timespec env (w_offset (pwins g ! (i + 1)) - w_offset (pwins g ! i)))) \<and>
             (nr \<le> i \<longrightarrow> res ! i = out0 ! i)"
  shows "res[nr - 1 := (res ! (nr - 1))\<lparr>duration :=
            ktime_to_u_timespec env (tf_duration g - w_offset (pwins g ! (nr - 1)))\<rparr>] =
         tp_copied env g nr out0"
proof (rule nth_equalityI)
  show "length (res[nr - 1 := (res ! (nr - 1))\<lparr>duration :=
            ktime_to_u_timespec env (tf_duration g - w_offset (pwins g ! (nr - 1)))\<rparr>]) =
        length (tp_copied env g nr out0)"
    using l by (simp add: tp_copied_def)
next
  fix i assume "i < length (res[nr - 1 := (res ! (nr - 1))\<lparr>duration :=
            ktime_to_u_timespec env (tf_duration g - w_offset (pwins g ! (nr - 1)))\<rparr>])"
  then have i: "i < length out0" using l by simp
  consider "i = nr - 1" | "i < nr - 1" | "nr \<le> i" using nr by arith
  then show "res[nr - 1 := (res ! (nr - 1))\<lparr>duration :=
            ktime_to_u_timespec env (tf_duration g - w_offset (pwins g ! (nr - 1)))\<rparr>] ! i =
         tp_copied env g nr out0 ! i"
  proof cases
    case 1
    with f i nr have "offset (res ! i) = ktime_to_u_timespec env (w_offset (pwins g ! i))"
      "ptid (res ! i) = w_part (pwins g ! i)" by auto
    with 1 i l nr show ?thesis by (simp add: tp_copied_def)
  next
    case 2
    with f i have "offset (res ! i) = ktime_to_u_timespec env (w_offset (pwins g ! i))"
      "ptid (res ! i) = w_part (pwins g ! i)"
      "duration (res ! i) =
         ktime_to_u_timespec env (w_offset (pwins g ! (i + 1)) - w_offset (pwins g ! i))"
      by auto
    moreover from 2 have "i \<noteq> nr - 1" "i < nr" "i + 1 < nr" by arith+
    ultimately show ?thesis using i l by (simp add: tp_copied_def)
  next
    case 3
    with f i have "res ! i = out0 ! i" by auto
    moreover from 3 nr have "i \<noteq> nr - 1" by arith
    ultimately show ?thesis using 3 i l by (simp add: tp_copied_def)
  qed
qed

lemma tp_copied_refcount [simp]:
  "tp_copied env (g\<lparr>refcount := r\<rparr>) n out = tp_copied env g n out"
  by (simp add: tp_copied_def)

lemma tp_get_refcount:
  assumes h: "gps (tp (rqs s cpu)) = Some a" "heap s a = Some g" and rc: "refcount g \<noteq> 0"
  shows "get_tp_schedule cpu (emit (Lock cpu) s) =
           Some (Some a, emit (RefGet a)
                   ((emit (Lock cpu) s)\<lparr>heap := (heap s)(a \<mapsto> g\<lparr>refcount := refcount g + 1\<rparr>)\<rparr>))"
    and "put_tp_schedule a (emit (Unlock cpu) (emit (RefGet a)
            ((emit (Lock cpu) s)\<lparr>heap := (heap s)(a \<mapsto> g\<lparr>refcount := refcount g + 1\<rparr>)\<rparr>))) =
         Some (s\<lparr>trace := trace s @ [Lock cpu, RefGet a, Unlock cpu, RefPut a]\<rparr>)"
proof -
  show "get_tp_schedule cpu (emit (Lock cpu) s) =
           Some (Some a, emit (RefGet a)
                   ((emit (Lock cpu) s)\<lparr>heap := (heap s)(a \<mapsto> g\<lparr>refcount := refcount g + 1\<rparr>)\<rparr>))"
    using h by (simp add: get_tp_schedule_def)
  have "(heap s)(a \<mapsto> g) = heap s" using h(2) by (simp add: fun_upd_idem_iff)
  then show "put_tp_schedule a (emit (Unlock cpu) (emit (RefGet a)
            ((emit (Lock cpu) s)\<lparr>heap := (heap s)(a \<mapsto> g\<lparr>refcount := refcount g + 1\<rparr>)\<rparr>))) =
         Some (s\<lparr>trace := trace s @ [Lock cpu, RefGet a, Unlock cpu, RefPut a]\<rparr>)"
    using rc by (simp add: put_tp_schedule_def emit_def evl_free_def Let_def)
qed

lemma tp_control_get_copy:
  assumes cpu: "tp_cpu_ok env cpu" and op: "op pt = evl_tp_get"
    and h: "gps (tp (rqs s cpu)) = Some a" "heap s a = Some g" and rc: "refcount g \<noteq> 0"
    and n: "pwin_nr g = int (length (pwins g))"
    and nr: "0 < min (nr_windows pt) (pwin_nr g)"
    and room: "min (nr_windows pt) (pwin_nr g) \<le> int (length (it_windows it))"
  shows "tp_control env clk alloc cpu pt (Some it) s =
     Some (Inr (evl_tp_infolen env (min (nr_windows pt) (pwin_nr g))),
           Some (it\<lparr>it_nr_windows := pwin_nr g,
                    it_windows := tp_copied env g (nat (min (nr_windows pt) (pwin_nr g))) (it_windows it)\<rparr>),
           s\<lparr>trace := trace s @ [Lock cpu, RefGet a, Unlock cpu, RefPut a]\<rparr>)"
proof -
  let ?nr = "min (nr_windows pt) (pwin_nr g)"
  let ?m = "nat ?nr"
  let ?g' = "g\<lparr>refcount := refcount g + 1\<rparr>"
  let ?s2 = "emit (Unlock cpu) (emit (RefGet a)
            ((emit (Lock cpu) s)\<lparr>heap := (heap s)(a \<mapsto> ?g')\<rparr>))"
  from cpu have c: "\<not> (cpu < 0 \<or> \<not> cpu_present env cpu \<or> \<not> is_threading_cpu env cpu)"
    by (auto simp: tp_cpu_ok_def)
  have m: "0 < ?m" "?m \<le> length (pwins ?g')" "?m \<le> length (it_windows it)" "int ?m = ?nr"
    using nr n room by auto
  from tp_get_loop_full[OF m(1,2,3), of env] obtain res where
    lp: "tp_get_loop env ?g' (int ?m) 0 0 0 0 0 (it_windows it) = Some (res, int (?m - 1), int (?m - 1))"
    and l: "length res = length (it_windows it)"
    and f: "\<forall>i<length (it_windows it).
             (i < ?m \<longrightarrow> offset (res ! i) = ktime_to_u_timespec env (w_offset (pwins ?g' ! i)) \<and>
                      ptid (res ! i) = w_part (pwins ?g' ! i) \<and>
                      (i + 1 < ?m \<longrightarrow> duration (res ! i) =
                         ktime_to_u_timespec env (w_offset (pwins ?g' ! (i + 1)) - w_offset (pwins ?g' ! i)))) \<and>
             (?m \<le> i \<longrightarrow> res ! i = it_windows it ! i)"
    by blast
  from tp_copied_fixup[OF m(1,3) l f]
  have fx: "res[?m - 1 := (res ! (?m - 1))\<lparr>duration :=
            ktime_to_u_timespec env (tf_duration g - w_offset (pwins g ! (?m - 1)))\<rparr>] =
         tp_copied env g ?m (it_windows it)" by simp
  have b: "?m - 1 < length (pwins g)" "?m - 1 < length res" using m l by auto
  have hp: "heap ?s2 a = Some ?g'" by simp
  show ?thesis
    using c op lp[unfolded m(4)] b fx hp
    by (simp add: tp_control_def tp_get_def tp_get_refcount[OF h rc] Let_def)
qed

lemma tp_control_get_none_requested:
  assumes cpu: "tp_cpu_ok env cpu" and op: "op pt = evl_tp_get"
    and h: "gps (tp (rqs s cpu)) = Some a" "heap s a = Some g" and rc: "refcount g \<noteq> 0"
    and n: "pwins g \<noteq> []"
    and nr: "min (nr_windows pt) (pwin_nr g) \<le> 0"
    and room: "it_windows it \<noteq> []"
  shows "tp_control env clk alloc cpu pt (Some it) s =
     Some (Inr (evl_tp_infolen env (min (nr_windows pt) (pwin_nr g))),
           Some (it\<lparr>it_nr_windows := pwin_nr g,
                    it_windows := (it_windows it)[0 := (it_windows it ! 0)\<lparr>duration :=
                       ktime_to_u_timespec env (tf_duration g - w_offset (pwins g ! 0))\<rparr>]\<rparr>),
           s\<lparr>trace := trace s @ [Lock cpu, RefGet a, Unlock cpu, RefPut a]\<rparr>)"
proof -
  let ?g' = "g\<lparr>refcount := refcount g + 1\<rparr>"
  let ?s2 = "emit (Unlock cpu) (emit (RefGet a)
            ((emit (Lock cpu) s)\<lparr>heap := (heap s)(a \<mapsto> ?g')\<rparr>))"
  from cpu have c: "\<not> (cpu < 0 \<or> \<not> cpu_present env cpu \<or> \<not> is_threading_cpu env cpu)"
    by (auto simp: tp_cpu_ok_def)
  have hp: "heap ?s2 a = Some ?g'" by simp
  have lp: "tp_get_loop env ?g' (min (nr_windows pt) (pwin_nr g)) 0 0 0 0 0 (it_windows it) =
              Some (it_windows it, 0, 0)"
    using nr by (rule tp_get_loop_none)
  show ?thesis
    using c op lp hp n room
    by (simp add: tp_control_def tp_get_def tp_get_refcount[OF h rc] Let_def)
qed

lemma tp_get_frame:
  assumes h: "gps (tp (rqs s cpu)) = Some a" "heap s a = Some g" and rc: "refcount g \<noteq> 0"
    and r: "tp_get env cpu pt infp s = Some (e, i, s')"
  shows "s' = s\<lparr>trace := trace s @ [Lock cpu, RefGet a, Unlock cpu, RefPut a]\<rparr>"
  using r
  by (auto simp: tp_get_def tp_get_refcount[OF h rc] Let_def
      split: option.splits Option.bind_splits prod.splits)

lemma tp_get_no_table:
  assumes "gps (tp (rqs s cpu)) = None"
  shows "tp_get env cpu pt infp s =
           Some (Inr 0, infp, s\<lparr>trace := trace s @ [Lock cpu, Unlock cpu, Schedule]\<rparr>)"
  using assms by (simp add: tp_get_def get_tp_schedule_def emit_def)

lemma tp_copied_table_of:
  assumes nr: "0 \<le> CONFIG_EVL_SCHED_TP_NR_PART env"
    and v: "tp_windows_valid env ws"
    and rt: "\<forall>k. u_timespec_to_ktime env (ktime_to_u_timespec env k) = k"
    and i: "i < length ws" and room: "length ws \<le> length out"
  shows "u_timespec_to_ktime env (offset (tp_copied env (tp_table_of env ws) (length ws) out ! i)) =
           u_timespec_to_ktime env (offset (ws ! i))"
    and "u_timespec_to_ktime env (duration (tp_copied env (tp_table_of env ws) (length ws) out ! i)) =
           u_timespec_to_ktime env (duration (ws ! i))"
    and "ptid (tp_copied env (tp_table_of env ws) (length ws) out ! i) = ptid (ws ! i)"
proof -
  let ?D = "\<lambda>p. u_timespec_to_ktime env (duration p)"
  from v i have o: "u_timespec_to_ktime env (offset (ws ! i)) = sum_list (map ?D (take i ws))"
    unfolding tp_windows_valid_iff[OF nr] by simp
  have io: "i < length out" using i room by simp
  have t: "sum_list (map ?D (take (Suc i) ws)) = sum_list (map ?D (take i ws)) + ?D (ws ! i)"
    using i by (simp add: take_Suc_conv_app_nth)
  show "u_timespec_to_ktime env (offset (tp_copied env (tp_table_of env ws) (length ws) out ! i)) =
           u_timespec_to_ktime env (offset (ws ! i))"
    using i io rt o by (simp add: tp_copied_def tp_table_of_def)
  show "ptid (tp_copied env (tp_table_of env ws) (length ws) out ! i) = ptid (ws ! i)"
    using i io by (simp add: tp_copied_def tp_table_of_def)
  show "u_timespec_to_ktime env (duration (tp_copied env (tp_table_of env ws) (length ws) out ! i)) =
           u_timespec_to_ktime env (duration (ws ! i))"
  proof (cases "i + 1 < length ws")
    case True
    then show ?thesis using i io rt t by (simp add: tp_copied_def tp_table_of_def)
  next
    case False
    with i have "Suc i = length ws" by simp
    then have "sum_list (map ?D ws) = sum_list (map ?D (take i ws)) + ?D (ws ! i)"
      using t by simp
    then show ?thesis using False i io rt by (simp add: tp_copied_def tp_table_of_def)
  qed
qed

lemma tp_install_get_roundtrip:
  assumes cpu: "tp_cpu_ok env cpu"
    and nr: "0 \<le> CONFIG_EVL_SCHED_TP_NR_PART env"
    and op: "op pt = evl_tp_install"
    and n: "0 < nr_windows pt" "nr_windows pt = int (length (windows pt))"
    and v: "tp_windows_valid env (windows pt)"
    and fresh: "heap s a = None"
    and live: "tp_gps_live s cpu"
    and free: "threads (tp (rqs s cpu)) = []"
    and rt: "\<forall>k. u_timespec_to_ktime env (ktime_to_u_timespec env k) = k"
    and opg: "op ptg = evl_tp_get"
    and ask: "nr_windows pt \<le> nr_windows ptg"
    and room: "length (windows pt) \<le> length (it_windows it)"
  shows "\<exists>s1 out.
     tp_control env clk (Some a) cpu pt infp s = Some (Inr 0, infp, s1) \<and>
     tp_control env clk' alloc' cpu ptg (Some it) s1 =
       Some (Inr (evl_tp_infolen env (nr_windows pt)),
             Some (it\<lparr>it_nr_windows := nr_windows pt, it_windows := out\<rparr>),
             s1\<lparr>trace := trace s1 @ [Lock cpu, RefGet a, Unlock cpu, RefPut a]\<rparr>) \<and>
     length out = length (it_windows it) \<and>
     (\<forall>i<length (windows pt).
        u_timespec_to_ktime env (offset (out ! i)) = u_timespec_to_ktime env (offset (windows pt ! i)) \<and>
        u_timespec_to_ktime env (duration (out ! i)) =
          u_timespec_to_ktime env (duration (windows pt ! i)) \<and>
        ptid (out ! i) = ptid (windows pt ! i)) \<and>
     (\<forall>i. length (windows pt) \<le> i \<and> i < length out \<longrightarrow> out ! i = it_windows it ! i)"
proof -
  let ?ws = "windows pt"
  let ?g = "tp_table_of env ?ws"
  let ?out = "tp_copied env ?g (length ?ws) (it_windows it)"
  have req: "tp_switch_request env s (Some a) pt (Some a)"
    using op n v fresh by (simp add: tp_switch_request_def deref_def)
  from tp_control_switch_free[OF cpu nr req live free, of clk infp]
  obtain s1 where c1: "tp_control env clk (Some a) cpu pt infp s = Some (Inr 0, infp, s1)"
    and t1: "tp (rqs s1 cpu) =
       (if gps (tp (rqs s cpu)) = None then (tp (rqs s cpu))\<lparr>gps := Some a\<rparr>
        else (tp (rqs s cpu))\<lparr>tf_timer := (tf_timer (tp (rqs s cpu)))\<lparr>running := False\<rparr>,
               gps := Some a\<rparr>)"
    and h1: "heap s1 a = Some ?g"
    by blast
  from t1 have g1: "gps (tp (rqs s1 cpu)) = Some a" by (simp split: if_splits)
  have rc: "refcount ?g \<noteq> 0" by (simp add: tp_table_of_def)
  have pn: "pwin_nr ?g = int (length (pwins ?g))" by (simp add: tp_table_of_def)
  have pw: "pwin_nr ?g = nr_windows pt" using n by (simp add: tp_table_of_def)
  have mn: "min (nr_windows ptg) (pwin_nr ?g) = nr_windows pt" using ask pw by simp
  have pos: "0 < min (nr_windows ptg) (pwin_nr ?g)" using mn n by simp
  have rm: "min (nr_windows ptg) (pwin_nr ?g) \<le> int (length (it_windows it))"
    using mn n room by simp
  have nn: "nat (nr_windows pt) = length ?ws" using n by simp
  have c2: "tp_control env clk' alloc' cpu ptg (Some it) s1 =
       Some (Inr (evl_tp_infolen env (nr_windows pt)),
             Some (it\<lparr>it_nr_windows := nr_windows pt, it_windows := ?out\<rparr>),
             s1\<lparr>trace := trace s1 @ [Lock cpu, RefGet a, Unlock cpu, RefPut a]\<rparr>)"
    using tp_control_get_copy[OF cpu opg g1 h1 rc pn pos rm, of clk' alloc']
    by (simp only: pw min_absorb2[OF ask] nn)
  have len: "length ?out = length (it_windows it)" by (simp add: tp_copied_def)
  have flds: "\<forall>i<length ?ws.
        u_timespec_to_ktime env (offset (?out ! i)) = u_timespec_to_ktime env (offset (?ws ! i)) \<and>
        u_timespec_to_ktime env (duration (?out ! i)) = u_timespec_to_ktime env (duration (?ws ! i)) \<and>
        ptid (?out ! i) = ptid (?ws ! i)"
    using tp_copied_table_of[OF nr v rt _ room] by blast
  have rest: "\<forall>i. length ?ws \<le> i \<and> i < length ?out \<longrightarrow> ?out ! i = it_windows it ! i"
    by (simp add: tp_copied_def)
  from c1 c2 len flds rest show ?thesis by blast
qed

lemma tp_copied_prefix:
  "length (tp_copied env g n out) = length out"
  "n \<le> i \<Longrightarrow> i < length out \<Longrightarrow> tp_copied env g n out ! i = out ! i"
  "i < n \<Longrightarrow> i < length out \<Longrightarrow>
     offset (tp_copied env g n out ! i) = ktime_to_u_timespec env (w_offset (pwins g ! i)) \<and>
     ptid (tp_copied env g n out ! i) = w_part (pwins g ! i)"
  by (simp_all add: tp_copied_def)

lemma tp_control_get_no_room:
  assumes cpu: "tp_cpu_ok env cpu" and op: "op pt = evl_tp_get"
    and h: "gps (tp (rqs s cpu)) = Some a" "heap s a = Some g" and rc: "refcount g \<noteq> 0"
    and nr: "min (nr_windows pt) (pwin_nr g) \<le> 0"
    and room: "it_windows it = []"
  shows "tp_control env clk alloc cpu pt (Some it) s = None"
proof -
  let ?g' = "g\<lparr>refcount := refcount g + 1\<rparr>"
  let ?s2 = "emit (Unlock cpu) (emit (RefGet a)
            ((emit (Lock cpu) s)\<lparr>heap := (heap s)(a \<mapsto> ?g')\<rparr>))"
  from cpu have c: "\<not> (cpu < 0 \<or> \<not> cpu_present env cpu \<or> \<not> is_threading_cpu env cpu)"
    by (auto simp: tp_cpu_ok_def)
  have hp: "heap ?s2 a = Some ?g'" by simp
  have lp: "tp_get_loop env ?g' (min (nr_windows pt) (pwin_nr g)) 0 0 0 0 0 (it_windows it) =
              Some (it_windows it, 0, 0)"
    using nr by (rule tp_get_loop_none)
  have u: "upd [] 0 f = None" for f :: "'b evl_u_tp_window \<Rightarrow> 'b evl_u_tp_window"
    by (simp add: upd_def)
  show ?thesis
    using c op lp hp room h rc u
    by (simp add: tp_control_def tp_get_def get_tp_schedule_def deref_def Let_def upd_def
        split: option.splits Option.bind_splits)
qed

text \<open>
  \<^bold>\<open>C6\<close> (the case that the code misses). The entries of the caller's block that
  \<^verbatim>\<open>evl_tp_get\<close> writes are meant to be the first \<^verbatim>\<open>min(nr_windows, pwin_nr)\<close> and no other. For
  \<^verbatim>\<open>nr_windows <= 0\<close>, on a valid CPU with a table of at least one window installed and a block
  with room for one entry, the call returns \<^verbatim>\<open>evl_tp_infolen(nr_windows)\<close> (the length of a block
  without any window when \<^verbatim>\<open>nr_windows\<close> is 0) and sets \<^verbatim>\<open>it->nr_windows\<close> to the number of windows
  of the table, and it also stores the frame duration less the offset of the first window into
  \<^verbatim>\<open>it->windows[0].duration\<close>: the assignment to \<^verbatim>\<open>pp->duration\<close> behind the copy loop has no
  guard, and \<open>pp\<close> is still \<^verbatim>\<open>it->windows\<close> when the loop has not run. The other entries and the
  other fields of entry 0 are as before the call. What else the claim says holds:
  \<open>tp_install_get_roundtrip\<close> for a request for at least the windows installed,
  \<open>tp_control_get_copy\<close> with \<open>tp_copied_prefix\<close> for a request for at least one window,
  \<open>tp_get_frame\<close> for the state.
\<close>

theorem tp_get_zero_request:
  assumes cpu: "tp_cpu_ok env cpu" and op: "op pt = evl_tp_get"
    and h: "gps (tp (rqs s cpu)) = Some a" "heap s a = Some g" and rc: "refcount g \<noteq> 0"
    and n: "0 < pwin_nr g" "pwins g \<noteq> []"
    and nr: "nr_windows pt \<le> 0"
    and room: "it_windows it \<noteq> []"
  shows "ctl_ret (tp_control env clk alloc cpu pt (Some it) s) =
           Some (Inr (evl_tp_infolen env (nr_windows pt))) \<and>
         ctl_info (tp_control env clk alloc cpu pt (Some it) s) =
           Some (Some (it\<lparr>it_nr_windows := pwin_nr g,
                    it_windows := (it_windows it)[0 := (it_windows it ! 0)\<lparr>duration :=
                       ktime_to_u_timespec env (tf_duration g - w_offset (pwins g ! 0))\<rparr>]\<rparr>))"
proof -
  have m: "min (nr_windows pt) (pwin_nr g) = nr_windows pt" using n nr by simp
  have le: "min (nr_windows pt) (pwin_nr g) \<le> 0" using nr by simp
  show ?thesis
    using tp_control_get_none_requested[OF cpu op h rc n(2) le room, of clk alloc]
    by (simp add: ctl_ret_def ctl_info_def m)
qed

theorem tp_get_zero_request_witness:
  "tp_cpu_ok example_env 0 \<and> op (get_req 0) = evl_tp_get \<and>
   gps (tp (rqs three_installed 0)) = Some 0 \<and> heap three_installed 0 = Some three_table \<and>
   refcount three_table \<noteq> 0 \<and> 0 < pwin_nr three_table \<and> pwins three_table \<noteq> [] \<and>
   nr_windows (get_req 0) \<le> 0 \<and> it_windows five_slots \<noteq> [] \<and>
   it_windows five_slots = replicate 5 \<lparr>offset = (0, 7000000), duration = (0, 7000000), ptid = 7\<rparr> \<and>
   ctl_ret (tp_control example_env (clock_at 0) None 0 (get_req 0) (Some five_slots) three_installed) =
     Some (Inr 4) \<and>
   ctl_info (tp_control example_env (clock_at 0) None 0 (get_req 0) (Some five_slots) three_installed) =
     Some (Some \<lparr>it_nr_windows = 3,
                 it_windows = \<lparr>offset = (0, 7000000), duration = (0, 25000000), ptid = 7\<rparr> #
                    replicate 4 \<lparr>offset = (0, 7000000), duration = (0, 7000000), ptid = 7\<rparr>\<rparr>)"
proof -
  have a: "tp_cpu_ok example_env 0" "op (get_req 0) = evl_tp_get"
    "gps (tp (rqs three_installed 0)) = Some 0" "heap three_installed 0 = Some three_table"
    "refcount three_table \<noteq> 0" "0 < pwin_nr three_table" "pwins three_table \<noteq> []"
    "nr_windows (get_req 0) \<le> 0" "it_windows five_slots \<noteq> []"
    by code_simp+
  have b: "it_windows five_slots =
      replicate 5 \<lparr>offset = (0, 7000000), duration = (0, 7000000), ptid = 7\<rparr>"
    by code_simp
  have c: "evl_tp_infolen example_env (nr_windows (get_req 0)) = 4"
    "five_slots\<lparr>it_nr_windows := pwin_nr three_table,
        it_windows := (it_windows five_slots)[0 := (it_windows five_slots ! 0)\<lparr>duration :=
           ktime_to_u_timespec example_env
             (tf_duration three_table - w_offset (pwins three_table ! 0))\<rparr>]\<rparr> =
     \<lparr>it_nr_windows = 3,
      it_windows = \<lparr>offset = (0, 7000000), duration = (0, 25000000), ptid = 7\<rparr> #
         replicate 4 \<lparr>offset = (0, 7000000), duration = (0, 7000000), ptid = 7\<rparr>\<rparr>"
    by code_simp+
  from tp_get_zero_request[OF a, of "clock_at 0" None]
  have d: "ctl_ret (tp_control example_env (clock_at 0) None 0 (get_req 0) (Some five_slots)
              three_installed) = Some (Inr 4)"
    "ctl_info (tp_control example_env (clock_at 0) None 0 (get_req 0) (Some five_slots)
              three_installed) =
     Some (Some \<lparr>it_nr_windows = 3,
                 it_windows = \<lparr>offset = (0, 7000000), duration = (0, 25000000), ptid = 7\<rparr> #
                    replicate 4 \<lparr>offset = (0, 7000000), duration = (0, 7000000), ptid = 7\<rparr>\<rparr>)"
    unfolding c by blast+
  from a b d show ?thesis by blast
qed

text \<open>The three-window table read back into a block of five entries: whole with room for five
  windows, and its first two windows with room for two, where the duration of the last entry
  written runs to the end of the frame.\<close>

lemma three_read_back:
  "ctl_ret (tp_control example_env (clock_at 0) None 0 (get_req 5) (Some five_slots) three_installed) =
     Some (Inr (evl_tp_infolen example_env 3))"
  "ctl_info (tp_control example_env (clock_at 0) None 0 (get_req 5) (Some five_slots) three_installed) =
     Some (Some \<lparr>it_nr_windows = 3, it_windows = three_windows @ replicate 2 (win_ms 7 7 7)\<rparr>)"
  "trace (ctl_sys (tp_control example_env (clock_at 0) None 0 (get_req 5) (Some five_slots)
       three_installed)) = trace three_installed @ [Lock 0, RefGet 0, Unlock 0, RefPut 0]"
  "heap (ctl_sys (tp_control example_env (clock_at 0) None 0 (get_req 5) (Some five_slots)
       three_installed)) 0 = Some three_table"
  by code_simp+

lemma three_read_two:
  "ctl_ret (tp_control example_env (clock_at 0) None 0 (get_req 2) (Some five_slots) three_installed) =
     Some (Inr (evl_tp_infolen example_env 2))"
  "ctl_info (tp_control example_env (clock_at 0) None 0 (get_req 2) (Some five_slots) three_installed) =
     Some (Some \<lparr>it_nr_windows = 3,
        it_windows = [win_ms 0 10 0, win_ms 10 15 (- 1)] @ replicate 3 (win_ms 7 7 7)\<rparr>)"
  by code_simp+

end
